(* ===== verification/Prelude.thy ===== *)
theory Prelude
  imports Main "HOL-Library.Word" "HOL-Library.State_Monad" "HOL-Library.AList" "HOL-Library.Multiset"
begin

text \<open>
  Shared vocabulary of the development: the machine types of the Go code, Go's error values,
  maps and slices, the state monad in which every operation with an effect is written, and the
  weakest-precondition calculus with which those operations are verified.
  Nothing here models a file of the repository; it models what the Go language and its
  standard library give to all of them.
\<close>

section \<open>Machine types\<close>

type_synonym byte = "8 word"
type_synonym u32 = "32 word"
type_synonym u64 = "64 word"

text \<open>\<open>common.Hash\<close> is \<open>[32]byte\<close> and \<open>common.Address\<close> is \<open>[20]byte\<close>, read big-endian.
  A \<open>*big.Int\<close> is an unbounded \<open>int\<close>; a pointer that the code compares with nil is an option.\<close>

type_synonym hash = "256 word"
type_synonym address = "160 word"

text \<open>Big-endian bytes of a number, and back.\<close>

fun nat_bytes :: "nat \<Rightarrow> nat \<Rightarrow> byte list" where
  "nat_bytes 0 x = []"
| "nat_bytes (Suc n) x = nat_bytes n (x div 256) @ [word_of_nat (x mod 256)]"

definition bytes_nat :: "byte list \<Rightarrow> nat" where
  "bytes_nat bs = foldl (\<lambda>a b. 256 * a + unat b) 0 bs"

definition hash_Bytes :: "hash \<Rightarrow> byte list" where
  "hash_Bytes h = nat_bytes 32 (unat h)"

text \<open>\<open>big.Int.Uint64\<close> keeps the low 64 bits of the absolute value.\<close>

definition Uint64 :: "int \<Rightarrow> u64" where
  "Uint64 x = word_of_int \<bar>x\<bar>"

text \<open>A Go string is a sequence of bytes, here a \<open>char list\<close>; \<open>[]byte(s)\<close> reads it as bytes.\<close>

definition string_bytes :: "string \<Rightarrow> byte list" where
  "string_bytes s = map of_char s"

lemma length_nat_bytes [simp]: "length (nat_bytes n x) = n"
  by (induction n arbitrary: x) auto

lemma length_hash_Bytes [simp]: "length (hash_Bytes h) = 32"
  by (simp add: hash_Bytes_def)

lemma bytes_nat_snoc [simp]: "bytes_nat (bs @ [b]) = 256 * bytes_nat bs + unat b"
  by (simp add: bytes_nat_def)

lemma bytes_nat_Nil [simp]: "bytes_nat [] = 0"
  by (simp add: bytes_nat_def)

lemma bytes_nat_of_nat_bytes: "bytes_nat (nat_bytes n x) = x mod 256 ^ n"
proof (induction n arbitrary: x)
  case 0
  show ?case by simp
next
  case (Suc n)
  have "unat (word_of_nat (x mod 256) :: byte) = x mod 256"
    by (simp add: unat_of_nat)
  then show ?case
    by (simp add: Suc mod_mult2_eq)
qed

lemma hash_Bytes_inverse: "word_of_nat (bytes_nat (hash_Bytes h)) = h"
proof -
  have "unat h < 256 ^ 32"
    using unsigned_less [of h, where ?'a = nat] by simp
  then show ?thesis
    by (simp add: hash_Bytes_def bytes_nat_of_nat_bytes)
qed

lemma hash_Bytes_inject [simp]: "hash_Bytes a = hash_Bytes b \<longleftrightarrow> a = b"
  by (metis hash_Bytes_inverse)

lemma length_string_bytes [simp]: "length (string_bytes s) = length s"
  by (simp add: string_bytes_def)

lemma string_bytes_append: "string_bytes (s @ t) = string_bytes s @ string_bytes t"
  by (simp add: string_bytes_def)

lemma unat_of_char: "unat (of_char c :: byte) = of_char c"
proof -
  have "(of_char c :: nat) < 256"
    using of_char_mod_256 [of c, where ?'a = nat] by (metis mod_less_divisor zero_less_numeral)
  then show ?thesis
    by (simp add: of_nat_of_char [symmetric, where ?'a = byte] unat_of_nat)
qed

lemma of_char_byte_inject: "(of_char c :: byte) = of_char d \<longleftrightarrow> c = d"
  by (metis of_char_eq_iff unat_of_char)

lemma string_bytes_inject [simp]: "string_bytes s = string_bytes t \<longleftrightarrow> s = t"
  unfolding string_bytes_def by (rule inj_map_eq_map) (simp add: inj_def of_char_byte_inject)


section \<open>Decimal text\<close>

text \<open>The \<open>%d\<close> and \<open>%v\<close> verbs of \<open>fmt\<close> on unsigned integers.\<close>

definition digit_char :: "nat \<Rightarrow> char" where
  "digit_char d = ''0123456789'' ! d"

fun dec :: "nat \<Rightarrow> string" where
  "dec n = (if n < 10 then [digit_char n] else dec (n div 10) @ [digit_char (n mod 10)])"

declare dec.simps [simp del]

section \<open>Errors\<close>

text \<open>
  A Go \<open>error\<close> is a value. The sentinels of \<open>txmanager/types\<close> are constructors of their own;
  \<open>Foreign\<close> holds the sentinels of the libraries the code compares with by \<open>errors.Is\<close>, with
  the message the library gave them; \<open>PgError\<close> is a \<open>*pgconn.PgError\<close> with its constraint name;
  the errors of \<open>encoding/hex\<close> and \<open>strconv\<close> follow; \<open>Errorf\<close> is \<open>errors.New\<close> or
  \<open>fmt.Errorf\<close> without \<open>%w\<close>, \<open>Wrapf\<close> is \<open>fmt.Errorf\<close> with one \<open>%w\<close>,
  as the text before it, the wrapped error and the text after it.
\<close>

datatype sentinel = EthNotFound | PgxNoRows | DeadlineExceeded | StateNotSynchronized

datatype goerr =
    ErrNotFound
  | ErrAlreadyExists
  | ErrExecutionReverted
  | Foreign sentinel string
  | PgError string string
  | InvalidByteError char
  | ErrLength
  | ErrSyntax
  | ErrRange
  | NumError string goerr
  | Errorf string
  | Wrapf string goerr string

text \<open>The text of an error, \<open>err.Error()\<close>.\<close>

fun Error :: "goerr \<Rightarrow> string" where
  "Error ErrNotFound = ''not found''"
| "Error ErrAlreadyExists = ''already exists''"
| "Error ErrExecutionReverted = ''execution reverted''"
| "Error (Foreign k msg) = msg"
| "Error (PgError c msg) = msg"
| "Error (InvalidByteError c) = ''encoding/hex: invalid byte: '' @ [c]"
| "Error ErrLength = ''encoding/hex: odd length hex string''"
| "Error ErrSyntax = ''invalid syntax''"
| "Error ErrRange = ''value out of range''"
| "Error (NumError num e) = ''strconv.ParseUint: parsing '' @ num @ '': '' @ Error e"
| "Error (Errorf msg) = msg"
| "Error (Wrapf pre e post) = pre @ Error e @ post"

text \<open>\<open>errors.Is(err, target)\<close> for a library sentinel: it looks through \<open>%w\<close> wrapping.\<close>

fun errors_Is :: "goerr \<Rightarrow> sentinel \<Rightarrow> bool" where
  "errors_Is (Foreign k msg) t = (k = t)"
| "errors_Is (Wrapf pre e post) t = errors_Is e t"
| "errors_Is (NumError num e) t = errors_Is e t"
| "errors_Is _ t = False"

definition is_err :: "goerr option \<Rightarrow> sentinel \<Rightarrow> bool" where
  "is_err err t = (case err of None \<Rightarrow> False | Some e \<Rightarrow> errors_Is e t)"

lemma is_err_simps [simp]:
  "is_err None t = False"
  "is_err (Some e) t = errors_Is e t"
  by (simp_all add: is_err_def)

section \<open>Go maps and slices\<close>

text \<open>
  A Go map is a reference that may be nil. Its entries are an association list with distinct
  keys; a lookup in a nil map finds nothing, an assignment to a nil map panics (\<open>None\<close>).
\<close>

type_synonym ('k, 'v) gomap = "('k \<times> 'v) list option"

definition make_map :: "('k, 'v) gomap" where
  "make_map = Some []"

definition map_found :: "('k, 'v) gomap \<Rightarrow> 'k \<Rightarrow> bool" where
  "map_found m k = (case m of None \<Rightarrow> False | Some al \<Rightarrow> map_of al k \<noteq> None)"

definition map_assign :: "'k \<Rightarrow> 'v \<Rightarrow> ('k, 'v) gomap \<Rightarrow> ('k, 'v) gomap option" where
  "map_assign k v m = (case m of None \<Rightarrow> None | Some al \<Rightarrow> Some (Some (AList.update k v al)))"

definition map_keys :: "('k, 'v) gomap \<Rightarrow> 'k list" where
  "map_keys m = (case m of None \<Rightarrow> [] | Some al \<Rightarrow> map fst al)"

definition wf_map :: "('k, 'v) gomap \<Rightarrow> bool" where
  "wf_map m = distinct (map_keys m)"

lemma wf_make_map [simp]: "wf_map make_map"
  by (simp add: wf_map_def make_map_def map_keys_def)

lemma map_found_keys: "map_found m k \<longleftrightarrow> k \<in> set (map_keys m)"
  by (auto simp: map_found_def map_keys_def map_of_eq_None_iff split: option.splits)

lemma map_assign_keys:
  assumes "map_assign k v m = Some m'"
  shows "set (map_keys m') = insert k (set (map_keys m))"
proof -
  have "set (map fst (AList.update k v al)) = insert k (set (map fst al))" for al :: "('a \<times> 'b) list"
    by (induction al) auto
  with assms show ?thesis
    by (auto simp only: map_assign_def map_keys_def option.case split: option.splits)
qed

lemma map_assign_fresh:
  assumes "map_assign k v m = Some m'" and "\<not> map_found m k"
  shows "map_keys m' = map_keys m @ [k]"
proof -
  have upd: "AList.update k v al = al @ [(k, v)]" if "k \<notin> set (map fst al)" for al
    using that by (induction al) auto
  from assms(1) obtain al where "m = Some al" and "m' = Some (AList.update k v al)"
    by (auto simp: map_assign_def split: option.splits)
  with upd assms(2) show ?thesis
    by (simp add: map_found_keys map_keys_def)
qed

lemma map_assign_wf: "wf_map m \<Longrightarrow> map_assign k v m = Some m' \<Longrightarrow> wf_map m'"
  by (auto simp: wf_map_def map_assign_def map_keys_def distinct_update split: option.splits)

text \<open>
  The order in which \<open>range\<close> visits a map is not specified by the language. A list of numbers
  (a Lehmer code, reduced modulo what is left) selects the order: every list selects some
  permutation, and every permutation is selected by some list.
\<close>

fun range_by :: "nat list \<Rightarrow> 'a list \<Rightarrow> 'a list" where
  "range_by _ [] = []"
| "range_by [] xs = xs"
| "range_by (k # ks) (x # xs) =
     (let ys = x # xs; i = k mod length ys
      in ys ! i # range_by ks (take i ys @ drop (Suc i) ys))"

lemma mset_take_nth_drop:
  assumes "i < length ys"
  shows "mset ys = add_mset (ys ! i) (mset (take i ys @ drop (Suc i) ys))"
proof -
  have "mset ys = mset (take i ys @ ys ! i # drop (Suc i) ys)"
    using id_take_nth_drop [OF assms] by simp
  then show ?thesis by simp
qed

lemma mset_range_by [simp]: "mset (range_by ks xs) = mset xs"
proof (induction ks xs rule: range_by.induct)
  case (3 k ks x xs)
  define ys where "ys = x # xs"
  define i where "i = k mod length ys"
  have i: "i < length ys"
    by (simp add: i_def ys_def)
  have "mset (range_by (k # ks) (x # xs)) = add_mset (ys ! i) (mset (take i ys @ drop (Suc i) ys))"
    using 3 [of ys i] by (simp add: ys_def i_def Let_def)
  with mset_take_nth_drop [OF i] show ?case
    by (simp add: ys_def)
qed simp_all

lemma set_range_by [simp]: "set (range_by ks xs) = set xs"
  by (metis mset_range_by set_mset_mset)

lemma length_range_by [simp]: "length (range_by ks xs) = length xs"
  by (metis mset_range_by size_mset)

lemma range_by_complete: "mset ys = mset xs \<Longrightarrow> \<exists>ks. range_by ks xs = ys"
proof (induction ys arbitrary: xs)
  case Nil
  then show ?case by (intro exI [of _ "[]"]) simp
next
  case (Cons y ys)
  then have "y \<in> set xs"
    by (metis list.set_intros(1) set_mset_mset)
  then obtain i where i: "i < length xs" "xs ! i = y"
    by (auto simp: in_set_conv_nth)
  have "mset ys = mset (take i xs @ drop (Suc i) xs)"
    using mset_take_nth_drop [OF i(1)] Cons.prems i(2) by simp
  then obtain ks where ks: "range_by ks (take i xs @ drop (Suc i) xs) = ys"
    using Cons.IH by blast
  obtain z zs where xs: "xs = z # zs"
    using i by (cases xs) auto
  have "range_by (i # ks) xs = y # ys"
    using i ks by (simp add: xs Let_def)
  then show ?case by blast
qed

lemma list_all2_rightD: "list_all2 P xs ys \<Longrightarrow> y \<in> set ys \<Longrightarrow> \<exists>x \<in> set xs. P x y"
  by (induction rule: list_all2_induct) auto

lemma distinct_submset:
  assumes "mset xs \<subseteq># mset ys" and "distinct ys"
  shows "distinct xs"
proof -
  from assms(1) obtain zs where "mset ys = mset (xs @ zs)"
    by (metis ex_mset mset_append mset_subset_eq_exists_conv)
  with assms(2) have "distinct (xs @ zs)"
    by (metis mset_eq_imp_distinct_iff)
  then show ?thesis by simp
qed

text \<open>Go's \<open>copy(dst, src)\<close> overwrites a prefix of \<open>dst\<close> of the length of the shorter slice.\<close>

definition go_copy :: "'a list \<Rightarrow> 'a list \<Rightarrow> 'a list" where
  "go_copy dst src = take (length dst) src @ drop (length src) dst"

lemma length_go_copy [simp]: "length (go_copy dst src) = length dst"
  by (simp add: go_copy_def)

lemma go_copy_full: "length src = length dst \<Longrightarrow> go_copy dst src = src"
  by (simp add: go_copy_def)

section \<open>Effects\<close>

text \<open>
  An operation with an effect is a state transformer of \<open>HOL-Library.State_Monad\<close>; a fallible
  one returns \<open>goerr + 'a\<close>. \<open>wp m Q s\<close> says that running \<open>m\<close> from \<open>s\<close> ends with a value and a
  state that satisfy \<open>Q\<close>. The simp rules in \<open>wp_simps\<close> compute \<open>wp\<close> along the structure of a
  program; the rules for the operations of an interface (\<open>wp_ops\<close>) are assumptions of locales.
\<close>

abbreviation ret :: "'a \<Rightarrow> ('s, 'a) state" where
  "ret \<equiv> State_Monad.return"

definition and_then :: "('s, 'e + 'a) state \<Rightarrow> ('a \<Rightarrow> ('s, 'e + 'b) state) \<Rightarrow> ('s, 'e + 'b) state" where
  "and_then m f = do { r \<leftarrow> m; case r of Inl e \<Rightarrow> ret (Inl e) | Inr x \<Rightarrow> f x }"

definition wp :: "('s, 'a) state \<Rightarrow> ('a \<Rightarrow> 's \<Rightarrow> bool) \<Rightarrow> 's \<Rightarrow> bool" where
  "wp m Q s = (case run_state m s of (x, s') \<Rightarrow> Q x s')"

named_theorems wp_simps
named_theorems wp_ops

lemma wp_return [wp_simps]: "wp (ret x) Q = Q x"
  by (simp add: wp_def fun_eq_iff)

lemma wp_bind [wp_simps]: "wp (State_Monad.bind m f) Q = wp m (\<lambda>x. wp (f x) Q)"
  by (simp add: wp_def fun_eq_iff split: prod.splits)

lemma wp_get [wp_simps]: "wp State_Monad.get Q s = Q s s"
  by (simp add: wp_def)

lemma wp_set [wp_simps]: "wp (State_Monad.set s') Q s = Q () s'"
  by (simp add: wp_def)

lemma wp_if [wp_simps]: "wp (if b then m else n) Q = (if b then wp m Q else wp n Q)"
  by simp

lemma wp_case_option [wp_simps]:
  "wp (case x of None \<Rightarrow> m | Some y \<Rightarrow> f y) Q = (case x of None \<Rightarrow> wp m Q | Some y \<Rightarrow> wp (f y) Q)"
  by (simp split: option.splits)

lemma wp_case_sum [wp_simps]:
  "wp (case x of Inl a \<Rightarrow> m a | Inr b \<Rightarrow> f b) Q = (case x of Inl a \<Rightarrow> wp (m a) Q | Inr b \<Rightarrow> wp (f b) Q)"
  by (simp split: sum.splits)

lemma wp_case_prod [wp_simps]:
  "wp (case x of (a, b) \<Rightarrow> f a b) Q = (case x of (a, b) \<Rightarrow> wp (f a b) Q)"
  by (simp split: prod.splits)

lemma wp_let [wp_simps]: "wp (let x = t in m x) Q = (let x = t in wp (m x) Q)"
  by simp

lemma wp_and_then [wp_simps]:
  "wp (and_then m f) Q = wp m (\<lambda>r. case r of Inl e \<Rightarrow> Q (Inl e) | Inr x \<Rightarrow> wp (f x) Q)"
  by (simp add: and_then_def wp_simps cong: sum.case_cong)

lemma wp_mono: "wp m Q s \<Longrightarrow> (\<And>x s'. Q x s' \<Longrightarrow> Q' x s') \<Longrightarrow> wp m Q' s"
  by (auto simp: wp_def split: prod.splits)

text \<open>The postcondition of a fallible program by its outcome, and its rule for sequencing.\<close>

definition ends :: "('s \<Rightarrow> bool) \<Rightarrow> ('a \<Rightarrow> 's \<Rightarrow> bool) \<Rightarrow> 'e + 'a \<Rightarrow> 's \<Rightarrow> bool" where
  "ends E F r s = (case r of Inl e \<Rightarrow> E s | Inr x \<Rightarrow> F x s)"

lemma ends_simps [simp]: "ends E F (Inl e) = E" "ends E F (Inr x) = F x"
  by (simp_all add: ends_def fun_eq_iff)

lemma wp_and_then_ends:
  assumes "wp m (ends E F) s" and "\<And>x s'. F x s' \<Longrightarrow> wp (f x) (ends E H) s'"
  shows "wp (and_then m f) (ends E H) s"
  unfolding wp_and_then
  by (rule wp_mono [OF assms(1)]) (auto intro: assms(2) split: sum.split)

text \<open>Two continuations may be exchanged if they agree on what the first part can lead to.\<close>

lemma bind_cong_wp:
  "wp m (\<lambda>x s'. run_state (f x) s' = run_state (g x) s') s \<Longrightarrow>
     run_state (State_Monad.bind m f) s = run_state (State_Monad.bind m g) s"
  by (simp add: wp_def split: prod.splits)

lemma and_then_cong_wp:
  "wp m (\<lambda>r s'. \<forall>x. r = Inr x \<longrightarrow> run_state (f x) s' = run_state (g x) s') s \<Longrightarrow>
     run_state (and_then m f) s = run_state (and_then m g) s"
  unfolding and_then_def
  by (rule bind_cong_wp) (auto elim!: wp_mono split: sum.splits)

lemma wpI: "(\<And>x s'. run_state m s = (x, s') \<Longrightarrow> Q x s') \<Longrightarrow> wp m Q s"
  by (auto simp: wp_def split: prod.splits)

lemma wpD: "wp m Q s \<Longrightarrow> run_state m s = (x, s') \<Longrightarrow> Q x s'"
  by (simp add: wp_def)

lemma wp_conj: "wp m Q s \<Longrightarrow> wp m R s \<Longrightarrow> wp m (\<lambda>x s'. Q x s' \<and> R x s') s"
  by (auto simp: wp_def split: prod.splits)

lemma wp_run: "wp m Q s \<longleftrightarrow> Q (fst (run_state m s)) (snd (run_state m s))"
  by (simp add: wp_def split: prod.splits)

text \<open>An operation that does not change the part \<open>f\<close> of the state.\<close>

definition preserves :: "('s \<Rightarrow> 'v) \<Rightarrow> ('s, 'a) state \<Rightarrow> bool" where
  "preserves f m \<longleftrightarrow> (\<forall>s. f (snd (run_state m s)) = f s)"

lemma wp_preserves:
  assumes "preserves f m" and "\<And>x s'. f s' = f s \<Longrightarrow> Q x s'"
  shows "wp m Q s"
  using assms by (simp add: wp_run preserves_def)

lemma preservesI: "(\<And>s. wp m (\<lambda>x s'. f s' = f s) s) \<Longrightarrow> preserves f m"
  by (simp add: preserves_def wp_run)

lemma preservesD: "preserves f m \<Longrightarrow> run_state m s = (x, s') \<Longrightarrow> f s' = f s"
  by (metis preserves_def snd_conv)

text \<open>What preserves a part of the state, along the structure of a program.\<close>

named_theorems preserves_intros

lemma preserves_ret [preserves_intros]: "preserves f (ret x)"
  by (simp add: preserves_def)

lemma preserves_get [preserves_intros]: "preserves f State_Monad.get"
  by (simp add: preserves_def)

lemma preserves_bind [preserves_intros]:
  "preserves f m \<Longrightarrow> (\<And>x. preserves f (g x)) \<Longrightarrow> preserves f (State_Monad.bind m g)"
  by (simp add: preserves_def split: prod.splits) (metis snd_conv)

lemma preserves_option [preserves_intros]:
  "preserves f m \<Longrightarrow> (\<And>y. preserves f (g y)) \<Longrightarrow> preserves f (case x of None \<Rightarrow> m | Some y \<Rightarrow> g y)"
  by (cases x) simp_all

lemma preserves_sum [preserves_intros]:
  "(\<And>a. preserves f (m a)) \<Longrightarrow> (\<And>b. preserves f (g b)) \<Longrightarrow>
     preserves f (case x of Inl a \<Rightarrow> m a | Inr b \<Rightarrow> g b)"
  by (cases x) simp_all

lemma preserves_prod [preserves_intros]:
  "(\<And>a b. preserves f (g a b)) \<Longrightarrow> preserves f (case x of (a, b) \<Rightarrow> g a b)"
  by (cases x) simp_all

lemma preserves_if [preserves_intros]:
  "preserves f m \<Longrightarrow> preserves f n \<Longrightarrow> preserves f (if b then m else n)"
  by simp

lemma preserves_let [preserves_intros]: "(\<And>x. preserves f (g x)) \<Longrightarrow> preserves f (let x = t in g x)"
  by (simp add: Let_def)

lemma preserves_and_then [preserves_intros]:
  "preserves f m \<Longrightarrow> (\<And>x. preserves f (g x)) \<Longrightarrow> preserves f (and_then m g)"
  unfolding and_then_def by (intro preserves_intros)

text \<open>An operation on one component of the state, lifted to the whole state.\<close>

definition zoom :: "('s \<Rightarrow> 'w) \<Rightarrow> ('w \<Rightarrow> 's \<Rightarrow> 's) \<Rightarrow> ('w, 'a) state \<Rightarrow> ('s, 'a) state" where
  "zoom get_w put_w m = State (\<lambda>s. case run_state m (get_w s) of (x, w) \<Rightarrow> (x, put_w w s))"

lemma run_state_zoom [simp]:
  "run_state (zoom g p m) s = (case run_state m (g s) of (x, w) \<Rightarrow> (x, p w s))"
  by (simp add: zoom_def)

lemma wp_zoom: "(\<And>x w. Q x (p w s)) \<Longrightarrow> wp (zoom g p m) Q s"
  by (simp add: wp_def split: prod.splits)

end
