(* ===== verification/Geth.thy ===== *)
theory Geth
  imports Prelude
begin

text \<open>
  The go-ethereum types and functions that the repository uses and does not contain. The data
  types are records of the fields the code reads or writes. The functions are the fields of the
  record \<open>geth\<close>, an argument of every definition that calls one of them; what the code relies on
  is the predicate \<open>geth_ok\<close>. A concrete instance that satisfies it is \<open>ref_geth\<close> in HexText.
\<close>

section \<open>Data\<close>

text \<open>\<open>types.LegacyTx\<close>, the input of \<open>types.NewTx\<close>; nil pointers and nil slices are \<open>None\<close>.\<close>

record LegacyTx =
  ltx_To :: "address option"
  ltx_Nonce :: u64
  ltx_Value :: "int option"
  ltx_Data :: "byte list option"
  ltx_Gas :: u64
  ltx_GasPrice :: "int option"

text \<open>\<open>types.Transaction\<close>: the inner data and the signature values.\<close>

datatype transaction = Transaction (tx_inner: LegacyTx) (tx_sig: "byte list")

text \<open>\<open>types.Receipt\<close>; \<open>zero_receipt\<close> is the value of \<open>var r types.Receipt\<close>.\<close>

record Receipt =
  rcpt_Status :: u64
  rcpt_TxHash :: hash
  rcpt_BlockNumber :: "int option"

definition zero_receipt :: Receipt where
  "zero_receipt = \<lparr>rcpt_Status = 0, rcpt_TxHash = 0, rcpt_BlockNumber = None\<rparr>"

definition ReceiptStatusSuccessful :: u64 where
  "ReceiptStatusSuccessful = 1"

definition ReceiptStatusFailed :: u64 where
  "ReceiptStatusFailed = 0"

text \<open>\<open>ethereum.CallMsg\<close>, \<open>types.Block\<close> (what \<open>GetLastBlock\<close> reads of it) and \<open>state.Block\<close>.\<close>

record CallMsg =
  msg_From :: address
  msg_To :: "address option"
  msg_Value :: "int option"
  msg_Data :: "byte list option"

record EthBlock =
  blk_NumberU64 :: u64
  blk_Hash :: hash
  blk_ParentHash :: hash
  blk_Time :: u64

record Block =
  sb_BlockNumber :: u64
  sb_BlockHash :: hash
  sb_ParentHash :: hash
  sb_ReceivedAt :: int

section \<open>Functions\<close>

type_synonym pubkey = "byte list"
type_synonym privkey = "byte list"

record geth =
  HexToHash :: "string \<Rightarrow> hash"
  HexToAddress :: "string \<Rightarrow> address"
  hash_String :: "hash \<Rightarrow> string"
  addr_String :: "address \<Rightarrow> string"
  BytesToHash :: "byte list \<Rightarrow> hash"
  Keccak256 :: "byte list list \<Rightarrow> byte list"
  SigToPub :: "byte list \<Rightarrow> byte list \<Rightarrow> goerr + pubkey"
  crypto_Sign :: "byte list \<Rightarrow> privkey \<Rightarrow> goerr + byte list"
  PublicKey :: "privkey \<Rightarrow> pubkey"
  PubkeyToAddress :: "pubkey \<Rightarrow> address"
  NewTx :: "LegacyTx \<Rightarrow> transaction"
  tx_Hash :: "transaction \<Rightarrow> hash"

text \<open>
  Documented behaviour the storage relies on: \<open>HexToHash\<close> reads what \<open>Hash.String\<close> prints and
  \<open>HexToAddress\<close> what \<open>Address.String\<close> prints.
\<close>

definition geth_ok :: "geth \<Rightarrow> bool" where
  "geth_ok G \<longleftrightarrow>
     (\<forall>h. HexToHash G (hash_String G h) = h) \<and> (\<forall>a. HexToAddress G (addr_String G a) = a)"

lemma geth_okD [simp]:
  assumes "geth_ok G"
  shows "HexToHash G (hash_String G h) = h" and "HexToAddress G (addr_String G a) = a"
  using assms by (simp_all add: geth_ok_def)

lemma addr_String_inject:
  assumes "geth_ok G"
  shows "addr_String G a = addr_String G b \<longleftrightarrow> a = b"
  using geth_okD(2) [OF assms] by metis

lemma hash_String_inject:
  assumes "geth_ok G"
  shows "hash_String G a = hash_String G b \<longleftrightarrow> a = b"
  using geth_okD(1) [OF assms] by metis

end
