(* ===== verification/HexText.thy ===== *)
theory HexText
  imports Geth
begin

text \<open>
  The textual types of the RPC: \<open>rpc/types/hex.go\<close> (\<open>encodeToHex\<close>, \<open>decodeToHex\<close>,
  \<open>hexIsValid\<close>) and \<open>rpc/types/types.go\<close> (\<open>ArgUint64\<close>, \<open>ArgBytes\<close>, \<open>ArgHash\<close>), on the parts of the
  standard library they use (\<open>strings.TrimPrefix\<close>, \<open>encoding/hex\<close>, \<open>strconv\<close>). \<open>[]byte\<close> values
  that hold text are strings here, since \<open>[]byte(s)\<close> and \<open>string(b)\<close> change no byte.
  The locale \<open>text_codec\<close> is the contract of a marshal/unmarshal pair; both types satisfy it.
\<close>

section \<open>Standard library\<close>

definition TrimPrefix :: "string \<Rightarrow> string \<Rightarrow> string" where
  "TrimPrefix s p = (if take (length p) s = p then drop (length p) s else s)"

definition hex_char :: "nat \<Rightarrow> char" where
  "hex_char d = ''0123456789abcdef'' ! d"

text \<open>The value of a hexadecimal digit of either case.\<close>

definition fromHexChar :: "char \<Rightarrow> nat option" where
  "fromHexChar c =
     (let n = of_char c :: nat
      in if 48 \<le> n \<and> n \<le> 57 then Some (n - 48)
         else if 97 \<le> n \<and> n \<le> 102 then Some (n - 87)
         else if 65 \<le> n \<and> n \<le> 70 then Some (n - 55)
         else None)"

text \<open>\<open>hex.EncodeToString\<close>: two lower-case digits per byte.\<close>

definition EncodeToString :: "byte list \<Rightarrow> string" where
  "EncodeToString bs = concat (map (\<lambda>b. [hex_char (unat b div 16), hex_char (unat b mod 16)]) bs)"

text \<open>
  \<open>hex.DecodeString\<close>: pairs of digits; the first bad byte is reported, and a dangling last digit
  is an error of its own unless it is a bad byte too.
\<close>

fun DecodeString :: "string \<Rightarrow> goerr + byte list" where
  "DecodeString [] = Inr []"
| "DecodeString [c] = (case fromHexChar c of None \<Rightarrow> Inl (InvalidByteError c) | Some _ \<Rightarrow> Inl ErrLength)"
| "DecodeString (c # d # cs) =
     (case fromHexChar c of
        None \<Rightarrow> Inl (InvalidByteError c)
      | Some a \<Rightarrow>
          (case fromHexChar d of
             None \<Rightarrow> Inl (InvalidByteError d)
           | Some b \<Rightarrow>
               (case DecodeString cs of
                  Inl e \<Rightarrow> Inl e
                | Inr bs \<Rightarrow> Inr (word_of_nat (16 * a + b) # bs))))"

text \<open>\<open>strconv.AppendUint(nil, n, 16)\<close>: lower case, no leading zeros, \<open>"0"\<close> for 0.\<close>

fun hex_digits :: "nat \<Rightarrow> string" where
  "hex_digits n = (if n < 16 then [hex_char n] else hex_digits (n div 16) @ [hex_char (n mod 16)])"

declare hex_digits.simps [simp del]

text \<open>
  \<open>strconv.ParseUint(s, 16, 64)\<close>: the digits are read from the left; a value that would not fit
  64 bits is a range error at the digit where it overflows, before the rest is looked at.
\<close>

fun parse_digits :: "nat \<Rightarrow> string \<Rightarrow> goerr + nat" where
  "parse_digits n [] = Inr n"
| "parse_digits n (c # cs) =
     (case fromHexChar c of
        None \<Rightarrow> Inl ErrSyntax
      | Some d \<Rightarrow> if 2 ^ 60 \<le> n then Inl ErrRange else parse_digits (16 * n + d) cs)"

definition ParseUint :: "string \<Rightarrow> goerr + u64" where
  "ParseUint s =
     (if s = [] then Inl (NumError s ErrSyntax)
      else case parse_digits 0 s of
        Inl e \<Rightarrow> Inl (NumError s e)
      | Inr n \<Rightarrow> Inr (word_of_nat n))"

section \<open>rpc/types/hex.go\<close>

definition encodeToHex :: "byte list \<Rightarrow> string" where
  "encodeToHex b =
     (let str = EncodeToString b;
          str = (if length str mod 2 \<noteq> 0 then ''0'' @ str else str)
      in ''0x'' @ str)"

definition decodeToHex :: "string \<Rightarrow> goerr + byte list" where
  "decodeToHex b =
     (let str = TrimPrefix b ''0x'';
          str = (if length str mod 2 \<noteq> 0 then ''0'' @ str else str)
      in DecodeString str)"

definition hexIsValid :: "string \<Rightarrow> bool" where
  "hexIsValid s =
     list_all (\<lambda>b. let n = of_char b :: nat in
        48 \<le> n \<and> n \<le> 57 \<or> 97 \<le> n \<and> n \<le> 102 \<or> 65 \<le> n \<and> n \<le> 70)
       (TrimPrefix s ''0x'')"

section \<open>rpc/types/types.go: ArgUint64 and ArgBytes\<close>

type_synonym ArgUint64 = u64
type_synonym ArgBytes = "byte list"

definition ArgUint64_MarshalText :: "ArgUint64 \<Rightarrow> goerr + string" where
  "ArgUint64_MarshalText b =
     (let buf = replicate 2 (CHR 0x00);
          buf = go_copy buf ''0x'';
          buf = buf @ hex_digits (unat b)
      in Inr buf)"

definition ArgUint64_UnmarshalText :: "string \<Rightarrow> goerr + ArgUint64" where
  "ArgUint64_UnmarshalText input =
     (let str = TrimPrefix input ''0x''
      in case ParseUint str of Inl err \<Rightarrow> Inl err | Inr num \<Rightarrow> Inr num)"

definition ArgUint64_Hex :: "ArgUint64 \<Rightarrow> string" where
  "ArgUint64_Hex b = (case ArgUint64_MarshalText b of Inl _ \<Rightarrow> [] | Inr bb \<Rightarrow> bb)"

definition ArgUint64Ptr :: "ArgUint64 \<Rightarrow> ArgUint64 option" where
  "ArgUint64Ptr a = Some a"

definition ArgBytes_MarshalText :: "ArgBytes \<Rightarrow> goerr + string" where
  "ArgBytes_MarshalText b = Inr (encodeToHex b)"

definition ArgBytes_UnmarshalText :: "string \<Rightarrow> goerr + ArgBytes" where
  "ArgBytes_UnmarshalText input =
     (case decodeToHex input of
        Inl err \<Rightarrow> Inl (Wrapf ''invalid hex: '' err [])
      | Inr hh \<Rightarrow>
          (let aux = replicate (length hh) (0 :: byte);
               aux = go_copy aux hh
           in Inr aux))"

definition ArgBytes_Hex :: "ArgBytes \<Rightarrow> string" where
  "ArgBytes_Hex b = (case ArgBytes_MarshalText b of Inl _ \<Rightarrow> [] | Inr bb \<Rightarrow> bb)"

definition ArgBytesPtr :: "byte list \<Rightarrow> ArgBytes option" where
  "ArgBytesPtr b = Some b"

text \<open>\<open>ArgHash\<close>, a \<open>common.Hash\<close> that is read from text of any length.\<close>

type_synonym ArgHash = hash

definition ArgHash_UnmarshalText :: "geth \<Rightarrow> string \<Rightarrow> goerr + ArgHash" where
  "ArgHash_UnmarshalText G input =
     (if \<not> hexIsValid input
      then Inl (Errorf ''invalid hash, it needs to be a hexadecimal value'')
      else let str = TrimPrefix input ''0x'' in Inr (HexToHash G str))"

definition ArgHash_Hash :: "ArgHash option \<Rightarrow> hash" where
  "ArgHash_Hash arg =
     (let result = 0 in case arg of None \<Rightarrow> result | Some h \<Rightarrow> h)"

section \<open>Lemmas on digits\<close>

lemma hex_char_cases:
  fixes d :: nat
  assumes "d < 16"
  shows "d \<in> {0, 1, 2, 3, 4, 5, 6, 7, 8, 9, 10, 11, 12, 13, 14, 15}"
  using assms by simp arith

lemma fromHexChar_hex_char [simp]: "d < 16 \<Longrightarrow> fromHexChar (hex_char d) = Some d"
  by (drule hex_char_cases) (auto simp: hex_char_def fromHexChar_def)

lemma hex_char_not_x [simp]: "d < 16 \<Longrightarrow> hex_char d \<noteq> CHR ''x''"
  by (drule hex_char_cases) (auto simp: hex_char_def)

lemma fromHexChar_bound: "fromHexChar c = Some d \<Longrightarrow> d < 16"
  by (auto simp: fromHexChar_def Let_def split: if_splits)

definition all_hex :: "string \<Rightarrow> bool" where
  "all_hex s = list_all (\<lambda>c. fromHexChar c \<noteq> None) s"

lemma all_hex_simps [simp]:
  "all_hex []"
  "all_hex (c # s) \<longleftrightarrow> fromHexChar c \<noteq> None \<and> all_hex s"
  "all_hex (s @ t) \<longleftrightarrow> all_hex s \<and> all_hex t"
  by (simp_all add: all_hex_def)

lemma hexIsValid_all_hex: "hexIsValid s \<longleftrightarrow> all_hex (TrimPrefix s ''0x'')"
  by (auto simp: hexIsValid_def all_hex_def fromHexChar_def Let_def list_all_iff)

lemma TrimPrefix_append [simp]: "TrimPrefix (p @ s) p = s"
  by (simp add: TrimPrefix_def)

lemma TrimPrefix_0x [simp]: "TrimPrefix (CHR ''0'' # CHR ''x'' # s) ''0x'' = s"
  by (simp add: TrimPrefix_def)

lemma length_EncodeToString [simp]: "length (EncodeToString bs) = 2 * length bs"
  by (induction bs) (simp_all add: EncodeToString_def)

lemma nibble_bounds:
  fixes b :: byte
  shows "unat b div 16 < 16" and "unat b mod 16 < 16"
  using unsigned_less [of b, where ?'a = nat] by (simp_all add: less_mult_imp_div_less)

lemma EncodeToString_Cons:
  "EncodeToString (b # bs) = hex_char (unat b div 16) # hex_char (unat b mod 16) # EncodeToString bs"
  by (simp add: EncodeToString_def)

lemma EncodeToString_Nil [simp]: "EncodeToString [] = []"
  by (simp add: EncodeToString_def)

lemma x_notin_EncodeToString: "CHR ''x'' \<notin> set (EncodeToString bs)"
proof (induction bs)
  case Nil
  show ?case by (simp add: EncodeToString_def)
next
  case (Cons b bs)
  from nibble_bounds [of b]
  have "CHR ''x'' \<noteq> hex_char (unat b div 16)" and "CHR ''x'' \<noteq> hex_char (unat b mod 16)"
    by (metis hex_char_not_x)+
  with Cons show ?case
    by (simp add: EncodeToString_Cons)
qed

lemma x_notin_hex_digits: "CHR ''x'' \<notin> set (hex_digits n)"
proof (induction n rule: hex_digits.induct)
  case (1 n)
  show ?case
  proof (cases "n < 16")
    case True
    then show ?thesis
      using hex_char_not_x [of n] by (simp add: hex_digits.simps [of n] eq_commute)
  next
    case False
    then show ?thesis
      using 1 hex_char_not_x [of "n mod 16"] by (simp add: hex_digits.simps [of n] eq_commute)
  qed
qed

lemma hex_digits_nonempty [simp]: "hex_digits n \<noteq> []"
  by (simp add: hex_digits.simps [of n])

section \<open>Decoding undoes encoding\<close>

lemma DecodeString_EncodeToString [simp]: "DecodeString (EncodeToString bs) = Inr bs"
proof (induction bs)
  case Nil
  show ?case by (simp add: EncodeToString_def)
next
  case (Cons b bs)
  have "16 * (unat b div 16) + unat b mod 16 = unat b"
    by simp
  with Cons nibble_bounds [of b] show ?case
    by (simp add: EncodeToString_Cons)
qed

text \<open>The value of a digit string, read from the left.\<close>

definition hex_value :: "nat \<Rightarrow> string \<Rightarrow> nat" where
  "hex_value n s = foldl (\<lambda>a c. 16 * a + the (fromHexChar c)) n s"

lemma hex_value_simps [simp]:
  "hex_value n [] = n"
  "hex_value n (c # cs) = hex_value (16 * n + the (fromHexChar c)) cs"
  "hex_value n (s @ [c]) = 16 * hex_value n s + the (fromHexChar c)"
  by (simp_all add: hex_value_def)

lemma hex_value_ge: "n \<le> hex_value n s"
proof (induction s arbitrary: n)
  case (Cons c s)
  have "n \<le> 16 * n + the (fromHexChar c)" by simp
  also have "\<dots> \<le> hex_value n (c # s)" using Cons by simp
  finally show ?case .
qed simp

lemma hex_value_ge_Cons: "16 * n \<le> hex_value n (c # s)"
  using hex_value_ge [of "16 * n + the (fromHexChar c)" s] by simp

lemma hex_value_hex_digits [simp]: "hex_value 0 (hex_digits n) = n"
proof (induction n rule: hex_digits.induct)
  case (1 n)
  then show ?case
    by (cases "n < 16") (simp_all add: hex_digits.simps [of n])
qed

lemma hex_digits_valid: "all_hex (hex_digits n)"
proof (induction n rule: hex_digits.induct)
  case (1 n)
  then show ?case
    by (cases "n < 16") (simp_all add: hex_digits.simps [of n])
qed

lemma parse_digits_Inr:
  assumes "n < 2 ^ 64"
  shows "parse_digits n s = Inr v \<longleftrightarrow>
    all_hex s \<and> v = hex_value n s \<and> v < 2 ^ 64"
  using assms
proof (induction s arbitrary: n)
  case Nil
  then show ?case by auto
next
  case (Cons c s)
  show ?case
  proof (cases "fromHexChar c")
    case None
    then show ?thesis by simp
  next
    case (Some d)
    then have d: "d < 16" by (rule fromHexChar_bound)
    show ?thesis
    proof (cases "2 ^ 60 \<le> n")
      case True
      have "16 * n \<le> hex_value n (c # s)" by (rule hex_value_ge_Cons)
      with True Some show ?thesis by auto
    next
      case False
      then have "16 * n + d < 2 ^ 64" using d by simp
      then have "parse_digits (16 * n + d) s = Inr v \<longleftrightarrow>
          all_hex s \<and> v = hex_value (16 * n + d) s \<and> v < 2 ^ 64"
        by (rule Cons.IH)
      with Some False show ?thesis by simp
    qed
  qed
qed

section \<open>The contract of a text codec\<close>

locale text_codec =
  fixes marshal :: "'a \<Rightarrow> string"
    and unmarshal :: "string \<Rightarrow> goerr + 'a"
  assumes unmarshal_marshal: "unmarshal (marshal x) = Inr x"
begin

lemma marshal_inject: "marshal x = marshal y \<longleftrightarrow> x = y"
  by (metis unmarshal_marshal sum.inject(2))

lemma unmarshal_canonical: "unmarshal s = Inr x \<Longrightarrow> unmarshal (marshal x) = unmarshal s"
  by (simp add: unmarshal_marshal)

end

text \<open>
  A prefixed hexadecimal codec writes \<open>0x\<close> and then digits. Such texts can be concatenated:
  where one starts is the place of an \<open>x\<close>, and no digit is one.
\<close>

locale hex_codec = text_codec marshal unmarshal
  for marshal :: "'a \<Rightarrow> string" and unmarshal :: "string \<Rightarrow> goerr + 'a" +
  fixes digits :: "'a \<Rightarrow> string"
  assumes marshal_prefix: "marshal x = ''0x'' @ digits x"
    and digits_no_x: "CHR ''x'' \<notin> set (digits x)"
begin

lemma digits_inject: "digits x = digits y \<longleftrightarrow> x = y"
  using marshal_inject [of x y] by (simp add: marshal_prefix)

lemma marshal_length: "length (marshal x) = 2 + length (digits x)"
  by (simp add: marshal_prefix)

lemma marshal_suffix_unique:
  assumes "u @ marshal x = v @ marshal y"
  shows "u = v \<and> x = y"
proof -
  have split: "takeWhile (\<lambda>c. c \<noteq> CHR ''x'') (rev (w @ marshal z)) = rev (digits z)" for w z
    using digits_no_x [of z]
    by (simp add: marshal_prefix, subst takeWhile_append2) auto
  have "rev (digits x) = rev (digits y)"
    using split [of u x] split [of v y] assms by simp
  then have "x = y" by (simp add: digits_inject)
  with assms show ?thesis by simp
qed

end

lemma ArgUint64_Hex_eq: "ArgUint64_Hex b = ''0x'' @ hex_digits (unat b)"
  by (simp add: ArgUint64_Hex_def ArgUint64_MarshalText_def go_copy_def)

lemma ArgBytes_Hex_eq: "ArgBytes_Hex b = ''0x'' @ EncodeToString b"
  by (simp add: ArgBytes_Hex_def ArgBytes_MarshalText_def encodeToHex_def)

lemma ParseUint_Inr:
  "ParseUint s = Inr w \<longleftrightarrow>
     s \<noteq> [] \<and> all_hex s \<and> hex_value 0 s < 2 ^ 64 \<and> w = word_of_nat (hex_value 0 s)"
proof (cases "parse_digits 0 s")
  case (Inl e)
  then show ?thesis
    using parse_digits_Inr [of 0 s "hex_value 0 s"] by (auto simp: ParseUint_def)
next
  case (Inr n)
  then show ?thesis
    using parse_digits_Inr [of 0 s n] by (auto simp: ParseUint_def)
qed

lemma unat_u64_bound: "unat (w :: u64) < 2 ^ 64"
  using unsigned_less [of w, where ?'a = nat] by simp

interpretation u64_text: hex_codec ArgUint64_Hex ArgUint64_UnmarshalText "\<lambda>b. hex_digits (unat b)"
proof unfold_locales
  fix b :: ArgUint64
  have "ParseUint (hex_digits (unat b)) = Inr b"
    using unat_u64_bound [of b] by (simp add: ParseUint_Inr hex_digits_valid)
  then show "ArgUint64_UnmarshalText (ArgUint64_Hex b) = Inr b"
    by (simp add: ArgUint64_UnmarshalText_def ArgUint64_Hex_eq)
qed (simp_all add: ArgUint64_Hex_eq x_notin_hex_digits)

interpretation bytes_text: hex_codec ArgBytes_Hex ArgBytes_UnmarshalText EncodeToString
  by unfold_locales
    (simp_all add: ArgBytes_Hex_eq ArgBytes_UnmarshalText_def decodeToHex_def go_copy_full
      x_notin_EncodeToString)


section \<open>Which texts are accepted\<close>

lemma DecodeString_Inr_even:
  "even (length s) \<Longrightarrow> all_hex s \<Longrightarrow> \<exists>bs. DecodeString s = Inr bs \<and> 2 * length bs = length s"
proof (induction s rule: DecodeString.induct)
  case (3 c d cs)
  then obtain a b where "fromHexChar c = Some a" and "fromHexChar d = Some b"
    by auto
  moreover from 3 obtain bs where "DecodeString cs = Inr bs" and "2 * length bs = length cs"
    by auto
  ultimately show ?case by simp
qed simp_all

lemma DecodeString_InrD:
  "DecodeString s = Inr bs \<Longrightarrow> all_hex s \<and> length s = 2 * length bs"
proof (induction s arbitrary: bs rule: DecodeString.induct)
  case (3 c d cs)
  then show ?case by (fastforce split: option.splits sum.splits)
qed (simp_all split: option.splits)

lemma DecodeString_value: "DecodeString s = Inr bs \<Longrightarrow> hex_value n s = foldl (\<lambda>a b. 256 * a + unat b) n bs"
proof (induction s arbitrary: bs n rule: DecodeString.induct)
  case (3 c d cs)
  then obtain a b cs' where ab: "fromHexChar c = Some a" "fromHexChar d = Some b"
    and cs': "DecodeString cs = Inr cs'" and bs: "bs = word_of_nat (16 * a + b) # cs'"
    by (auto split: option.splits sum.splits)
  from ab have "a < 16" and "b < 16"
    by (auto dest: fromHexChar_bound)
  then have "unat (word_of_nat (16 * a + b) :: byte) = 16 * a + b"
    unfolding unat_of_nat by simp
  then show ?case
    using 3 ab cs' bs by (simp add: algebra_simps)
qed (auto split: option.splits)

lemma hex_value_EncodeToString [simp]: "hex_value 0 (EncodeToString bs) = bytes_nat bs"
  using DecodeString_value [of "EncodeToString bs" bs 0] by (simp add: bytes_nat_def)

section \<open>A concrete instance of the library functions\<close>

text \<open>
  \<open>ref_geth\<close> prints hashes and addresses as lower-case hex and reads them back; its checksum and
  signature functions are simple stand-ins. Witnesses evaluate the model with it.
\<close>

definition ref_geth :: geth where
  "ref_geth =
     \<lparr>HexToHash = (\<lambda>s. word_of_nat (hex_value 0 (TrimPrefix s ''0x''))),
      HexToAddress = (\<lambda>s. word_of_nat (hex_value 0 (TrimPrefix s ''0x''))),
      hash_String = (\<lambda>h. ''0x'' @ EncodeToString (hash_Bytes h)),
      addr_String = (\<lambda>a. ''0x'' @ EncodeToString (nat_bytes 20 (unat a))),
      BytesToHash = (\<lambda>bs. word_of_nat (bytes_nat bs)),
      Keccak256 = (\<lambda>ps. nat_bytes 32 (foldl (\<lambda>a b. 257 * a + unat b + 1) 0 (concat ps))),
      SigToPub = (\<lambda>h sig. if sig = [] then Inl (Errorf ''invalid signature length'') else Inr sig),
      crypto_Sign = (\<lambda>h k. if k = [] then Inl (Errorf ''invalid private key'') else Inr k),
      PublicKey = (\<lambda>k. k),
      PubkeyToAddress = (\<lambda>p. word_of_nat (bytes_nat p)),
      NewTx = (\<lambda>l. Transaction l []),
      tx_Hash = (\<lambda>t. word_of_nat (2 * unat (ltx_Nonce (tx_inner t)) + 2 ^ 70 * unat (ltx_Gas (tx_inner t))
                       + length (tx_sig t)))\<rparr>"

lemma geth_ok_ref_geth [simp]: "geth_ok ref_geth"
proof -
  have "(word_of_nat (bytes_nat (nat_bytes 20 (unat a))) :: address) = a" for a :: address
    using unsigned_less [of a, where ?'a = nat] by (simp add: bytes_nat_of_nat_bytes)
  then show ?thesis
    by (simp add: geth_ok_def ref_geth_def hash_Bytes_inverse)
qed

section \<open>Properties\<close>

text \<open>C21. Reading an \<open>ArgUint64\<close> accepts exactly a non-empty text of hexadecimal digits, with or
  without the prefix \<open>0x\<close>, whose value fits 64 bits, and gives that value.\<close>

theorem ArgUint64_accepts:
  "ArgUint64_UnmarshalText s = Inr w \<longleftrightarrow>
     TrimPrefix s ''0x'' \<noteq> [] \<and> all_hex (TrimPrefix s ''0x'') \<and>
     hex_value 0 (TrimPrefix s ''0x'') < 2 ^ 64 \<and> w = word_of_nat (hex_value 0 (TrimPrefix s ''0x''))"
proof -
  have "ArgUint64_UnmarshalText s = ParseUint (TrimPrefix s ''0x'')"
    by (simp add: ArgUint64_UnmarshalText_def split: sum.split)
  then show ?thesis
    by (simp add: ParseUint_Inr)
qed

text \<open>C20. Writing an \<open>ArgUint64\<close> or an \<open>ArgBytes\<close> and reading the text back gives the value, and
  different values have different texts.\<close>

theorem text_round_trip:
  "ArgUint64_UnmarshalText (ArgUint64_Hex n) = Inr n \<and> ArgBytes_UnmarshalText (ArgBytes_Hex b) = Inr b \<and>
   (ArgUint64_Hex n = ArgUint64_Hex n' \<longleftrightarrow> n = n') \<and> (ArgBytes_Hex b = ArgBytes_Hex b' \<longleftrightarrow> b = b')"
  using u64_text.unmarshal_marshal u64_text.marshal_inject bytes_text.unmarshal_marshal
    bytes_text.marshal_inject by blast

lemma decodeToHex_value:
  assumes "hexIsValid s"
  shows "\<exists>bs. decodeToHex s = Inr bs \<and> bytes_nat bs = hex_value 0 (TrimPrefix s ''0x'') \<and>
    length bs = (length (TrimPrefix s ''0x'') + 1) div 2"
proof -
  let ?t = "TrimPrefix s ''0x''"
  let ?u = "if length ?t mod 2 \<noteq> 0 then ''0'' @ ?t else ?t"
  have hex: "all_hex ?u" and even: "even (length ?u)"
    using assms by (auto simp: hexIsValid_all_hex fromHexChar_def mod2_eq_if)
  from DecodeString_Inr_even [OF even hex] obtain bs where bs: "DecodeString ?u = Inr bs"
    and len: "2 * length bs = length ?u" by blast
  have "fromHexChar CHR ''0'' = Some 0"
    by (simp add: fromHexChar_def)
  then have "hex_value 0 ?u = hex_value 0 ?t"
    by simp
  with DecodeString_value [OF bs, of 0] bs len show ?thesis
    by (auto simp: decodeToHex_def Let_def bytes_nat_def split: if_splits)
qed

text \<open>C22. \<open>decodeToHex\<close> succeeds exactly on the texts that \<open>hexIsValid\<close> accepts; the bytes are the
  big-endian value of the digits, an odd number of digits being padded on the left.\<close>

theorem decodeToHex_accepts:
  "(case decodeToHex s of
      Inl e \<Rightarrow> \<not> hexIsValid s
    | Inr bs \<Rightarrow> hexIsValid s \<and> bytes_nat bs = hex_value 0 (TrimPrefix s ''0x'') \<and>
        length bs = (length (TrimPrefix s ''0x'') + 1) div 2)"
proof (cases "hexIsValid s")
  case True
  from decodeToHex_value [OF this] True show ?thesis by auto
next
  case False
  have "\<not> all_hex (if length (TrimPrefix s ''0x'') mod 2 \<noteq> 0 then ''0'' @ TrimPrefix s ''0x'' else TrimPrefix s ''0x'')"
    using False by (auto simp: hexIsValid_all_hex)
  then have "decodeToHex s \<noteq> Inr bs" for bs
    using DecodeString_InrD unfolding decodeToHex_def Let_def by blast
  with False show ?thesis
    by (cases "decodeToHex s") auto
qed


end
