(* ===== verification/MonitoredTx.thy ===== *)
theory MonitoredTx
  imports HexText
begin

text \<open>
  \<open>txmanager/types/monitoredtx.go\<close>: a monitored transaction, its status, the transaction it stands
  for and the history of the hashes it was sent under, and the conversions to database columns.
  \<open>GasPrice\<close> is a plain integer: both places that build a monitored transaction
  (\<open>Client.Add\<close>, \<open>scanMtx\<close>) set the pointer. Times are nanoseconds since the epoch.
\<close>

section \<open>Status\<close>

type_synonym MonitoredTxStatus = string

definition MonitoredTxStatusCreated :: MonitoredTxStatus where
  "MonitoredTxStatusCreated = ''created''"

definition MonitoredTxStatusSent :: MonitoredTxStatus where
  "MonitoredTxStatusSent = ''sent''"

definition MonitoredTxStatusFailed :: MonitoredTxStatus where
  "MonitoredTxStatusFailed = ''failed''"

definition MonitoredTxStatusConfirmed :: MonitoredTxStatus where
  "MonitoredTxStatusConfirmed = ''confirmed''"

definition MonitoredTxStatusReorged :: MonitoredTxStatus where
  "MonitoredTxStatusReorged = ''reorged''"

definition MonitoredTxStatusDone :: MonitoredTxStatus where
  "MonitoredTxStatusDone = ''done''"

definition MonitoredTxStatus_String :: "MonitoredTxStatus \<Rightarrow> string" where
  "MonitoredTxStatus_String s = s"

lemmas status_defs =
  MonitoredTxStatusCreated_def MonitoredTxStatusSent_def MonitoredTxStatusFailed_def
  MonitoredTxStatusConfirmed_def MonitoredTxStatusReorged_def MonitoredTxStatusDone_def

lemma status_distinct [simp]:
  "distinct [MonitoredTxStatusCreated, MonitoredTxStatusSent, MonitoredTxStatusFailed,
     MonitoredTxStatusConfirmed, MonitoredTxStatusReorged, MonitoredTxStatusDone]"
  by (simp add: status_defs)

section \<open>Monitored transactions\<close>

record MonitoredTx =
  Owner :: string
  ID :: string
  From :: address
  To :: "address option"
  Nonce :: u64
  Value :: "int option"
  Data :: "byte list option"
  Gas :: u64
  GasOffset :: u64
  GasPrice :: int
  Status :: MonitoredTxStatus
  BlockNumber :: "int option"
  History :: "(hash, bool) gomap"
  CreatedAt :: nat
  UpdatedAt :: nat
  NumRetries :: u64

definition MonitoredTx_Tx :: "geth \<Rightarrow> MonitoredTx \<Rightarrow> transaction" where
  "MonitoredTx_Tx G mTx =
     NewTx G
       \<lparr>ltx_To = To mTx,
        ltx_Nonce = Nonce mTx,
        ltx_Value = Value mTx,
        ltx_Data = Data mTx,
        ltx_Gas = Gas mTx + GasOffset mTx,
        ltx_GasPrice = Some (GasPrice mTx)\<rparr>"

text \<open>
  \<open>AddHistory\<close> changes the receiver: \<open>Inr\<close> is the changed one, \<open>Inl\<close> the error with the receiver
  as it was, and \<open>None\<close> the panic of an assignment to a nil map.
\<close>

definition MonitoredTx_AddHistory ::
    "geth \<Rightarrow> transaction \<Rightarrow> MonitoredTx \<Rightarrow> (goerr + MonitoredTx) option" where
  "MonitoredTx_AddHistory G t mTx =
     (if map_found (History mTx) (tx_Hash G t) then Some (Inl ErrAlreadyExists)
      else case map_assign (tx_Hash G t) True (History mTx) of
             None \<Rightarrow> None
           | Some h \<Rightarrow> Some (Inr (mTx\<lparr>History := h, NumRetries := NumRetries mTx + 1\<rparr>)))"

definition MonitoredTx_ToStringPtr :: "geth \<Rightarrow> MonitoredTx \<Rightarrow> string option" where
  "MonitoredTx_ToStringPtr G mTx = (case To mTx of None \<Rightarrow> None | Some a \<Rightarrow> Some (addr_String G a))"

definition MonitoredTx_ValueU64Ptr :: "MonitoredTx \<Rightarrow> u64 option" where
  "MonitoredTx_ValueU64Ptr mTx = (case Value mTx of None \<Rightarrow> None | Some v \<Rightarrow> Some (Uint64 v))"

definition MonitoredTx_DataStringPtr :: "MonitoredTx \<Rightarrow> string option" where
  "MonitoredTx_DataStringPtr mTx =
     (case Data mTx of None \<Rightarrow> None | Some d \<Rightarrow> Some (EncodeToString d))"

text \<open>The two slices visit the history map in the order \<open>ks\<close> selects.\<close>

definition MonitoredTx_HistoryStringSlice :: "geth \<Rightarrow> nat list \<Rightarrow> MonitoredTx \<Rightarrow> string list" where
  "MonitoredTx_HistoryStringSlice G ks mTx =
     map (\<lambda>h. hash_String G h) (range_by ks (map_keys (History mTx)))"

definition MonitoredTx_HistoryHashSlice :: "nat list \<Rightarrow> MonitoredTx \<Rightarrow> hash list" where
  "MonitoredTx_HistoryHashSlice ks mTx = range_by ks (map_keys (History mTx))"

definition MonitoredTx_BlockNumberU64Ptr :: "MonitoredTx \<Rightarrow> u64 option" where
  "MonitoredTx_BlockNumberU64Ptr mTx =
     (case BlockNumber mTx of None \<Rightarrow> None | Some n \<Rightarrow> Some (Uint64 n))"

section \<open>Results\<close>

record TxResult =
  res_Tx :: "transaction option"
  res_Receipt :: "Receipt option"
  res_RevertMessage :: string

record MonitoredTxResult =
  res_ID :: string
  res_Status :: MonitoredTxStatus
  res_Txs :: "(hash, TxResult) gomap"

section \<open>Lemmas\<close>

abbreviation mtx_key :: "MonitoredTx \<Rightarrow> string \<times> string" where
  "mtx_key m \<equiv> (Owner m, ID m)"

definition hist :: "MonitoredTx \<Rightarrow> hash set" where
  "hist m = set (map_keys (History m))"

lemma hist_update_other [simp]:
  "hist (m\<lparr>Status := st\<rparr>) = hist m"
  "hist (m\<lparr>BlockNumber := bn\<rparr>) = hist m"
  "hist (m\<lparr>NumRetries := n\<rparr>) = hist m"
  "hist (m\<lparr>Nonce := k\<rparr>) = hist m"
  "hist (m\<lparr>Gas := g\<rparr>) = hist m"
  "hist (m\<lparr>GasPrice := p\<rparr>) = hist m"
  by (simp_all add: hist_def)

lemma AddHistory_Inr:
  assumes "MonitoredTx_AddHistory G t m = Some (Inr m')"
  obtains h where "m' = m\<lparr>History := h, NumRetries := NumRetries m + 1\<rparr>"
    and "map_keys h = map_keys (History m) @ [tx_Hash G t]"
    and "tx_Hash G t \<notin> hist m"
  using assms
  by (auto simp: MonitoredTx_AddHistory_def hist_def map_found_keys
      split: if_splits option.splits dest: map_assign_fresh)

lemma AddHistory_Inl:
  "MonitoredTx_AddHistory G t m = Some (Inl e) \<longleftrightarrow> e = ErrAlreadyExists \<and> tx_Hash G t \<in> hist m"
  by (auto simp: MonitoredTx_AddHistory_def hist_def map_found_keys split: option.splits)

lemma AddHistory_panic: "MonitoredTx_AddHistory G t m = None \<longleftrightarrow> History m = None"
  by (auto simp: MonitoredTx_AddHistory_def map_found_def map_assign_def split: option.splits)

lemma set_HistoryStringSlice:
  "set (MonitoredTx_HistoryStringSlice G ks m) = hash_String G ` hist m"
  by (simp add: MonitoredTx_HistoryStringSlice_def hist_def)

lemma set_HistoryHashSlice: "set (MonitoredTx_HistoryHashSlice ks m) = hist m"
  by (simp add: MonitoredTx_HistoryHashSlice_def hist_def)

text \<open>\<open>AddHistory\<close> records the hash of a transaction once: a second time it reports
  \<open>ErrAlreadyExists\<close> and leaves the history and the number of retries alone; on a nil history it
  panics.\<close>

theorem AddHistory_once:
  "case MonitoredTx_AddHistory G t m of
     None \<Rightarrow> History m = None
   | Some (Inl e) \<Rightarrow> e = ErrAlreadyExists \<and> tx_Hash G t \<in> hist m
   | Some (Inr m') \<Rightarrow>
       tx_Hash G t \<notin> hist m \<and> hist m' = insert (tx_Hash G t) (hist m) \<and>
       NumRetries m' = NumRetries m + 1 \<and> MonitoredTx_AddHistory G t m' = Some (Inl ErrAlreadyExists)"
proof (cases "MonitoredTx_AddHistory G t m")
  case None
  then have "History m = None" by (simp add: AddHistory_panic)
  with None show ?thesis by simp
next
  case (Some r)
  show ?thesis
  proof (cases r)
    case (Inl e)
    then have "e = ErrAlreadyExists \<and> tx_Hash G t \<in> hist m"
      using AddHistory_Inl [of G t m e] Some by simp
    then show ?thesis
      unfolding Some Inl by simp
  next
    case (Inr m')
    with Some have "MonitoredTx_AddHistory G t m = Some (Inr m')" by simp
    then obtain h where m': "m' = m\<lparr>History := h, NumRetries := NumRetries m + 1\<rparr>"
      and h: "map_keys h = map_keys (History m) @ [tx_Hash G t]" and new: "tx_Hash G t \<notin> hist m"
      by (rule AddHistory_Inr)
    have "hist m' = insert (tx_Hash G t) (hist m)"
      by (simp add: m' hist_def h)
    with new show ?thesis
      unfolding Some Inr by (simp add: m' AddHistory_Inl)
  qed
qed

end
