(* ===== verification/AggTx.thy ===== *)
theory AggTx
  imports HexText
begin

text \<open>
  \<open>tx/tx.go\<close>: the certificate a rollup submits (\<open>Tx\<close>, with its \<open>ZKP\<close>), its hash, and its
  signature. \<open>Keccak256\<close>, the signature scheme and \<open>BytesToHash\<close> are go-ethereum's.
\<close>

section \<open>Data\<close>

record ZKP =
  NewStateRoot :: hash
  NewLocalExitRoot :: hash
  zkp_Proof :: ArgBytes

record Tx =
  RollupID :: u32
  LastVerifiedBatch :: ArgUint64
  NewVerifiedBatch :: ArgUint64
  tx_ZKP :: ZKP

record SignedTx =
  stx_Tx :: Tx
  Signature :: ArgBytes

section \<open>Operations\<close>

text \<open>The byte slices \<open>Hash\<close> passes to \<open>crypto.Keccak256\<close>, which hashes their concatenation.\<close>

definition Tx_preimage :: "Tx \<Rightarrow> byte list list" where
  "Tx_preimage t =
     [string_bytes (ArgUint64_Hex (LastVerifiedBatch t)),
      string_bytes (ArgUint64_Hex (NewVerifiedBatch t)),
      hash_Bytes (NewStateRoot (tx_ZKP t)),
      hash_Bytes (NewLocalExitRoot (tx_ZKP t)),
      string_bytes (ArgBytes_Hex (zkp_Proof (tx_ZKP t)))]"

definition Tx_Hash :: "geth \<Rightarrow> Tx \<Rightarrow> hash" where
  "Tx_Hash G t = BytesToHash G (Keccak256 G (Tx_preimage t))"

definition Tx_Sign :: "geth \<Rightarrow> Tx \<Rightarrow> privkey \<Rightarrow> goerr + SignedTx" where
  "Tx_Sign G t privateKey =
     (let hashToSign = Tx_Hash G t
      in case crypto_Sign G (hash_Bytes hashToSign) privateKey of
           Inl err \<Rightarrow> Inl err
         | Inr sig \<Rightarrow> Inr \<lparr>stx_Tx = t, Signature = sig\<rparr>)"

definition SignedTx_Signer :: "geth \<Rightarrow> SignedTx \<Rightarrow> goerr + address" where
  "SignedTx_Signer G s =
     (case SigToPub G (hash_Bytes (Tx_Hash G (stx_Tx s))) (Signature s) of
        Inl err \<Rightarrow> Inl err
      | Inr pubKey \<Rightarrow> Inr (PubkeyToAddress G pubKey))"

section \<open>The hash input determines the certificate, the rollup apart\<close>

definition bytes_string :: "byte list \<Rightarrow> string" where
  "bytes_string bs = map (\<lambda>b. char_of (unat b)) bs"

lemma string_bytes_bytes_string [simp]: "string_bytes (bytes_string bs) = bs"
proof -
  have "(of_char (char_of (unat b)) :: byte) = b" for b :: byte
  proof -
    have "unat (of_char (char_of (unat b)) :: byte) = unat b"
      using unsigned_less [of b, where ?'a = nat] by (simp add: unat_of_char)
    then show ?thesis by (simp only: word_unat_eq_iff)
  qed
  then show ?thesis
    by (simp add: string_bytes_def bytes_string_def comp_def)
qed

lemma length_bytes_string [simp]: "length (bytes_string bs) = length bs"
  by (simp add: bytes_string_def)

lemma bytes_string_inject [simp]: "bytes_string a = bytes_string b \<longleftrightarrow> a = b"
  by (metis string_bytes_bytes_string)

definition preimage_text :: "Tx \<Rightarrow> string" where
  "preimage_text t =
     ArgUint64_Hex (LastVerifiedBatch t) @ ArgUint64_Hex (NewVerifiedBatch t) @
     bytes_string (hash_Bytes (NewStateRoot (tx_ZKP t))) @
     bytes_string (hash_Bytes (NewLocalExitRoot (tx_ZKP t))) @
     ArgBytes_Hex (zkp_Proof (tx_ZKP t))"

lemma concat_Tx_preimage: "concat (Tx_preimage t) = string_bytes (preimage_text t)"
  by (simp add: Tx_preimage_def preimage_text_def string_bytes_append)

text \<open>
  Read from the right: the proof is what follows the last \<open>x\<close>; the two roots are the 64 bytes
  before its \<open>0\<close>; what is left is two hexadecimal numbers, split at the last \<open>x\<close> again.
\<close>

lemma preimage_text_inject:
  assumes "preimage_text t = preimage_text u"
  shows "LastVerifiedBatch t = LastVerifiedBatch u" and "NewVerifiedBatch t = NewVerifiedBatch u"
    and "tx_ZKP t = tx_ZKP u"
proof -
  let ?num = "\<lambda>t. ArgUint64_Hex (LastVerifiedBatch t) @ ArgUint64_Hex (NewVerifiedBatch t)"
  let ?roots = "\<lambda>t. bytes_string (hash_Bytes (NewStateRoot (tx_ZKP t))) @
    bytes_string (hash_Bytes (NewLocalExitRoot (tx_ZKP t)))"
  have "(?num t @ ?roots t) @ ArgBytes_Hex (zkp_Proof (tx_ZKP t)) =
        (?num u @ ?roots u) @ ArgBytes_Hex (zkp_Proof (tx_ZKP u))"
    using assms by (simp add: preimage_text_def)
  from bytes_text.marshal_suffix_unique [OF this]
  have proof_eq: "zkp_Proof (tx_ZKP t) = zkp_Proof (tx_ZKP u)"
    and rest: "?num t @ ?roots t = ?num u @ ?roots u"
    by simp_all
  from rest have roots: "?roots t = ?roots u" and num: "?num t = ?num u"
    using append_eq_append_conv [where xs = "?num t" and ys = "?num u" and us = "?roots t" and vs = "?roots u"]
    by simp_all
  from roots have "NewStateRoot (tx_ZKP t) = NewStateRoot (tx_ZKP u)"
    and "NewLocalExitRoot (tx_ZKP t) = NewLocalExitRoot (tx_ZKP u)"
    by (simp_all add: append_eq_append_conv)
  with proof_eq show "tx_ZKP t = tx_ZKP u"
    by (intro ZKP.equality) simp_all
  from u64_text.marshal_suffix_unique [OF num]
  show "LastVerifiedBatch t = LastVerifiedBatch u" and "NewVerifiedBatch t = NewVerifiedBatch u"
    by (simp_all add: u64_text.marshal_inject)
qed

lemma Tx_preimage_cong:
  assumes "LastVerifiedBatch t = LastVerifiedBatch u" and "NewVerifiedBatch t = NewVerifiedBatch u"
    and "tx_ZKP t = tx_ZKP u"
  shows "Tx_preimage t = Tx_preimage u"
  using assms by (simp add: Tx_preimage_def)

lemma Tx_Hash_RollupID [simp]: "Tx_Hash G (t\<lparr>RollupID := r\<rparr>) = Tx_Hash G t"
  by (simp add: Tx_Hash_def Tx_preimage_def)

lemma SignedTx_Signer_RollupID:
  "SignedTx_Signer G (s\<lparr>stx_Tx := (stx_Tx s)\<lparr>RollupID := r\<rparr>\<rparr>) = SignedTx_Signer G s"
  by (simp add: SignedTx_Signer_def)

section \<open>Properties\<close>

text \<open>C9. The input of the hash determines every field of the certificate but the rollup: two
  certificates have the same concatenated input exactly when they differ at most in \<open>RollupID\<close>,
  although the input has no separators and fields of variable length.\<close>

theorem Tx_preimage_determines:
  "concat (Tx_preimage t) = concat (Tx_preimage u) \<longleftrightarrow> t = u\<lparr>RollupID := RollupID t\<rparr>"
proof
  assume "concat (Tx_preimage t) = concat (Tx_preimage u)"
  then have "preimage_text t = preimage_text u"
    by (simp add: concat_Tx_preimage)
  from preimage_text_inject [OF this] show "t = u\<lparr>RollupID := RollupID t\<rparr>"
    by (intro Tx.equality) simp_all
next
  assume "t = u\<lparr>RollupID := RollupID t\<rparr>"
  then have "Tx_preimage t = Tx_preimage (u\<lparr>RollupID := RollupID t\<rparr>)"
    by simp
  then show "concat (Tx_preimage t) = concat (Tx_preimage u)"
    by (simp add: Tx_preimage_def)
qed

text \<open>C10. The hash and the recovered signer do not depend on the rollup a certificate names: a
  signature made for one rollup is a valid signature of the same account for any other.\<close>

theorem signature_ignores_rollup:
  "Tx_Hash G (t\<lparr>RollupID := r\<rparr>) = Tx_Hash G t \<and>
   SignedTx_Signer G (s\<lparr>stx_Tx := (stx_Tx s)\<lparr>RollupID := r\<rparr>\<rparr>) = SignedTx_Signer G s"
  by (simp add: SignedTx_Signer_RollupID)

text \<open>C11. Signing and recovering: under a signature scheme in which the public key of the signing key
  is recovered from a signature, the signer of a signed certificate is the account of that key.\<close>

theorem Sign_Signer:
  assumes recovers: "\<And>h k sig. crypto_Sign G h k = Inr sig \<Longrightarrow> SigToPub G h sig = Inr (PublicKey G k)"
    and signed: "Tx_Sign G t key = Inr stx"
  shows "stx_Tx stx = t \<and> SignedTx_Signer G stx = Inr (PubkeyToAddress G (PublicKey G key))"
  using signed by (auto simp: Tx_Sign_def SignedTx_Signer_def recovers Let_def split: sum.splits)

lemma Sign_Signer_witness:
  "\<exists>stx t. Tx_Sign ref_geth t [5] = Inr stx \<and>
     SignedTx_Signer ref_geth stx = Inr (PubkeyToAddress ref_geth (PublicKey ref_geth [5]))"
proof -
  have rec: "SigToPub ref_geth h sig = Inr (PublicKey ref_geth k)"
    if "crypto_Sign ref_geth h k = Inr sig" for h k sig
    using that by (auto simp: ref_geth_def split: if_splits)
  have "Tx_Sign ref_geth t [5] = Inr \<lparr>stx_Tx = t, Signature = [5]\<rparr>" for t
    by (simp add: Tx_Sign_def ref_geth_def)
  with Sign_Signer [of ref_geth, OF rec this] show ?thesis
    by blast
qed

end
