(* ===== verification/Interfaces.thy ===== *)
theory Interfaces
  imports MonitoredTx AggTx
begin

text \<open>
  The Go interfaces of the repository (\<open>txmanager/types/interfaces.go\<close>, \<open>types/interfaces.go\<close>):
  each is a record of its methods over a state type \<open>'s\<close>, embedding is record extension. A method
  is a state transformer; its result is \<open>goerr + 'a\<close> where the code looks at the value only when
  the error is nil, and a tuple where it looks at both. A \<open>pgx.Tx\<close> argument is the number of an
  open transaction, \<open>None\<close> for nil.
\<close>

type_synonym dbtx = "nat option"

section \<open>txmanager/types/interfaces.go\<close>

record 's EthermanInterface =
  em_GetTx :: "hash \<Rightarrow> ('s, transaction option \<times> bool \<times> goerr option) state"
  em_GetTxReceipt :: "hash \<Rightarrow> ('s, Receipt option \<times> goerr option) state"
  em_WaitTxToBeMined :: "transaction \<Rightarrow> nat \<Rightarrow> ('s, goerr + bool) state"
  em_SendTx :: "transaction \<Rightarrow> ('s, goerr option) state"
  em_PendingNonce :: "address \<Rightarrow> ('s, goerr + u64) state"
  em_SuggestedGasPrice :: "('s, goerr + int) state"
  em_EstimateGas ::
    "address \<Rightarrow> address option \<Rightarrow> int option \<Rightarrow> byte list option \<Rightarrow> ('s, goerr + u64) state"
  em_CheckTxWasMined :: "hash \<Rightarrow> ('s, bool \<times> Receipt option \<times> goerr option) state"
  em_SignTx :: "address \<Rightarrow> transaction \<Rightarrow> ('s, goerr + transaction) state"
  em_GetRevertMessage :: "transaction option \<Rightarrow> ('s, string \<times> goerr option) state"

record 's StorageInterface =
  st_Add :: "MonitoredTx \<Rightarrow> dbtx \<Rightarrow> ('s, goerr option) state"
  st_Get :: "string \<Rightarrow> string \<Rightarrow> dbtx \<Rightarrow> ('s, goerr + MonitoredTx) state"
  st_GetByStatus ::
    "string option \<Rightarrow> MonitoredTxStatus list \<Rightarrow> dbtx \<Rightarrow> ('s, goerr + MonitoredTx list) state"
  st_GetBySenderAndStatus ::
    "address \<Rightarrow> MonitoredTxStatus list \<Rightarrow> dbtx \<Rightarrow> ('s, goerr + MonitoredTx list) state"
  st_Update :: "MonitoredTx \<Rightarrow> dbtx \<Rightarrow> ('s, goerr option) state"

record 's StateInterface =
  si_GetLastBlock :: "dbtx \<Rightarrow> ('s, goerr + Block) state"

section \<open>types/interfaces.go\<close>

record 's IDB =
  db_BeginStateTransaction :: "('s, goerr + nat) state"

record 's IEtherman = "'s EthermanInterface" +
  em_GetSequencerAddr :: "u32 \<Rightarrow> ('s, goerr + address) state"
  em_BuildTrustedVerifyBatchesTxData ::
    "u64 \<Rightarrow> u64 \<Rightarrow> ZKP \<Rightarrow> u32 \<Rightarrow> ('s, goerr + byte list) state"
  em_CallContract :: "CallMsg \<Rightarrow> int option \<Rightarrow> ('s, byte list \<times> goerr option) state"
  em_GetLastBlock :: "dbtx \<Rightarrow> ('s, goerr + Block) state"

record 's IEthTxManager =
  tm_Add ::
    "string \<Rightarrow> string \<Rightarrow> address \<Rightarrow> address option \<Rightarrow> int option \<Rightarrow> byte list option \<Rightarrow> u64 \<Rightarrow> dbtx \<Rightarrow>
     ('s, goerr option) state"
  tm_Result :: "string \<Rightarrow> string \<Rightarrow> dbtx \<Rightarrow> ('s, goerr + MonitoredTxResult) state"

text \<open>\<open>types.Batch\<close> of the zkevm-node RPC: the two roots the executor compares.\<close>

record Batch =
  StateRoot :: hash
  LocalExitRoot :: hash

record 's IZkEVMClient =
  zk_BatchByNumber :: "int \<Rightarrow> ('s, goerr + Batch option) state"

record 's IZkEVMClientClientCreator =
  zk_NewClient :: "string \<Rightarrow> 's IZkEVMClient"

section \<open>The Go runtime and the libraries behind it\<close>

text \<open>
  What the code asks of the process it runs in: the clock, the order in which \<open>range\<close> visits a
  map, and the counters of the OpenTelemetry meter (name and rollup, if any). \<open>pgxTx\<close> holds the
  methods of an open \<open>pgx.Tx\<close>.
\<close>

record 's runtime =
  rt_Now :: "('s, nat) state"
  rt_range :: "('s, nat list) state"
  rt_count :: "string \<Rightarrow> u32 option \<Rightarrow> ('s, unit) state"

record 's pgxTx =
  pgx_Commit :: "nat \<Rightarrow> ('s, goerr option) state"
  pgx_Rollback :: "nat \<Rightarrow> ('s, goerr option) state"

end
