(* ===== verification/BigFloat.thy ===== *)
theory BigFloat
  imports Prelude
begin

text \<open>
  The part of \<open>math/big.Float\<close> that \<open>suggestedGasPrice\<close> uses: values of precision 53, rounded to
  nearest even, as \<open>big.NewFloat(0)\<close> makes them. A finite float is a pair \<open>(m, e)\<close> for
  \<open>m * 2 ^ e\<close>; a \<open>float64\<close> of the configuration is such a pair too (NaN and infinities, which
  no configuration of the repository has, are not represented).
\<close>

type_synonym bigfloat = "int \<times> int"

fun bitlen :: "nat \<Rightarrow> nat" where
  "bitlen n = (if n = 0 then 0 else Suc (bitlen (n div 2)))"

declare bitlen.simps [simp del]

text \<open>Drop the last \<open>k\<close> bits of a magnitude, to nearest, ties to even.\<close>

definition round_even :: "nat \<Rightarrow> nat \<Rightarrow> nat" where
  "round_even k a =
     (let q = a div 2 ^ k; r = a mod 2 ^ k
      in if 2 ^ k < 2 * r \<or> (2 ^ k = 2 * r \<and> odd q) then q + 1 else q)"

definition round53 :: "bigfloat \<Rightarrow> bigfloat" where
  "round53 x =
     (case x of (m, e) \<Rightarrow>
        let a = nat \<bar>m\<bar>; k = bitlen a - 53
        in if bitlen a \<le> 53 then (m, e) else (sgn m * int (round_even k a), e + int k))"

definition Float_SetInt :: "int \<Rightarrow> bigfloat" where
  "Float_SetInt x = round53 (x, 0)"

definition Float_Mul :: "bigfloat \<Rightarrow> bigfloat \<Rightarrow> bigfloat" where
  "Float_Mul x y = (case x of (m, e) \<Rightarrow> case y of (n, f) \<Rightarrow> round53 (m * n, e + f))"

text \<open>\<open>Float.Int\<close> truncates towards zero.\<close>

definition Float_Int :: "bigfloat \<Rightarrow> int" where
  "Float_Int x =
     (case x of (m, e) \<Rightarrow>
        if 0 \<le> e then m * 2 ^ nat e else sgn m * (\<bar>m\<bar> div 2 ^ nat (- e)))"

section \<open>Lemmas\<close>

lemma bitlen_bounds: "n < 2 ^ bitlen n \<and> (0 < n \<longrightarrow> 2 ^ (bitlen n - 1) \<le> n)"
proof (induction n rule: bitlen.induct)
  case (1 n)
  show ?case
  proof (cases "n = 0")
    case True
    then show ?thesis by (simp add: bitlen.simps)
  next
    case False
    with 1 have IH: "n div 2 < 2 ^ bitlen (n div 2)"
      "0 < n div 2 \<Longrightarrow> 2 ^ (bitlen (n div 2) - 1) \<le> n div 2"
      by auto
    have len: "bitlen n = Suc (bitlen (n div 2))"
      using False by (simp add: bitlen.simps [of n])
    show ?thesis
    proof (cases "n div 2 = 0")
      case True
      then have "n = 1" using False by auto
      moreover have "bitlen 0 = 0" by (simp add: bitlen.simps)
      ultimately show ?thesis using len by simp
    next
      case div: False
      then have "0 < bitlen (n div 2)" by (simp add: bitlen.simps [of "n div 2"])
      then have "(2::nat) ^ bitlen (n div 2) = 2 * 2 ^ (bitlen (n div 2) - 1)"
        by (cases "bitlen (n div 2)") simp_all
      moreover define p :: nat where "p = 2 ^ (bitlen (n div 2) - 1)"
      ultimately have "n div 2 < 2 * p" and "p \<le> n div 2" and "2 ^ bitlen n = 4 * p"
        and "2 ^ (bitlen n - 1) = 2 * p"
        using IH div by (simp_all add: len)
      then show ?thesis by (simp, linarith)
    qed
  qed
qed

lemma bitlen_le: "n < 2 ^ k \<Longrightarrow> bitlen n \<le> k"
proof (rule ccontr)
  assume n: "n < 2 ^ k" and "\<not> bitlen n \<le> k"
  then have k: "k \<le> bitlen n - 1" and "0 < n"
    by (auto simp: bitlen.simps [of n] split: if_splits)
  with bitlen_bounds [of n] have "2 ^ (bitlen n - 1) \<le> n" by simp
  moreover have "(2::nat) ^ k \<le> 2 ^ (bitlen n - 1)" using k by (rule power_increasing) simp
  ultimately show False using n by linarith
qed

lemma round53_small: "\<bar>m\<bar> < 2 ^ 53 \<Longrightarrow> round53 (m, e) = (m, e)"
proof -
  assume "\<bar>m\<bar> < 2 ^ 53"
  then have "nat \<bar>m\<bar> < 2 ^ 53" by (simp add: nat_less_iff)
  then have "bitlen (nat \<bar>m\<bar>) \<le> 53" by (rule bitlen_le)
  then show ?thesis by (simp add: round53_def)
qed

lemma Float_Int_round53_small: "\<bar>m\<bar> < 2 ^ 53 \<Longrightarrow> Float_Int (round53 (m, 0)) = m"
  by (simp add: round53_small Float_Int_def)

lemma round_even_error: "\<bar>int (round_even k a) * 2 ^ k - int a\<bar> * 2 \<le> 2 ^ k"
proof -
  define q where "q = a div 2 ^ k"
  define r where "r = a mod 2 ^ k"
  have r: "r < 2 ^ k" by (simp add: r_def)
  have "a = q * 2 ^ k + r"
    unfolding q_def r_def by (rule div_mult_mod_eq [symmetric])
  then have a: "int a = int q * 2 ^ k + int r"
    by simp
  have r': "int r < 2 ^ k" using r by (metis of_nat_less_iff of_nat_numeral of_nat_power)
  show ?thesis
  proof (cases "2 ^ k < 2 * r \<or> (2 ^ k = 2 * r \<and> odd q)")
    case True
    then have up: "round_even k a = q + 1" by (simp add: round_even_def q_def r_def Let_def)
    from True have "2 ^ k \<le> 2 * r" by auto
    then have "2 ^ k \<le> 2 * int r" by (metis of_nat_le_iff of_nat_mult of_nat_numeral of_nat_power)
    with r' show ?thesis by (simp add: up a algebra_simps)
  next
    case False
    then have down: "round_even k a = q" by (auto simp: round_even_def q_def r_def Let_def)
    from False have "2 * r \<le> 2 ^ k" by auto
    then have "2 * int r \<le> 2 ^ k" by (metis of_nat_le_iff of_nat_mult of_nat_numeral of_nat_power)
    then show ?thesis by (simp add: down a)
  qed
qed

end
