(* ===== verification/Config.thy ===== *)
theory Config
  imports Geth BigFloat
begin

text \<open>
  \<open>config/config.go\<close> and \<open>config/default.go\<close>: the configuration records and the default values
  that the TOML text \<open>DefaultValues\<close> sets. Durations are nanoseconds. Reading a configuration and
  a key file is in the theory Load.
\<close>

section \<open>Records\<close>

type_synonym FullNodeRPCs = "u32 \<rightharpoonup> string"

text \<open>The authorized signers of proofs, by rollup.\<close>

type_synonym ProofSigners = "u32 \<rightharpoonup> address"

record RPCConfig =
  rpc_Host :: string
  rpc_Port :: int
  rpc_ReadTimeout :: nat
  rpc_WriteTimeout :: nat
  rpc_MaxRequestsPerIPAndSecond :: nat

record LogConfig =
  log_Environment :: string
  log_Level :: string
  log_Outputs :: "string list"

record DBConfig =
  db_Name :: string
  db_User :: string
  db_Password :: string
  db_Host :: string
  db_Port :: string
  db_EnableLog :: bool
  db_MaxConns :: nat

record KeystoreFileConfig =
  ks_Path :: string
  ks_Password :: string

record L1Config =
  ChainID :: int
  NodeURL :: string
  RollupManagerContract :: address

record Telemetry =
  PrometheusAddr :: string

record EthTxManagerConfig =
  FrequencyToMonitorTxs :: nat
  WaitTxToBeMined :: nat
  PrivateKeys :: "KeystoreFileConfig list"
  ForcedGas :: u64
  GasPriceMarginFactor :: bigfloat
  MaxGasPriceLimit :: u64
  cfg_GasOffset :: u64
  KMSKeyName :: string
  KMSConnectionTimeout :: nat
  MaxRetries :: u64

record Config =
  cfg_FullNodeRPCs :: FullNodeRPCs
  cfg_RPC :: RPCConfig
  cfg_ProofSigners :: ProofSigners
  cfg_Log :: LogConfig
  cfg_DB :: DBConfig
  cfg_EthTxManager :: EthTxManagerConfig
  cfg_L1 :: L1Config
  cfg_Telemetry :: Telemetry

section \<open>Default values\<close>

definition second :: nat where "second = 1000000000"

definition DefaultValues :: Config where
  "DefaultValues =
     \<lparr>cfg_FullNodeRPCs = [1 \<mapsto> ''http://zkevm-node:8123''],
      cfg_RPC =
        \<lparr>rpc_Host = ''0.0.0.0'', rpc_Port = 4444, rpc_ReadTimeout = 60 * second,
         rpc_WriteTimeout = 60 * second, rpc_MaxRequestsPerIPAndSecond = 5000\<rparr>,
      cfg_ProofSigners = Map.empty,
      cfg_Log = \<lparr>log_Environment = ''development'', log_Level = ''debug'', log_Outputs = [''stderr'']\<rparr>,
      cfg_DB =
        \<lparr>db_Name = ''agglayer_db'', db_User = ''agglayer_user'', db_Password = ''agglayer_password'',
         db_Host = ''agglayer-db'', db_Port = ''5432'', db_EnableLog = False, db_MaxConns = 200\<rparr>,
      cfg_EthTxManager =
        \<lparr>FrequencyToMonitorTxs = second, WaitTxToBeMined = 120 * second,
         PrivateKeys = [\<lparr>ks_Path = ''/pk/agglayer.keystore'', ks_Password = ''testonly''\<rparr>],
         ForcedGas = 0, GasPriceMarginFactor = (1, 0), MaxGasPriceLimit = 0,
         cfg_GasOffset = 100000, KMSKeyName = [], KMSConnectionTimeout = 0, MaxRetries = 10\<rparr>,
      cfg_L1 =
        \<lparr>ChainID = 1337, NodeURL = ''http://zkevm-mock-l1-network:8545'',
         RollupManagerContract = 0xB7f8BC63BbcaD18155201308C8f3540b07f84F5e\<rparr>,
      cfg_Telemetry = \<lparr>PrometheusAddr = ''0.0.0.0:2223''\<rparr>\<rparr>"

end
