(* ===== verification/Database.thy ===== *)
theory Database
  imports Interfaces
begin

text \<open>
  The database: the table of \<open>db/migrations/0001.sql\<close> and \<open>0002.sql\<close>, the SQL statements of
  \<open>txmanager/pgstorage.go\<close> on it, and the transactions of \<open>db/db.go\<close> and pgx.

  The state \<open>'w sys\<close> holds the committed rows, the writes each open transaction has made so far,
  and the world \<open>'w\<close>: whatever lies outside the process (the L1 network, the clock, the
  connection to the database). The driver record asks the world, before each statement, whether
  the connection fails, and for a query how many rows arrive before it fails; nothing is assumed
  about the answers. A failure is either \<open>NotSent\<close> (no effect) or \<open>AckLost\<close> (the statement took
  effect and its acknowledgement was lost).

  Transactions read the committed rows with their own writes on top (read committed). Inserts of
  the same key by two open transactions are resolved at commit: the second commit fails, where
  PostgreSQL would make the second insert wait for the first commit and fail then.
\<close>

section \<open>The table state.monitored_txs\<close>

record row =
  c_owner :: string
  c_id :: string
  c_from_addr :: string
  c_to_addr :: "string option"
  c_nonce :: u64
  c_value :: "u64 option"
  c_data :: "string option"
  c_gas :: u64
  c_gas_offset :: u64
  c_gas_price :: u64
  c_status :: string
  c_block_num :: "u64 option"
  c_history :: "string list"
  c_created_at :: nat
  c_updated_at :: nat
  c_num_retries :: u64

abbreviation row_key :: "row \<Rightarrow> string \<times> string" where
  "row_key r \<equiv> (c_owner r, c_id r)"

text \<open>The primary key.\<close>

definition keys :: "row list \<Rightarrow> (string \<times> string) list" where
  "keys rows = map (\<lambda>r. row_key r) rows"

definition pkey :: "row list \<Rightarrow> bool" where
  "pkey rows = distinct (keys rows)"

section \<open>Statements\<close>

text \<open>\<open>INSERT INTO ... VALUES\<close> and \<open>UPDATE ... SET ... WHERE owner = $1 AND id = $2\<close>, which sets
  every column but \<open>created_at\<close>.\<close>

datatype sql_write = Insert row | Update row

fun apply_write :: "sql_write \<Rightarrow> row list \<Rightarrow> row list" where
  "apply_write (Insert r) rows = rows @ [r]"
| "apply_write (Update u) rows =
     map (\<lambda>r. if row_key r = row_key u then u\<lparr>c_created_at := c_created_at r\<rparr> else r) rows"

fun violates_pkey :: "row list \<Rightarrow> sql_write \<Rightarrow> bool" where
  "violates_pkey rows (Insert r) = (row_key r \<in> set (keys rows))"
| "violates_pkey rows (Update u) = False"

text \<open>The writes of a transaction in their order; \<open>None\<close> if one violates the primary key.\<close>

fun apply_writes :: "sql_write list \<Rightarrow> row list \<Rightarrow> row list option" where
  "apply_writes [] rows = Some rows"
| "apply_writes (w # ws) rows =
     (if violates_pkey rows w then None else apply_writes ws (apply_write w rows))"

definition pkey_error :: goerr where
  "pkey_error = PgError ''monitored_txs_pkey'' ''duplicate key value violates unique constraint''"

definition tx_closed_error :: goerr where
  "tx_closed_error = Errorf ''tx is closed''"

section \<open>State and driver\<close>

record 'w sys =
  world :: 'w
  committed :: "row list"
  open_txs :: "nat \<Rightarrow> sql_write list option"
  next_tx :: nat

datatype fault = NotSent goerr | AckLost goerr

record 'w pgdriver =
  pg_fault :: "('w, fault option) state"
  pg_cut :: "('w, nat option) state"

definition on_world :: "('w, 'a) state \<Rightarrow> ('w sys, 'a) state" where
  "on_world m = zoom world (\<lambda>w s. s\<lparr>world := w\<rparr>) m"

lemma wp_on_world: "(\<And>x w. Q x (s\<lparr>world := w\<rparr>)) \<Longrightarrow> wp (on_world m) Q s"
  unfolding on_world_def by (rule wp_zoom)

datatype conn = PoolConn | TxConn nat

text \<open>The rows a statement on a connection sees; \<open>None\<close> on a transaction that is closed.\<close>

fun conn_rows :: "conn \<Rightarrow> 'w sys \<Rightarrow> row list option" where
  "conn_rows PoolConn s = Some (committed s)"
| "conn_rows (TxConn t) s =
     (case open_txs s t of None \<Rightarrow> None | Some ws \<Rightarrow> apply_writes ws (committed s))"

fun conn_write :: "conn \<Rightarrow> sql_write \<Rightarrow> 'w sys \<Rightarrow> 'w sys" where
  "conn_write PoolConn w s = s\<lparr>committed := apply_write w (committed s)\<rparr>"
| "conn_write (TxConn t) w s =
     s\<lparr>open_txs := (open_txs s)(t := map_option (\<lambda>ws. ws @ [w]) (open_txs s t))\<rparr>"

definition try_write :: "conn \<Rightarrow> sql_write \<Rightarrow> ('w sys, goerr option) state" where
  "try_write c w = do {
     s \<leftarrow> State_Monad.get;
     case conn_rows c s of
       None \<Rightarrow> ret (Some tx_closed_error)
     | Some rows \<Rightarrow>
         if violates_pkey rows w then ret (Some pkey_error)
         else do { State_Monad.set (conn_write c w s); ret None } }"

text \<open>\<open>conn.Exec\<close> of an insert or an update.\<close>

definition pg_exec :: "'w pgdriver \<Rightarrow> conn \<Rightarrow> sql_write \<Rightarrow> ('w sys, goerr option) state" where
  "pg_exec D c w = do {
     f \<leftarrow> on_world (pg_fault D);
     case f of
       Some (NotSent e) \<Rightarrow> ret (Some e)
     | Some (AckLost e) \<Rightarrow> do { r \<leftarrow> try_write c w; ret (Some e) }
     | None \<Rightarrow> try_write c w }"

text \<open>
  \<open>conn.Query\<close> and the rows that \<open>rows.Next\<close> then delivers, in the order \<open>created_at\<close>: a
  connection that fails while the rows are read ends the iteration early, and \<open>rows.Next\<close> returns
  false as it does after the last row.
\<close>

definition pg_query ::
    "'w pgdriver \<Rightarrow> conn \<Rightarrow> (row \<Rightarrow> bool) \<Rightarrow> ('w sys, goerr + row list) state" where
  "pg_query D c p = do {
     f \<leftarrow> on_world (pg_fault D);
     case f of
       Some (NotSent e) \<Rightarrow> ret (Inl e)
     | Some (AckLost e) \<Rightarrow> ret (Inl e)
     | None \<Rightarrow> do {
         cut \<leftarrow> on_world (pg_cut D);
         s \<leftarrow> State_Monad.get;
         case conn_rows c s of
           None \<Rightarrow> ret (Inl tx_closed_error)
         | Some rows \<Rightarrow>
             (let found = sort_key c_created_at (filter p rows)
              in ret (Inr (case cut of None \<Rightarrow> found | Some n \<Rightarrow> take n found))) } }"

text \<open>\<open>conn.QueryRow\<close> on the primary key, with the error that \<open>row.Scan\<close> reports.\<close>

definition pg_query_row ::
    "'w pgdriver \<Rightarrow> conn \<Rightarrow> string \<Rightarrow> string \<Rightarrow> ('w sys, goerr + row) state" where
  "pg_query_row D c ow i = do {
     f \<leftarrow> on_world (pg_fault D);
     case f of
       Some (NotSent e) \<Rightarrow> ret (Inl e)
     | Some (AckLost e) \<Rightarrow> ret (Inl e)
     | None \<Rightarrow> do {
         s \<leftarrow> State_Monad.get;
         case conn_rows c s of
           None \<Rightarrow> ret (Inl tx_closed_error)
         | Some rows \<Rightarrow>
             (case find (\<lambda>r. c_owner r = ow \<and> c_id r = i) rows of
                None \<Rightarrow> ret (Inl (Foreign PgxNoRows ''no rows in result set''))
              | Some r \<Rightarrow> ret (Inr r)) } }"

section \<open>Transactions: db/db.go and pgx.Tx\<close>

definition DB_BeginStateTransaction :: "'w pgdriver \<Rightarrow> ('w sys, goerr + nat) state" where
  "DB_BeginStateTransaction D = do {
     f \<leftarrow> on_world (pg_fault D);
     case f of
       Some (NotSent e) \<Rightarrow> ret (Inl e)
     | Some (AckLost e) \<Rightarrow> ret (Inl e)
     | None \<Rightarrow> do {
         s \<leftarrow> State_Monad.get;
         State_Monad.set (s\<lparr>open_txs := (open_txs s)(next_tx s := Some []), next_tx := Suc (next_tx s)\<rparr>);
         ret (Inr (next_tx s)) } }"

definition close_tx :: "nat \<Rightarrow> 'w sys \<Rightarrow> 'w sys" where
  "close_tx t s = s\<lparr>open_txs := (open_txs s)(t := None)\<rparr>"

definition try_commit :: "nat \<Rightarrow> ('w sys, goerr option) state" where
  "try_commit t = do {
     s \<leftarrow> State_Monad.get;
     case conn_rows (TxConn t) s of
       None \<Rightarrow> do { State_Monad.set (close_tx t s); ret (Some pkey_error) }
     | Some rows \<Rightarrow> do { State_Monad.set (close_tx t (s\<lparr>committed := rows\<rparr>)); ret None } }"

definition Tx_Commit :: "'w pgdriver \<Rightarrow> nat \<Rightarrow> ('w sys, goerr option) state" where
  "Tx_Commit D t = do {
     s \<leftarrow> State_Monad.get;
     if open_txs s t = None then ret (Some tx_closed_error)
     else do {
       f \<leftarrow> on_world (pg_fault D);
       case f of
         Some (NotSent e) \<Rightarrow> do {
           s \<leftarrow> State_Monad.get; State_Monad.set (close_tx t s); ret (Some e) }
       | Some (AckLost e) \<Rightarrow> do { r \<leftarrow> try_commit t; ret (Some e) }
       | None \<Rightarrow> try_commit t } }"

definition Tx_Rollback :: "'w pgdriver \<Rightarrow> nat \<Rightarrow> ('w sys, goerr option) state" where
  "Tx_Rollback D t = do {
     s \<leftarrow> State_Monad.get;
     if open_txs s t = None then ret (Some tx_closed_error)
     else do {
       f \<leftarrow> on_world (pg_fault D);
       s \<leftarrow> State_Monad.get;
       State_Monad.set (close_tx t s);
       ret (case f of None \<Rightarrow> None | Some (NotSent e) \<Rightarrow> Some e | Some (AckLost e) \<Rightarrow> Some e) } }"

definition pgx_of :: "'w pgdriver \<Rightarrow> 'w sys pgxTx" where
  "pgx_of D = \<lparr>pgx_Commit = Tx_Commit D, pgx_Rollback = Tx_Rollback D\<rparr>"

definition DB_of :: "'w pgdriver \<Rightarrow> 'w sys IDB" where
  "DB_of D = \<lparr>db_BeginStateTransaction = DB_BeginStateTransaction D\<rparr>"

section \<open>Lemmas\<close>

lemma keys_apply_update [simp]: "keys (apply_write (Update u) rows) = keys rows"
  by (auto simp: keys_def)

lemma keys_apply_insert [simp]: "keys (apply_write (Insert r) rows) = keys rows @ [row_key r]"
  by (simp add: keys_def)

lemma pkey_apply_write: "pkey rows \<Longrightarrow> \<not> violates_pkey rows w \<Longrightarrow> pkey (apply_write w rows)"
  by (cases w) (simp_all add: pkey_def del: apply_write.simps)

lemma pkey_apply_writes: "pkey rows \<Longrightarrow> apply_writes ws rows = Some rows' \<Longrightarrow> pkey rows'"
proof (induction ws arbitrary: rows)
  case (Cons w ws)
  then show ?case
    using pkey_apply_write [of rows w] by (auto split: if_splits)
qed simp

lemma pkey_unique:
  "pkey rows \<Longrightarrow> r \<in> set rows \<Longrightarrow> r' \<in> set rows \<Longrightarrow> row_key r = row_key r' \<Longrightarrow> r = r'"
  unfolding pkey_def keys_def by (metis distinct_map inj_onD)

lemma apply_writes_snoc:
  "apply_writes (ws @ [w]) rows =
     (case apply_writes ws rows of
        None \<Rightarrow> None
      | Some rows' \<Rightarrow> if violates_pkey rows' w then None else Some (apply_write w rows'))"
  by (induction ws arbitrary: rows) auto

definition lookup :: "row list \<Rightarrow> string \<times> string \<Rightarrow> row option" where
  "lookup rows k = find (\<lambda>r. row_key r = k) rows"

lemma lookup_Some: "lookup rows k = Some r \<Longrightarrow> r \<in> set rows \<and> row_key r = k"
  by (auto simp: lookup_def find_Some_iff)

lemma lookup_None: "lookup rows k = None \<longleftrightarrow> k \<notin> set (keys rows)"
  by (auto simp: lookup_def find_None_iff keys_def)

lemma lookup_pkey: "pkey rows \<Longrightarrow> r \<in> set rows \<Longrightarrow> lookup rows (row_key r) = Some r"
  by (cases "lookup rows (row_key r)")
    (auto simp: lookup_None keys_def dest!: lookup_Some intro: pkey_unique)

text \<open>What a write changes, row by row: an update changes the row of its key and no other.\<close>

lemma lookup_update:
  "lookup (apply_write (Update u) rows) k =
     (if k = row_key u then map_option (\<lambda>r. u\<lparr>c_created_at := c_created_at r\<rparr>) (lookup rows k)
      else lookup rows k)"
  by (induction rows) (auto simp: lookup_def)

lemma lookup_insert:
  "lookup (apply_write (Insert r) rows) k =
     (if k \<in> set (keys rows) then lookup rows k else if k = row_key r then Some r else None)"
  by (induction rows) (auto simp: lookup_def keys_def)

section \<open>A connection that works\<close>

text \<open>
  \<open>works lim D\<close>: no statement fails, and a query delivers \<open>lim\<close> rows before the connection is lost
  (all of them if \<open>lim\<close> is \<open>None\<close>).
\<close>

definition works :: "nat option \<Rightarrow> 'w pgdriver \<Rightarrow> bool" where
  "works lim D \<longleftrightarrow>
     (\<forall>w. fst (run_state (pg_fault D) w) = None) \<and> (\<forall>w. fst (run_state (pg_cut D) w) = lim)"

lemma wp_fault_works:
  assumes "works lim D" and "\<And>w. Q None (s\<lparr>world := w\<rparr>)"
  shows "wp (on_world (pg_fault D)) Q s"
  using assms unfolding works_def by (simp add: wp_run on_world_def split_beta)

lemma wp_cut_works:
  assumes "works lim D" and "\<And>w. Q lim (s\<lparr>world := w\<rparr>)"
  shows "wp (on_world (pg_cut D)) Q s"
  using assms unfolding works_def by (simp add: wp_run on_world_def split_beta)

end
