(* ===== verification/Storage.thy ===== *)
theory Storage
  imports Database
begin

text \<open>
  \<open>txmanager/pgstorage.go\<close>: the PostgreSQL implementation of \<open>StorageInterface\<close>. \<open>row_of\<close> is the
  column list that \<open>Add\<close> and \<open>Update\<close> build, \<open>scanMtx\<close> reads a row back. The locale
  \<open>row_store\<close> states what the transaction manager relies on for any implementation over a table
  of rows, and \<open>pg\<close> interprets it on \<open>PostgresStorage\<close> for every driver and runtime.
\<close>

section \<open>Rows\<close>

text \<open>\<open>time.Now().UTC().Round(time.Microsecond)\<close> on nanoseconds: half a unit rounds up.\<close>

definition Round_us :: "nat \<Rightarrow> nat" where
  "Round_us t = (t + 500) div 1000 * 1000"

definition row_of :: "geth \<Rightarrow> nat list \<Rightarrow> nat \<Rightarrow> nat \<Rightarrow> MonitoredTx \<Rightarrow> row" where
  "row_of G ks created updated mTx =
     \<lparr>c_owner = Owner mTx,
      c_id = ID mTx,
      c_from_addr = addr_String G (From mTx),
      c_to_addr = MonitoredTx_ToStringPtr G mTx,
      c_nonce = Nonce mTx,
      c_value = MonitoredTx_ValueU64Ptr mTx,
      c_data = MonitoredTx_DataStringPtr mTx,
      c_gas = Gas mTx,
      c_gas_offset = GasOffset mTx,
      c_gas_price = Uint64 (GasPrice mTx),
      c_status = Status mTx,
      c_block_num = MonitoredTx_BlockNumberU64Ptr mTx,
      c_history = MonitoredTx_HistoryStringSlice G ks mTx,
      c_created_at = created,
      c_updated_at = updated,
      c_num_retries = NumRetries mTx\<rparr>"

fun scan_history :: "geth \<Rightarrow> string list \<Rightarrow> (hash \<times> bool) list \<Rightarrow> (hash \<times> bool) list" where
  "scan_history G [] h = h"
| "scan_history G (txHash # hs) h = scan_history G hs (AList.update (HexToHash G txHash) True h)"

definition scan_data :: "string option \<Rightarrow> goerr + byte list option" where
  "scan_data data =
     (case data of
        None \<Rightarrow> Inr None
      | Some tmp \<Rightarrow> (case DecodeString tmp of Inl err \<Rightarrow> Inl err | Inr bytes \<Rightarrow> Inr (Some bytes)))"

definition scan_fields :: "geth \<Rightarrow> row \<Rightarrow> byte list option \<Rightarrow> MonitoredTx" where
  "scan_fields G r data =
     \<lparr>Owner = c_owner r,
      ID = c_id r,
      From = HexToAddress G (c_from_addr r),
      To = (case c_to_addr r of None \<Rightarrow> None | Some a \<Rightarrow> Some (HexToAddress G a)),
      Nonce = c_nonce r,
      Value = (case c_value r of None \<Rightarrow> None | Some v \<Rightarrow> Some (uint v)),
      Data = data,
      Gas = c_gas r,
      GasOffset = c_gas_offset r,
      GasPrice = uint (c_gas_price r),
      Status = c_status r,
      BlockNumber = (case c_block_num r of None \<Rightarrow> None | Some n \<Rightarrow> Some (uint n)),
      History = Some (scan_history G (c_history r) []),
      CreatedAt = c_created_at r,
      UpdatedAt = c_updated_at r,
      NumRetries = c_num_retries r\<rparr>"

definition scanMtx :: "geth \<Rightarrow> row \<Rightarrow> goerr + MonitoredTx" where
  "scanMtx G r =
     (case scan_data (c_data r) of
        Inl err \<Rightarrow> Inl err
      | Inr data \<Rightarrow> Inr (scan_fields G r data))"

text \<open>The \<open>for rows.Next()\<close> loop: the first row that does not scan ends it with its error.\<close>

fun scan_rows :: "geth \<Rightarrow> row list \<Rightarrow> goerr + MonitoredTx list" where
  "scan_rows G [] = Inr []"
| "scan_rows G (r # rs) =
     (case scanMtx G r of
        Inl err \<Rightarrow> Inl err
      | Inr mTx \<Rightarrow> (case scan_rows G rs of Inl err \<Rightarrow> Inl err | Inr mTxs \<Rightarrow> Inr (mTx # mTxs)))"

section \<open>Operations\<close>

definition dbConn :: "dbtx \<Rightarrow> conn" where
  "dbConn dbTx = (case dbTx of Some t \<Rightarrow> TxConn t | None \<Rightarrow> PoolConn)"

definition PostgresStorage_Add ::
    "geth \<Rightarrow> 'w runtime \<Rightarrow> 'w pgdriver \<Rightarrow> MonitoredTx \<Rightarrow> dbtx \<Rightarrow> ('w sys, goerr option) state" where
  "PostgresStorage_Add G RT D mTx dbTx = do {
     let conn = dbConn dbTx;
     ks \<leftarrow> on_world (rt_range RT);
     created \<leftarrow> on_world (rt_Now RT);
     updated \<leftarrow> on_world (rt_Now RT);
     err \<leftarrow> pg_exec D conn (Insert (row_of G ks (Round_us created) (Round_us updated) mTx));
     case err of
       None \<Rightarrow> ret None
     | Some e \<Rightarrow>
         (case e of
            PgError constraint msg \<Rightarrow>
              if constraint = ''monitored_txs_pkey'' then ret (Some ErrAlreadyExists)
              else ret (Some e)
          | _ \<Rightarrow> ret (Some e)) }"

definition PostgresStorage_Get ::
    "geth \<Rightarrow> 'w pgdriver \<Rightarrow> string \<Rightarrow> string \<Rightarrow> dbtx \<Rightarrow> ('w sys, goerr + MonitoredTx) state" where
  "PostgresStorage_Get G D ow i dbTx = do {
     let conn = dbConn dbTx;
     r \<leftarrow> pg_query_row D conn ow i;
     let scanned = (case r of Inl e \<Rightarrow> Inl e | Inr row \<Rightarrow> scanMtx G row);
     case scanned of
       Inl err \<Rightarrow> if errors_Is err PgxNoRows then ret (Inl ErrNotFound) else ret (Inl err)
     | Inr mTx \<Rightarrow> ret (Inr mTx) }"

text \<open>The tail of the two list queries: an error of \<open>conn.Query\<close>, then the scan loop.\<close>

definition collect_rows :: "geth \<Rightarrow> goerr + row list \<Rightarrow> goerr + MonitoredTx list" where
  "collect_rows G r =
     (case r of
        Inl err \<Rightarrow> if errors_Is err PgxNoRows then Inr [] else Inl err
      | Inr rows \<Rightarrow> scan_rows G rows)"

definition PostgresStorage_GetByStatus ::
    "geth \<Rightarrow> 'w pgdriver \<Rightarrow> string option \<Rightarrow> MonitoredTxStatus list \<Rightarrow> dbtx \<Rightarrow>
     ('w sys, goerr + MonitoredTx list) state" where
  "PostgresStorage_GetByStatus G D ow statuses dbTx = do {
     let hasStatusToFilter = length statuses > 0;
     let conn = dbConn dbTx;
     r \<leftarrow> pg_query D conn (\<lambda>r. (ow = Some (c_owner r) \<or> ow = None) \<and>
                              (hasStatusToFilter \<longrightarrow> c_status r \<in> set statuses));
     ret (collect_rows G r) }"

definition PostgresStorage_GetBySenderAndStatus ::
    "geth \<Rightarrow> 'w pgdriver \<Rightarrow> address \<Rightarrow> MonitoredTxStatus list \<Rightarrow> dbtx \<Rightarrow>
     ('w sys, goerr + MonitoredTx list) state" where
  "PostgresStorage_GetBySenderAndStatus G D sender statuses dbTx = do {
     let hasStatusToFilter = length statuses > 0;
     let conn = dbConn dbTx;
     r \<leftarrow> pg_query D conn (\<lambda>r. c_from_addr r = addr_String G sender \<and>
                              (hasStatusToFilter \<longrightarrow> c_status r \<in> set statuses));
     ret (collect_rows G r) }"

definition PostgresStorage_Update ::
    "geth \<Rightarrow> 'w runtime \<Rightarrow> 'w pgdriver \<Rightarrow> MonitoredTx \<Rightarrow> dbtx \<Rightarrow> ('w sys, goerr option) state" where
  "PostgresStorage_Update G RT D mTx dbTx = do {
     let conn = dbConn dbTx;
     ks \<leftarrow> on_world (rt_range RT);
     updated \<leftarrow> on_world (rt_Now RT);
     err \<leftarrow> pg_exec D conn (Update (row_of G ks 0 (Round_us updated) mTx));
     case err of None \<Rightarrow> ret None | Some e \<Rightarrow> ret (Some e) }"

text \<open>\<open>NewPostgresStorage\<close>: the methods above as an implementation of the interface.\<close>

definition NewPostgresStorage ::
    "geth \<Rightarrow> 'w runtime \<Rightarrow> 'w pgdriver \<Rightarrow> 'w sys StorageInterface" where
  "NewPostgresStorage G RT D =
     \<lparr>st_Add = PostgresStorage_Add G RT D,
      st_Get = PostgresStorage_Get G D,
      st_GetByStatus = PostgresStorage_GetByStatus G D,
      st_GetBySenderAndStatus = PostgresStorage_GetBySenderAndStatus G D,
      st_Update = PostgresStorage_Update G RT D\<rparr>"

section \<open>Reading back what was written\<close>

lemma row_key_row_of [simp]: "row_key (row_of G ks c u m) = mtx_key m"
  by (simp add: row_of_def)

lemma c_status_row_of [simp]: "c_status (row_of G ks c u m) = Status m"
  by (simp add: row_of_def)

lemma scan_history_keys:
  "set (map fst (scan_history G hs h)) = set (map fst h) \<union> HexToHash G ` set hs"
proof (induction hs arbitrary: h)
  case (Cons x hs)
  have "set (map fst (AList.update (HexToHash G x) True h)) = insert (HexToHash G x) (set (map fst h))"
    using map_assign_keys [of "HexToHash G x" True "Some h"]
    by (simp add: map_assign_def map_keys_def)
  then show ?case
    using Cons by simp
qed simp

lemma scan_history_wf: "distinct (map fst h) \<Longrightarrow> distinct (map fst (scan_history G hs h))"
  by (induction hs arbitrary: h) (simp_all add: distinct_update)

lemma scan_fields_hist:
  "hist (scan_fields G r data) = HexToHash G ` set (c_history r)"
  "wf_map (History (scan_fields G r data))"
  "History (scan_fields G r data) \<noteq> None"
  using scan_history_keys [of G "c_history r" "[]"] scan_history_wf [of "[]" G "c_history r"]
  by (simp_all add: scan_fields_def hist_def wf_map_def map_keys_def del: set_map)

lemma scanMtx_fields:
  assumes "scanMtx G r = Inr m"
  shows "mtx_key m = row_key r" and "Status m = c_status r" and "Nonce m = c_nonce r"
    and "NumRetries m = c_num_retries r" and "From m = HexToAddress G (c_from_addr r)"
    and "hist m = HexToHash G ` set (c_history r)" and "History m \<noteq> None"
    and "GasPrice m = uint (c_gas_price r)" and "Gas m = c_gas r" and "wf_map (History m)"
proof -
  from assms obtain data where m: "m = scan_fields G r data"
    by (auto simp: scanMtx_def split: sum.splits)
  show "hist m = HexToHash G ` set (c_history r)" and "History m \<noteq> None" and "wf_map (History m)"
    unfolding m by (rule scan_fields_hist)+
  show "mtx_key m = row_key r" and "Status m = c_status r" and "Nonce m = c_nonce r"
    and "NumRetries m = c_num_retries r" and "From m = HexToAddress G (c_from_addr r)"
    and "GasPrice m = uint (c_gas_price r)" and "Gas m = c_gas r"
    by (simp_all add: m scan_fields_def)
qed

lemma scan_rows_Inr: "scan_rows G rs = Inr ms \<Longrightarrow> list_all2 (\<lambda>r m. scanMtx G r = Inr m) rs ms"
  by (induction rs arbitrary: ms) (auto split: sum.splits)

lemma uint_Uint64: "0 \<le> x \<Longrightarrow> x < 2 ^ 64 \<Longrightarrow> uint (Uint64 x) = x"
  by (simp add: Uint64_def uint_word_of_int)

text \<open>A monitored transaction whose big integers fit the columns, with a proper history map.\<close>

definition storable :: "MonitoredTx \<Rightarrow> bool" where
  "storable m \<longleftrightarrow>
     0 \<le> GasPrice m \<and> GasPrice m < 2 ^ 64 \<and>
     (case Value m of None \<Rightarrow> True | Some v \<Rightarrow> 0 \<le> v \<and> v < 2 ^ 64) \<and>
     (case BlockNumber m of None \<Rightarrow> True | Some n \<Rightarrow> 0 \<le> n \<and> n < 2 ^ 64)"

definition same_tx :: "MonitoredTx \<Rightarrow> MonitoredTx \<Rightarrow> bool" where
  "same_tx m m' \<longleftrightarrow>
     m'\<lparr>History := History m, CreatedAt := CreatedAt m, UpdatedAt := UpdatedAt m\<rparr> = m \<and> hist m' = hist m"

lemma scan_data_DataStringPtr [simp]: "scan_data (MonitoredTx_DataStringPtr m) = Inr (Data m)"
  by (simp add: scan_data_def MonitoredTx_DataStringPtr_def split: option.splits)

lemma scanMtx_row_of:
  assumes G: "geth_ok G" and m: "storable m"
  shows "\<exists>m'. scanMtx G (row_of G ks c u m) = Inr m' \<and> same_tx m m' \<and>
    CreatedAt m' = c \<and> UpdatedAt m' = u"
proof -
  let ?m' = "scan_fields G (row_of G ks c u m) (Data m)"
  have "hist ?m' = hist m"
    using G by (simp add: scan_fields_hist row_of_def set_HistoryStringSlice image_image)
  moreover have "?m'\<lparr>History := History m, CreatedAt := CreatedAt m, UpdatedAt := UpdatedAt m\<rparr> = m"
    using G m
    by - (rule MonitoredTx.MonitoredTx.equality,
      simp_all add: scan_fields_def row_of_def storable_def uint_Uint64 MonitoredTx_ToStringPtr_def
        MonitoredTx_ValueU64Ptr_def MonitoredTx_BlockNumberU64Ptr_def split: option.splits)
  ultimately have "same_tx m ?m'"
    by (simp add: same_tx_def)
  moreover have "scanMtx G (row_of G ks c u m) = Inr ?m'"
    by (simp add: scanMtx_def) (simp add: row_of_def)
  ultimately show ?thesis
    by (auto simp: scan_fields_def row_of_def)
qed


section \<open>The contract of the storage\<close>

text \<open>
  What a client may rely on, for a table \<open>tbl\<close> of committed rows: a failed call either left the
  table alone or did what it should have done; a read without a transaction changes nothing and
  returns scanned rows of the table that match, perhaps not all of them; an insert through a
  transaction is not visible in the table. \<open>row_writer\<close> is the part of it that the monitoring of
  one transaction needs: it says nothing of what is read, which others may have written since.
\<close>

locale row_writer =
  fixes G :: geth
    and S :: "'s StorageInterface"
    and tbl :: "'s \<Rightarrow> row list"
  assumes update_rule:
    "(\<And>e s'. tbl s' = tbl s \<Longrightarrow> Q (Some e) s') \<Longrightarrow>
     (\<And>r ks u s'. tbl s' = apply_write (Update (row_of G ks 0 u m)) (tbl s) \<Longrightarrow> Q r s') \<Longrightarrow>
     wp (st_Update S m None) Q s"
    and sender_reads: "preserves tbl (st_GetBySenderAndStatus S a sts None)"

locale row_store = row_writer G S tbl
  for G :: geth and S :: "'s StorageInterface" and tbl :: "'s \<Rightarrow> row list" +
  assumes
    add_rule:
    "(\<And>e s'. tbl s' = tbl s \<Longrightarrow> Q (Some e) s') \<Longrightarrow>
     (\<And>r ks c u s'. mtx_key m \<notin> set (keys (tbl s)) \<Longrightarrow>
        tbl s' = apply_write (Insert (row_of G ks c u m)) (tbl s) \<Longrightarrow> Q r s') \<Longrightarrow>
     wp (st_Add S m None) Q s"
    and add_tx_rule: "(\<And>r s'. tbl s' = tbl s \<Longrightarrow> Q r s') \<Longrightarrow> wp (st_Add S m (Some t)) Q s"
    and get_rule:
    "(\<And>e s'. tbl s' = tbl s \<Longrightarrow> R (Inl e) s') \<Longrightarrow>
     (\<And>r m s'. tbl s' = tbl s \<Longrightarrow> r \<in> set (tbl s) \<Longrightarrow> row_key r = (ow, i) \<Longrightarrow> scanMtx G r = Inr m \<Longrightarrow>
        R (Inr m) s') \<Longrightarrow>
     wp (st_Get S ow i None) R s"
    and by_status_rule:
    "(\<And>e s'. tbl s' = tbl s \<Longrightarrow> T (Inl e) s') \<Longrightarrow>
     (\<And>rs ms s'. tbl s' = tbl s \<Longrightarrow> mset rs \<subseteq># mset (tbl s) \<Longrightarrow>
        (\<forall>r \<in> set rs. sts \<noteq> [] \<longrightarrow> c_status r \<in> set sts) \<Longrightarrow>
        list_all2 (\<lambda>r m. scanMtx G r = Inr m) rs ms \<Longrightarrow> T (Inr ms) s') \<Longrightarrow>
     wp (st_GetByStatus S ow' sts None) T s"
    and by_sender_rule:
    "(\<And>e s'. tbl s' = tbl s \<Longrightarrow> T (Inl e) s') \<Longrightarrow>
     (\<And>rs ms s'. tbl s' = tbl s \<Longrightarrow> mset rs \<subseteq># mset (tbl s) \<Longrightarrow>
        (\<forall>r \<in> set rs. c_from_addr r = addr_String G a \<and> (sts \<noteq> [] \<longrightarrow> c_status r \<in> set sts)) \<Longrightarrow>
        list_all2 (\<lambda>r m. scanMtx G r = Inr m) rs ms \<Longrightarrow> T (Inr ms) s') \<Longrightarrow>
     wp (st_GetBySenderAndStatus S a sts None) T s"
begin

lemma add_nil_or_tx:
  assumes "\<And>r s'. tbl s' = tbl s \<or>
    (dbTx = None \<and> mtx_key m \<notin> set (keys (tbl s)) \<and>
     (\<exists>ks c u. tbl s' = apply_write (Insert (row_of G ks c u m)) (tbl s))) \<Longrightarrow> Q r s'"
  shows "wp (st_Add S m dbTx) Q s"
  by (cases dbTx) (auto intro!: add_rule add_tx_rule assms simp del: apply_write.simps)

text \<open>The rows other than the one written keep their place and their content.\<close>

lemma update_frame:
  assumes "tbl s' = apply_write (Update (row_of G ks 0 u m)) (tbl s)" and "k \<noteq> mtx_key m"
  shows "lookup (tbl s') k = lookup (tbl s) k"
  using assms by (simp add: lookup_update del: apply_write.simps)

end

section \<open>PostgreSQL provides the contract\<close>

lemma wp_try_write:
  "wp (try_write c w) Q s =
     (case conn_rows c s of
        None \<Rightarrow> Q (Some tx_closed_error) s
      | Some rows \<Rightarrow> if violates_pkey rows w then Q (Some pkey_error) s else Q None (conn_write c w s))"
  by (simp add: try_write_def wp_simps split: option.splits)

lemma wp_pg_exec:
  assumes "\<And>e w'. Q (Some e) (s\<lparr>world := w'\<rparr>)"
    and "\<And>r w' rows. conn_rows c s = Some rows \<Longrightarrow> \<not> violates_pkey rows w \<Longrightarrow>
      Q r (conn_write c w (s\<lparr>world := w'\<rparr>))"
  shows "wp (pg_exec D c w) Q s"
proof -
  have rows: "conn_rows c (s\<lparr>world := w'\<rparr>) = conn_rows c s" for w'
    by (cases c) (simp_all split: option.splits)
  show ?thesis
    unfolding pg_exec_def wp_simps
    by (rule wp_on_world)
      (auto simp: wp_simps wp_try_write rows assms split: option.splits fault.splits)
qed

lemma committed_conn_write:
  "committed (conn_write PoolConn w s) = apply_write w (committed s)"
  "committed (conn_write (TxConn t) w s) = committed s"
  by simp_all

lemma wp_pg_query_pool:
  assumes "\<And>e w. Q (Inl e) (s\<lparr>world := w\<rparr>)"
    and "\<And>rs w. mset rs \<subseteq># mset (committed s) \<Longrightarrow> \<forall>r \<in> set rs. p r \<Longrightarrow> Q (Inr rs) (s\<lparr>world := w\<rparr>)"
  shows "wp (pg_query D PoolConn p) Q s"
proof -
  let ?found = "sort_key c_created_at (filter p (committed s))"
  have sub: "mset (take n ?found) \<subseteq># mset (committed s)" for n
  proof -
    have "mset (take n ?found) \<subseteq># mset ?found"
      by (metis append_take_drop_id mset_append mset_subset_eq_add_left)
    also have "\<dots> \<subseteq># mset (committed s)"
      by simp
    finally show ?thesis .
  qed
  have mem: "\<forall>r \<in> set (take n ?found). p r" for n
    by (auto dest: in_set_takeD)
  have full: "Q (Inr ?found) (s\<lparr>world := w\<rparr>)" for w
    using assms(2) [of "take (length ?found) ?found" w] sub mem by (metis take_all_iff order_refl)
  show ?thesis
    unfolding pg_query_def wp_simps
    by (rule wp_on_world)
      (auto simp: wp_simps assms(1) full Let_def intro!: wp_on_world assms(2) sub mem
        split: option.splits fault.splits dest: in_set_takeD)
qed

lemma wp_pg_query_row_pool:
  assumes "\<And>e w. Q (Inl e) (s\<lparr>world := w\<rparr>)"
    and "\<And>r w. r \<in> set (committed s) \<Longrightarrow> row_key r = (ow, i) \<Longrightarrow> Q (Inr r) (s\<lparr>world := w\<rparr>)"
  shows "wp (pg_query_row D PoolConn ow i) Q s"
  unfolding pg_query_row_def wp_simps
  by (rule wp_on_world)
    (auto simp: wp_simps assms find_Some_iff split: option.splits fault.splits)

lemma dbConn_simps [simp]: "dbConn None = PoolConn" "dbConn (Some t) = TxConn t"
  by (simp_all add: dbConn_def)

lemma collect_rows_Inr:
  "collect_rows G r = Inr ms \<Longrightarrow> (ms = [] \<and> (\<exists>e. r = Inl e)) \<or>
     (\<exists>rs. r = Inr rs \<and> list_all2 (\<lambda>r m. scanMtx G r = Inr m) rs ms)"
  by (auto simp: collect_rows_def dest: scan_rows_Inr split: sum.splits if_splits)


lemma collect_rows_cases:
  assumes "\<And>e. Q (Inl e)"
    and "\<And>rs ms. rs = [] \<or> r = Inr rs \<Longrightarrow> list_all2 (\<lambda>r m. scanMtx G r = Inr m) rs ms \<Longrightarrow> Q (Inr ms)"
  shows "Q (collect_rows G r)"
proof (cases "collect_rows G r")
  case (Inl e)
  with assms(1) show ?thesis by simp
next
  case (Inr ms)
  from collect_rows_Inr [OF this] Inr assms(2) [of "[]" ms] assms(2) [of _ ms] show ?thesis
    by auto
qed

lemma wp_list_query:
  assumes "\<And>e w. T (Inl e) (s\<lparr>world := w\<rparr>)"
    and "\<And>rs ms w. mset rs \<subseteq># mset (committed s) \<Longrightarrow> \<forall>r \<in> set rs. p r \<Longrightarrow>
      list_all2 (\<lambda>r m. scanMtx G r = Inr m) rs ms \<Longrightarrow> T (Inr ms) (s\<lparr>world := w\<rparr>)"
  shows "wp (pg_query D PoolConn p) (\<lambda>r. T (collect_rows G r)) s"
proof (rule wp_pg_query_pool)
  show "T (collect_rows G (Inl e)) (s\<lparr>world := w\<rparr>)" for e w
    by (rule collect_rows_cases [where Q = "\<lambda>x. T x (s\<lparr>world := w\<rparr>)"])
      (auto intro: assms(1) intro!: assms(2) [of "[]"])
next
  fix rs w
  assume rs: "mset rs \<subseteq># mset (committed s)" "\<forall>r \<in> set rs. p r"
  show "T (collect_rows G (Inr rs)) (s\<lparr>world := w\<rparr>)"
  proof (rule collect_rows_cases [where Q = "\<lambda>x. T x (s\<lparr>world := w\<rparr>)"])
    fix rs' ms
    assume "rs' = [] \<or> Inr rs = (Inr rs' :: goerr + row list)"
      and "list_all2 (\<lambda>r m. scanMtx G r = Inr m) rs' ms"
    with rs show "T (Inr ms) (s\<lparr>world := w\<rparr>)"
      by (intro assms(2) [of rs']) auto
  qed (rule assms)
qed

lemma storage_fields [simp]:
  "st_Add (NewPostgresStorage G RT D) = PostgresStorage_Add G RT D"
  "st_Get (NewPostgresStorage G RT D) = PostgresStorage_Get G D"
  "st_GetByStatus (NewPostgresStorage G RT D) = PostgresStorage_GetByStatus G D"
  "st_GetBySenderAndStatus (NewPostgresStorage G RT D) = PostgresStorage_GetBySenderAndStatus G D"
  "st_Update (NewPostgresStorage G RT D) = PostgresStorage_Update G RT D"
  by (simp_all add: NewPostgresStorage_def)

lemma wp_PostgresStorage_Update:
  assumes "\<And>e w. Q (Some e) (s\<lparr>world := w\<rparr>)"
    and "\<And>r ks u w. Q r (s\<lparr>world := w, committed := apply_write (Update (row_of G ks 0 u m)) (committed s)\<rparr>)"
  shows "wp (PostgresStorage_Update G RT D m None) Q s"
  unfolding PostgresStorage_Update_def Let_def wp_simps dbConn_simps
  by (rule wp_on_world, rule wp_on_world, rule wp_pg_exec)
    (use assms in \<open>auto simp: wp_simps simp del: apply_write.simps split: option.splits\<close>)

lemma wp_PostgresStorage_Add:
  assumes "\<And>e w. Q (Some e) (s\<lparr>world := w\<rparr>)"
    and "\<And>r ks c u w rows. conn_rows (dbConn dbTx) s = Some rows \<Longrightarrow> mtx_key m \<notin> set (keys rows) \<Longrightarrow>
      Q r (conn_write (dbConn dbTx) (Insert (row_of G ks c u m)) (s\<lparr>world := w\<rparr>))"
  shows "wp (PostgresStorage_Add G RT D m dbTx) Q s"
proof -
  have rows: "conn_rows c (s\<lparr>world := w'\<rparr>) = conn_rows c s" for c w'
    by (cases c) (simp_all split: option.splits)
  show ?thesis
    unfolding PostgresStorage_Add_def Let_def wp_simps
    by (rule wp_on_world, rule wp_on_world, rule wp_on_world, rule wp_pg_exec)
      (use assms in \<open>auto simp: wp_simps rows simp del: conn_write.simps conn_rows.simps
        split: option.splits goerr.splits\<close>)
qed

interpretation pg: row_store G "NewPostgresStorage G RT D" committed
  for G :: geth and RT :: "'w runtime" and D :: "'w pgdriver"
proof (unfold_locales, goal_cases)
  case (1 s Q m)
  then show ?case
    by (auto intro!: wp_PostgresStorage_Update simp del: apply_write.simps)
next
  case (2 a sts)
  show ?case
    unfolding storage_fields PostgresStorage_GetBySenderAndStatus_def Let_def wp_simps dbConn_simps
    by (rule preservesI, unfold wp_simps) (rule wp_pg_query_pool, simp_all)
next
  case (3 s Q m)
  then show ?case
    by (auto intro!: wp_PostgresStorage_Add simp del: apply_write.simps)
next
  case (4 s Q m t)
  then show ?case
    by (auto intro!: wp_PostgresStorage_Add)
next
  case (5 s R ow i)
  then show ?case
    unfolding storage_fields PostgresStorage_Get_def Let_def wp_simps dbConn_simps
    by (intro wp_pg_query_row_pool) (auto simp: wp_simps split: sum.splits)
next
  case (6 s T sts ow)
  show ?case
    unfolding storage_fields PostgresStorage_GetByStatus_def Let_def wp_simps dbConn_simps
    by (rule wp_list_query) (auto intro: 6(1) intro!: 6(2))
next
  case (7 s T a sts)
  show ?case
    unfolding storage_fields PostgresStorage_GetBySenderAndStatus_def Let_def wp_simps dbConn_simps
    by (rule wp_list_query) (auto intro: 7(1) intro!: 7(2))
qed

section \<open>Properties\<close>

lemma conn_rows_world [simp]: "conn_rows c (s\<lparr>world := w\<rparr>) = conn_rows c s"
  by (cases c) (simp_all split: option.splits)

lemma wp_pg_exec_works:
  assumes "works lim D"
    and "\<And>w'. violates_pkey (committed s) w \<Longrightarrow> Q (Some pkey_error) (s\<lparr>world := w'\<rparr>)"
    and "\<And>w'. \<not> violates_pkey (committed s) w \<Longrightarrow> Q None (s\<lparr>world := w', committed := apply_write w (committed s)\<rparr>)"
  shows "wp (pg_exec D PoolConn w) Q s"
  unfolding pg_exec_def wp_simps
  by (rule wp_fault_works [OF assms(1)]) (use assms(2,3) in \<open>simp add: wp_try_write\<close>)

lemma wp_Add_works:
  assumes "works lim D"
    and "\<And>w. mtx_key m \<in> set (keys (committed s)) \<Longrightarrow> Q (Some ErrAlreadyExists) (s\<lparr>world := w\<rparr>)"
    and "\<And>ks c u w. mtx_key m \<notin> set (keys (committed s)) \<Longrightarrow>
      Q None (s\<lparr>world := w, committed := apply_write (Insert (row_of G ks c u m)) (committed s)\<rparr>)"
  shows "wp (PostgresStorage_Add G RT D m None) Q s"
  unfolding PostgresStorage_Add_def Let_def wp_simps dbConn_simps
  by (intro wp_on_world wp_pg_exec_works [OF assms(1)])
    (use assms(2,3) in \<open>auto simp: wp_simps pkey_error_def simp del: apply_write.simps\<close>)

lemma find_key: "find (\<lambda>r. c_owner r = ow \<and> c_id r = i) rows = lookup rows (ow, i)"
  by (simp add: lookup_def)

lemma wp_Get_works:
  assumes "works lim D"
    and "\<And>w. Q (case lookup (committed s) (ow, i) of None \<Rightarrow> Inl ErrNotFound | Some r \<Rightarrow> scanMtx G r) (s\<lparr>world := w\<rparr>)"
  shows "wp (PostgresStorage_Get G D ow i None) Q s"
proof -
  have other: "\<not> errors_Is e PgxNoRows" if "scanMtx G r = Inl e" for e r
  proof -
    have "DecodeString t = Inl e \<Longrightarrow> \<not> errors_Is e PgxNoRows" for t
      by (induction t rule: DecodeString.induct) (auto split: option.splits sum.splits)
    with that show ?thesis
      by (auto simp: scanMtx_def scan_data_def split: sum.splits option.splits)
  qed
  show ?thesis
    unfolding PostgresStorage_Get_def pg_query_row_def Let_def wp_simps dbConn_simps find_key
    by (rule wp_fault_works [OF assms(1)])
      (use assms(2) in \<open>auto simp: wp_simps find_key split: option.splits sum.splits dest: other\<close>)
qed


definition good_driver :: "unit pgdriver" where
  "good_driver = \<lparr>pg_fault = ret None, pg_cut = ret None\<rparr>"

definition still_runtime :: "unit runtime" where
  "still_runtime = \<lparr>rt_Now = ret 0, rt_range = ret [], rt_count = (\<lambda>n r. ret ())\<rparr>"

definition sample_mtx :: MonitoredTx where
  "sample_mtx =
     \<lparr>Owner = ''interop'', ID = ''0x01'', From = 7, To = Some 8, Nonce = 3, Value = Some 0,
      Data = Some [1, 2], Gas = 21000, GasOffset = 100, GasPrice = 10,
      Status = MonitoredTxStatusCreated, BlockNumber = None, History = Some [(5, True)],
      CreatedAt = 0, UpdatedAt = 0, NumRetries = 1\<rparr>"

definition empty_sys :: "unit sys" where
  "empty_sys = \<lparr>world = (), committed = [], open_txs = (\<lambda>t. None), next_tx = 0\<rparr>"

lemma works_good_driver [simp]: "works None good_driver"
  by (simp add: works_def good_driver_def)

lemma storable_sample [simp]: "storable sample_mtx"
  by (simp add: storable_def sample_mtx_def)


text \<open>C13. The columns keep the low 64 bits: the gas price and the value of a transaction are read back
  modulo \<open>2 ^ 64\<close>, so a price of \<open>2 ^ 64\<close> or more is stored as another price.\<close>

theorem stored_mod_2_64:
  assumes "0 \<le> GasPrice m" and "\<And>v. Value m = Some v \<Longrightarrow> 0 \<le> v"
    and "scanMtx G (row_of G ks c u m) = Inr m'"
  shows "GasPrice m' = GasPrice m mod 2 ^ 64 \<and> Value m' = map_option (\<lambda>v. v mod 2 ^ 64) (Value m)"
  using assms
  by (auto simp: scanMtx_def scan_fields_def row_of_def MonitoredTx_ValueU64Ptr_def Uint64_def
      uint_word_of_int take_bit_eq_mod split: sum.splits option.splits)

lemma stored_mod_2_64_witness:
  "\<exists>m'. scanMtx ref_geth (row_of ref_geth [] 0 0 (sample_mtx\<lparr>GasPrice := 2 ^ 64 + 1\<rparr>)) = Inr m' \<and> GasPrice m' = 1"
proof -
  let ?m = "sample_mtx\<lparr>GasPrice := 2 ^ 64 + 1\<rparr>"
  obtain m' where m': "scanMtx ref_geth (row_of ref_geth [] 0 0 ?m) = Inr m'"
    by (simp add: scanMtx_def row_of_def)
  have "GasPrice m' = GasPrice ?m mod 2 ^ 64"
    using stored_mod_2_64 [OF _ _ m'] by (simp add: sample_mtx_def)
  then show ?thesis
    using m' by auto
qed

text \<open>C14. The list queries return, in the order of creation, the scanned rows that match; when the
  connection is lost after \<open>n\<close> rows they return the first \<open>n\<close> of them and report no error.\<close>

theorem GetByStatus_rows:
  assumes "works lim D"
  shows "wp (PostgresStorage_GetByStatus G D None sts None)
    (\<lambda>r s'. committed s' = committed s \<and>
       r = scan_rows G ((case lim of None \<Rightarrow> id | Some n \<Rightarrow> take n)
             (sort_key c_created_at (filter (\<lambda>r. sts \<noteq> [] \<longrightarrow> c_status r \<in> set sts) (committed s))))) s"
  unfolding PostgresStorage_GetByStatus_def pg_query_def Let_def wp_simps dbConn_simps
  by (intro wp_fault_works [OF assms])
    (auto simp: wp_simps collect_rows_def intro!: wp_cut_works [OF assms] split: option.split)

lemma GetByStatus_rows_witness:
  "wp (PostgresStorage_GetByStatus ref_geth (good_driver\<lparr>pg_cut := ret (Some 0)\<rparr>) None [''created''] None)
     (\<lambda>r s'. r = Inr []) (empty_sys\<lparr>committed := [row_of ref_geth [] 0 0 sample_mtx]\<rparr>)"
  by (rule wp_mono [OF GetByStatus_rows [where lim = "Some 0"]])
    (auto simp: works_def good_driver_def)

end
