(* ===== verification/TxManager.thy ===== *)
theory TxManager
  imports Interfaces Config Storage
begin

text \<open>
  \<open>txmanager/txmanager.go\<close> up to the monitoring loop: the client record, \<open>Add\<close>, \<open>Result\<close>, the
  nonce and gas decisions, and the two reviews that the monitor uses. Log calls are left out.
\<close>

section \<open>The client\<close>

record 's Client =
  cl_cfg :: EthTxManagerConfig
  cl_etherman :: "'s IEtherman"
  cl_storage :: "'s StorageInterface"
  cl_state :: "'s StateInterface"

definition Client_New ::
    "EthTxManagerConfig \<Rightarrow> 's IEtherman \<Rightarrow> 's StorageInterface \<Rightarrow> 's StateInterface \<Rightarrow> 's Client" where
  "Client_New cfg ethMan storage st =
     \<lparr>cl_cfg = cfg, cl_etherman = ethMan, cl_storage = storage, cl_state = st\<rparr>"

section \<open>Nonce and gas\<close>

fun highest_nonce :: "u64 \<Rightarrow> MonitoredTx list \<Rightarrow> u64" where
  "highest_nonce nonce [] = nonce"
| "highest_nonce nonce (createdTx # txs) =
     highest_nonce (if Nonce createdTx > nonce then Nonce createdTx else nonce) txs"

definition getTxNonce :: "'s Client \<Rightarrow> address \<Rightarrow> ('s, goerr + u64) state" where
  "getTxNonce c from = do {
     r \<leftarrow> st_GetBySenderAndStatus (cl_storage c) from [MonitoredTxStatusCreated] None;
     case r of
       Inl err \<Rightarrow> ret (Inl (Wrapf ''failed to get created monitored txs: '' err []))
     | Inr createdTxs \<Rightarrow>
         if length createdTxs > 0 then ret (Inr (highest_nonce 0 createdTxs + 1))
         else do {
           n \<leftarrow> em_PendingNonce (cl_etherman c) from;
           case n of
             Inl err \<Rightarrow> ret (Inl (Wrapf ''failed to get pending nonce: '' err []))
           | Inr nonce \<Rightarrow> ret (Inr nonce) } }"

definition adjustGasPrice :: "EthTxManagerConfig \<Rightarrow> int \<Rightarrow> int" where
  "adjustGasPrice cfg gasPrice =
     (let marginFactor = GasPriceMarginFactor cfg;
          fGasPrice = Float_SetInt gasPrice;
          adjustedGasPrice = Float_Int (Float_Mul fGasPrice marginFactor)
      in if MaxGasPriceLimit cfg > 0
         then (let maxGasPrice = uint (MaxGasPriceLimit cfg)
               in if adjustedGasPrice > maxGasPrice then maxGasPrice else adjustedGasPrice)
         else adjustedGasPrice)"

definition suggestedGasPrice :: "'s Client \<Rightarrow> ('s, goerr + int) state" where
  "suggestedGasPrice c = do {
     r \<leftarrow> em_SuggestedGasPrice (cl_etherman c);
     case r of
       Inl err \<Rightarrow> ret (Inl err)
     | Inr gasPrice \<Rightarrow> ret (Inr (adjustGasPrice (cl_cfg c) gasPrice)) }"

text \<open>
  \<open>reviewMonitoredTx\<close> changes its argument as it goes: the gas may have been raised when the gas
  price then fails, so both the transaction and the error are results.
\<close>

definition reviewMonitoredTx :: "'s Client \<Rightarrow> MonitoredTx \<Rightarrow> ('s, MonitoredTx \<times> goerr option) state" where
  "reviewMonitoredTx c mTx = do {
     r \<leftarrow> em_EstimateGas (cl_etherman c) (From mTx) (To mTx) (Value mTx) (Data mTx);
     case r of
       Inl err \<Rightarrow> ret (mTx, Some (Wrapf ''failed to estimate gas: '' err []))
     | Inr gas \<Rightarrow> do {
         let mTx = (if gas > Gas mTx then mTx\<lparr>Gas := gas\<rparr> else mTx);
         p \<leftarrow> suggestedGasPrice c;
         case p of
           Inl err \<Rightarrow> ret (mTx, Some (Wrapf ''failed to get suggested gas price: '' err []))
         | Inr gasPrice \<Rightarrow>
             ret (if gasPrice > GasPrice mTx then mTx\<lparr>GasPrice := gasPrice\<rparr> else mTx, None) } }"

definition reviewMonitoredTxNonce ::
    "geth \<Rightarrow> 's Client \<Rightarrow> MonitoredTx \<Rightarrow> ('s, MonitoredTx \<times> goerr option) state" where
  "reviewMonitoredTxNonce G c mTx = do {
     r \<leftarrow> getTxNonce c (From mTx);
     case r of
       Inl err \<Rightarrow>
         ret (mTx, Some (Wrapf (''failed to load current nonce for acc '' @ addr_String G (From mTx) @ '': '') err []))
     | Inr nonce \<Rightarrow> ret (if nonce > Nonce mTx then mTx\<lparr>Nonce := nonce\<rparr> else mTx, None) }"

section \<open>Adding a transaction\<close>

definition Client_Add ::
    "'s Client \<Rightarrow> string \<Rightarrow> string \<Rightarrow> address \<Rightarrow> address option \<Rightarrow> int option \<Rightarrow> byte list option \<Rightarrow>
     u64 \<Rightarrow> dbtx \<Rightarrow> ('s, goerr option) state" where
  "Client_Add c ow i from to value data gasOffset dbTx = do {
     n \<leftarrow> getTxNonce c from;
     case n of
       Inl err \<Rightarrow> ret (Some (Wrapf ''failed to get nonce: '' err []))
     | Inr nonce \<Rightarrow> do {
         g \<leftarrow> em_EstimateGas (cl_etherman c) from to value data;
         let gas = (case g of
                      Inr gas \<Rightarrow> Inr gas
                    | Inl err \<Rightarrow>
                        if ForcedGas (cl_cfg c) > 0 then Inr (ForcedGas (cl_cfg c))
                        else Inl (Wrapf ''failed to estimate gas: '' err
                                   ('', data: '' @ EncodeToString (case data of None \<Rightarrow> [] | Some d \<Rightarrow> d))));
         case gas of
           Inl err \<Rightarrow> ret (Some err)
         | Inr gas \<Rightarrow> do {
             p \<leftarrow> suggestedGasPrice c;
             case p of
               Inl err \<Rightarrow> ret (Some (Wrapf ''failed to get suggested gas price: '' err []))
             | Inr gasPrice \<Rightarrow> do {
                 let mTx =
                   \<lparr>Owner = ow, ID = i, From = from, To = to, Nonce = nonce, Value = value,
                    Data = data, Gas = gas, GasOffset = gasOffset, GasPrice = gasPrice,
                    Status = MonitoredTxStatusCreated, BlockNumber = None, History = None,
                    CreatedAt = 0, UpdatedAt = 0, NumRetries = 0\<rparr>;
                 e \<leftarrow> st_Add (cl_storage c) mTx dbTx;
                 case e of
                   Some err \<Rightarrow> ret (Some (Wrapf ''failed to add tx to get monitored: '' err []))
                 | None \<Rightarrow> ret None } } } }"

section \<open>Results\<close>

fun result_txs ::
    "'s Client \<Rightarrow> hash list \<Rightarrow> (hash \<times> TxResult) list \<Rightarrow> ('s, goerr + (hash \<times> TxResult) list) state" where
  "result_txs c [] txs = ret (Inr txs)"
| "result_txs c (txHash # history) txs = do {
     (tx, pending, err) \<leftarrow> em_GetTx (cl_etherman c) txHash;
     if \<not> is_err err EthNotFound \<and> err \<noteq> None then ret (Inl (the err))
     else do {
       (receipt, err) \<leftarrow> em_GetTxReceipt (cl_etherman c) txHash;
       if \<not> is_err err EthNotFound \<and> err \<noteq> None then ret (Inl (the err))
       else do {
         (revertMessage, err) \<leftarrow> em_GetRevertMessage (cl_etherman c) tx;
         if \<not> is_err err EthNotFound \<and> err \<noteq> None \<and> Error (the err) \<noteq> Error ErrExecutionReverted
         then ret (Inl (the err))
         else result_txs c history
                (AList.update txHash
                  \<lparr>res_Tx = tx, res_Receipt = receipt, res_RevertMessage = revertMessage\<rparr> txs) } } }"

definition buildResult ::
    "'s runtime \<Rightarrow> 's Client \<Rightarrow> MonitoredTx \<Rightarrow> ('s, goerr + MonitoredTxResult) state" where
  "buildResult RT c mTx = do {
     ks \<leftarrow> rt_range RT;
     let history = MonitoredTx_HistoryHashSlice ks mTx;
     r \<leftarrow> result_txs c history [];
     case r of
       Inl err \<Rightarrow> ret (Inl err)
     | Inr txs \<Rightarrow> ret (Inr \<lparr>res_ID = ID mTx, res_Status = Status mTx, res_Txs = Some txs\<rparr>) }"

definition Client_Result ::
    "'s runtime \<Rightarrow> 's Client \<Rightarrow> string \<Rightarrow> string \<Rightarrow> dbtx \<Rightarrow> ('s, goerr + MonitoredTxResult) state" where
  "Client_Result RT c ow i dbTx = do {
     r \<leftarrow> st_Get (cl_storage c) ow i dbTx;
     case r of
       Inl err \<Rightarrow> ret (Inl err)
     | Inr mTx \<Rightarrow> buildResult RT c mTx }"

definition EthTxManager_of :: "'s runtime \<Rightarrow> 's Client \<Rightarrow> 's IEthTxManager" where
  "EthTxManager_of RT c = \<lparr>tm_Add = Client_Add c, tm_Result = Client_Result RT c\<rparr>"

section \<open>Whether a failed receipt is final\<close>

definition shouldContinueToMonitorThisTx :: "'s Client \<Rightarrow> Receipt \<Rightarrow> ('s, bool) state" where
  "shouldContinueToMonitorThisTx c receipt =
     (if rcpt_Status receipt = ReceiptStatusSuccessful then ret False
      else do {
        (tx, pending, err) \<leftarrow> em_GetTx (cl_etherman c) (rcpt_TxHash receipt);
        case err of
          Some e \<Rightarrow> ret False
        | None \<Rightarrow> do {
            (msg, err) \<leftarrow> em_GetRevertMessage (cl_etherman c) tx;
            case err of
              Some e \<Rightarrow> ret (Error e = Error ErrExecutionReverted)
            | None \<Rightarrow> ret False } })"

end
