(* ===== verification/Monitor.thy ===== *)
theory Monitor
  imports TxManager
begin

text \<open>
  The monitoring loop of \<open>txmanager/txmanager.go\<close>: \<open>monitorTx\<close>, in the phases its comments name,
  \<open>monitorTxs\<close> and \<open>Start\<close>. Go's \<open>monitorTx\<close> returns nothing; here it returns the exit it took
  (one constructor per \<open>return\<close>), which stands for the log line before it. A panic ends the
  goroutine, whose deferred function recovers: it is the exit \<open>Panicked\<close>. In \<open>monitorTxs\<close>
  the goroutines of one cycle run one after the other, in an order the runtime chooses; Interleaving
  lets them run side by side.
\<close>

section \<open>Exits\<close>

datatype monitor_exit =
    NonceReviewFailed goerr
  | NonceUpdateFailed goerr
  | RetriesExceeded "goerr option"
  | SkippedReorged
  | ReviewFailed goerr "goerr option"
  | ReviewUpdateFailed goerr
  | SignFailed goerr
  | HistoryUpdateFailed goerr
  | SendFailed goerr
  | SentUpdateFailed goerr
  | WaitFailed goerr
  | NotMinedYet
  | ReceiptFailed goerr
  | StateNotSynced
  | LastBlockFailed goerr
  | BlockNotSynced
  | ContinueMonitoring
  | FinalUpdateFailed goerr
  | MarkedConfirmed
  | MarkedFailed
  | Panicked

section \<open>Scanning the history\<close>

record scan =
  lastReceiptChecked :: Receipt
  confirmed :: bool
  hasFailedReceipts :: bool
  allHistoryTxsWereMined :: bool

definition scan_start :: scan where
  "scan_start =
     \<lparr>lastReceiptChecked = zero_receipt, confirmed = False, hasFailedReceipts = False,
      allHistoryTxsWereMined = True\<rparr>"

fun checkHistory :: "'s Client \<Rightarrow> hash list \<Rightarrow> scan \<Rightarrow> ('s, monitor_exit + scan) state" where
  "checkHistory c [] sc = ret (Inr sc)"
| "checkHistory c (txHash # hs) sc = do {
     (mined, receipt, err) \<leftarrow> em_CheckTxWasMined (cl_etherman c) txHash;
     case err of
       Some e \<Rightarrow> checkHistory c hs sc
     | None \<Rightarrow>
         if \<not> mined then checkHistory c hs (sc\<lparr>allHistoryTxsWereMined := False\<rparr>)
         else (case receipt of
           None \<Rightarrow> ret (Inl Panicked)
         | Some r \<Rightarrow>
             if rcpt_Status r = ReceiptStatusSuccessful
             then ret (Inr (sc\<lparr>lastReceiptChecked := r, confirmed := True\<rparr>))
             else checkHistory c hs
                    (sc\<lparr>lastReceiptChecked := r, confirmed := False, hasFailedReceipts := True\<rparr>)) }"

section \<open>Nonce and retries\<close>

definition reviewNonceIfNeeded ::
    "geth \<Rightarrow> 's Client \<Rightarrow> scan \<Rightarrow> MonitoredTx \<Rightarrow> ('s, monitor_exit + MonitoredTx) state" where
  "reviewNonceIfNeeded G c sc mTx =
     (if \<not> confirmed sc \<and> hasFailedReceipts sc \<and> allHistoryTxsWereMined sc
      then do {
        (mTx, err) \<leftarrow> reviewMonitoredTxNonce G c mTx;
        case err of
          Some e \<Rightarrow> ret (Inl (NonceReviewFailed e))
        | None \<Rightarrow> do {
            err \<leftarrow> st_Update (cl_storage c) mTx None;
            case err of
              Some e \<Rightarrow> ret (Inl (NonceUpdateFailed e))
            | None \<Rightarrow> ret (Inr mTx) } }
      else ret (Inr mTx))"

definition checkRetries :: "'s Client \<Rightarrow> MonitoredTx \<Rightarrow> ('s, monitor_exit + MonitoredTx) state" where
  "checkRetries c mTx =
     (if NumRetries mTx \<ge> MaxRetries (cl_cfg c)
      then do {
        err \<leftarrow> st_Update (cl_storage c) (mTx\<lparr>Status := MonitoredTxStatusFailed\<rparr>) None;
        ret (Inl (RetriesExceeded err)) }
      else ret (Inr mTx))"

section \<open>Sending and waiting\<close>

definition reviewIfSent :: "'s Client \<Rightarrow> MonitoredTx \<Rightarrow> ('s, monitor_exit + MonitoredTx) state" where
  "reviewIfSent c mTx =
     (if Status mTx = MonitoredTxStatusReorged then ret (Inl SkippedReorged)
      else if Status mTx = MonitoredTxStatusSent then do {
        (mTx, err) \<leftarrow> reviewMonitoredTx c mTx;
        case err of
          Some e \<Rightarrow> do {
            err \<leftarrow> st_Update (cl_storage c) (mTx\<lparr>NumRetries := NumRetries mTx + 1\<rparr>) None;
            ret (Inl (ReviewFailed e err)) }
        | None \<Rightarrow> do {
            err \<leftarrow> st_Update (cl_storage c) mTx None;
            case err of
              Some e \<Rightarrow> ret (Inl (ReviewUpdateFailed e))
            | None \<Rightarrow> ret (Inr mTx) } }
      else ret (Inr mTx))"

definition signAndRecord ::
    "geth \<Rightarrow> 's Client \<Rightarrow> MonitoredTx \<Rightarrow> ('s, monitor_exit + MonitoredTx \<times> transaction) state" where
  "signAndRecord G c mTx = do {
     let tx = MonitoredTx_Tx G mTx;
     r \<leftarrow> em_SignTx (cl_etherman c) (From mTx) tx;
     case r of
       Inl e \<Rightarrow> ret (Inl (SignFailed e))
     | Inr signedTx \<Rightarrow>
         (case MonitoredTx_AddHistory G signedTx mTx of
            None \<Rightarrow> ret (Inl Panicked)
          | Some (Inl e) \<Rightarrow> ret (Inr (mTx, signedTx))
          | Some (Inr mTx) \<Rightarrow> do {
              err \<leftarrow> st_Update (cl_storage c) mTx None;
              case err of
                Some e \<Rightarrow> ret (Inl (HistoryUpdateFailed e))
              | None \<Rightarrow> ret (Inr (mTx, signedTx)) }) }"

definition sendIfUnknown ::
    "geth \<Rightarrow> 's Client \<Rightarrow> MonitoredTx \<times> transaction \<Rightarrow>
     ('s, monitor_exit + MonitoredTx \<times> transaction) state" where
  "sendIfUnknown G c p =
     (case p of (mTx, signedTx) \<Rightarrow> do {
        (tx, pending, err) \<leftarrow> em_GetTx (cl_etherman c) (tx_Hash G signedTx);
        if is_err err EthNotFound then do {
          err \<leftarrow> em_SendTx (cl_etherman c) signedTx;
          case err of
            Some e \<Rightarrow> ret (Inl (SendFailed e))
          | None \<Rightarrow>
              if Status mTx = MonitoredTxStatusCreated then do {
                let mTx = mTx\<lparr>Status := MonitoredTxStatusSent\<rparr>;
                err \<leftarrow> st_Update (cl_storage c) mTx None;
                case err of
                  Some e \<Rightarrow> ret (Inl (SentUpdateFailed e))
                | None \<Rightarrow> ret (Inr (mTx, signedTx)) }
              else ret (Inr (mTx, signedTx)) }
        else ret (Inr (mTx, signedTx)) })"

definition waitMined ::
    "geth \<Rightarrow> 's Client \<Rightarrow> MonitoredTx \<times> transaction \<Rightarrow>
     ('s, monitor_exit + MonitoredTx \<times> Receipt) state" where
  "waitMined G c p =
     (case p of (mTx, signedTx) \<Rightarrow> do {
        r \<leftarrow> em_WaitTxToBeMined (cl_etherman c) signedTx (WaitTxToBeMined (cl_cfg c));
        case r of
          Inl e \<Rightarrow> ret (Inl (WaitFailed e))
        | Inr mined \<Rightarrow>
            if \<not> mined then ret (Inl NotMinedYet)
            else do {
              (txReceipt, err) \<leftarrow> em_GetTxReceipt (cl_etherman c) (tx_Hash G signedTx);
              case err of
                Some e \<Rightarrow> ret (Inl (ReceiptFailed e))
              | None \<Rightarrow>
                  (case txReceipt of
                     None \<Rightarrow> ret (Inl Panicked)
                   | Some receipt \<Rightarrow> ret (Inr (mTx, receipt))) } })"

definition obtainReceipt ::
    "geth \<Rightarrow> 's Client \<Rightarrow> scan \<Rightarrow> MonitoredTx \<Rightarrow> ('s, monitor_exit + MonitoredTx \<times> Receipt) state" where
  "obtainReceipt G c sc mTx =
     (if \<not> confirmed sc
      then and_then (reviewIfSent c mTx) (\<lambda>mTx.
           and_then (signAndRecord G c mTx) (\<lambda>p.
           and_then (sendIfUnknown G c p) (\<lambda>p.
           waitMined G c p)))
      else ret (Inr (mTx, lastReceiptChecked sc)))"

section \<open>The outcome\<close>

definition finalUpdate :: "'s Client \<Rightarrow> monitor_exit \<Rightarrow> MonitoredTx \<Rightarrow> ('s, monitor_exit) state" where
  "finalUpdate c done_exit mTx = do {
     err \<leftarrow> st_Update (cl_storage c) mTx None;
     case err of Some e \<Rightarrow> ret (FinalUpdateFailed e) | None \<Rightarrow> ret done_exit }"

definition settleOutcome :: "'s Client \<Rightarrow> MonitoredTx \<times> Receipt \<Rightarrow> ('s, monitor_exit) state" where
  "settleOutcome c p =
     (case p of (mTx, receipt) \<Rightarrow>
        if rcpt_Status receipt = ReceiptStatusSuccessful then
          (case rcpt_BlockNumber receipt of
             None \<Rightarrow> ret Panicked
           | Some bn \<Rightarrow> do {
               let receiptBlockNum = Uint64 bn;
               r \<leftarrow> si_GetLastBlock (cl_state c) None;
               case r of
                 Inl err \<Rightarrow>
                   if errors_Is err StateNotSynchronized then ret StateNotSynced
                   else ret (LastBlockFailed err)
               | Inr block \<Rightarrow>
                   if sb_BlockNumber block < receiptBlockNum then ret BlockNotSynced
                   else finalUpdate c MarkedConfirmed
                          (mTx\<lparr>Status := MonitoredTxStatusConfirmed,
                               BlockNumber := rcpt_BlockNumber receipt\<rparr>) })
        else do {
          continue \<leftarrow> shouldContinueToMonitorThisTx c receipt;
          if continue then ret ContinueMonitoring
          else finalUpdate c MarkedFailed
                 (mTx\<lparr>Status := MonitoredTxStatusFailed,
                      BlockNumber := rcpt_BlockNumber receipt\<rparr>) })"

section \<open>monitorTx\<close>

definition monitorTx ::
    "geth \<Rightarrow> 's runtime \<Rightarrow> 's Client \<Rightarrow> MonitoredTx \<Rightarrow> ('s, monitor_exit) state" where
  "monitorTx G RT c mTx = do {
     ks \<leftarrow> rt_range RT;
     r \<leftarrow> and_then (checkHistory c (range_by ks (map_keys (History mTx))) scan_start) (\<lambda>sc.
          and_then (reviewNonceIfNeeded G c sc mTx) (\<lambda>mTx.
          and_then (checkRetries c mTx) (\<lambda>mTx.
          obtainReceipt G c sc mTx)));
     case r of
       Inl stop \<Rightarrow> ret stop
     | Inr p \<Rightarrow> settleOutcome c p }"

section \<open>monitorTxs and Start\<close>

definition fixNumRetries :: "MonitoredTx \<Rightarrow> MonitoredTx" where
  "fixNumRetries mTx =
     (if NumRetries mTx = 0
      then mTx\<lparr>NumRetries := word_of_nat (length (map_keys (History mTx)))\<rparr> else mTx)"

fun run_monitors ::
    "geth \<Rightarrow> 's runtime \<Rightarrow> 's Client \<Rightarrow> MonitoredTx list \<Rightarrow> ('s, monitor_exit list) state" where
  "run_monitors G RT c [] = ret []"
| "run_monitors G RT c (mTx # mTxs) = do {
     x \<leftarrow> monitorTx G RT c mTx;
     xs \<leftarrow> run_monitors G RT c mTxs;
     ret (x # xs) }"

definition monitored_statuses :: "MonitoredTxStatus list" where
  "monitored_statuses =
     [MonitoredTxStatusCreated, MonitoredTxStatusSent, MonitoredTxStatusReorged]"

definition monitorTxs ::
    "geth \<Rightarrow> 's runtime \<Rightarrow> 's Client \<Rightarrow> ('s, goerr option) state" where
  "monitorTxs G RT c = do {
     r \<leftarrow> st_GetByStatus (cl_storage c) None monitored_statuses None;
     case r of
       Inl err \<Rightarrow> ret (Some (Errorf (''failed to get created monitored txs: '' @ Error err)))
     | Inr mTxs \<Rightarrow> do {
         ks \<leftarrow> rt_range RT;
         exits \<leftarrow> run_monitors G RT c (range_by ks (map fixNumRetries mTxs));
         ret None } }"

text \<open>
  \<open>Start\<close> loops for ever; the list says what each \<open>select\<close> saw: the context was cancelled, or the
  monitoring period elapsed. The result is whether it returned.
\<close>

datatype select = ContextDone | PeriodElapsed

fun Client_Start ::
    "geth \<Rightarrow> 's runtime \<Rightarrow> 's Client \<Rightarrow> select list \<Rightarrow> ('s, bool) state" where
  "Client_Start G RT c [] = ret False"
| "Client_Start G RT c (ContextDone # ss) = ret True"
| "Client_Start G RT c (PeriodElapsed # ss) = do {
     err \<leftarrow> monitorTxs G RT c;
     Client_Start G RT c ss }"

end
