(* ===== verification/MonitorInv.thy ===== *)
theory MonitorInv
  imports Monitor
begin

text \<open>
  What one run of \<open>monitorTx\<close> does to the table. The locale \<open>tx_client\<close> is a client on a storage
  that satisfies \<open>row_store\<close>, whose other interfaces do not write the table; \<open>evolves m m'\<close> is how
  the goroutine's copy of the transaction may change; \<open>monitorTx_inv\<close> reduces every invariant of
  the table to its preservation by one update with an evolved copy.
\<close>

section \<open>How a monitored transaction evolves\<close>

text \<open>The status machine of one monitoring run.\<close>

inductive status_step :: "MonitoredTxStatus \<Rightarrow> MonitoredTxStatus \<Rightarrow> bool" where
  first_sent: "status_step MonitoredTxStatusCreated MonitoredTxStatusSent"
| give_up: "s \<in> set monitored_statuses \<Longrightarrow> status_step s MonitoredTxStatusFailed"
| confirm: "s \<in> set monitored_statuses \<Longrightarrow> status_step s MonitoredTxStatusConfirmed"

inductive_cases status_step_sentE: "status_step s MonitoredTxStatusSent"
inductive_cases status_step_fromE: "status_step s t"

abbreviation status_reach :: "MonitoredTxStatus \<Rightarrow> MonitoredTxStatus \<Rightarrow> bool" where
  "status_reach \<equiv> status_step\<^sup>*\<^sup>*"

lemma monitored_simps [simp]:
  "MonitoredTxStatusCreated \<in> set monitored_statuses"
  "MonitoredTxStatusSent \<in> set monitored_statuses"
  "MonitoredTxStatusReorged \<in> set monitored_statuses"
  "MonitoredTxStatusFailed \<notin> set monitored_statuses"
  "MonitoredTxStatusConfirmed \<notin> set monitored_statuses"
  "MonitoredTxStatusDone \<notin> set monitored_statuses"
  by (simp_all add: monitored_statuses_def status_defs)

lemma status_terminal:
  "status_reach s t \<Longrightarrow> s \<notin> set monitored_statuses \<Longrightarrow> t = s"
proof (induction rule: converse_rtranclp_induct)
  case (step y z)
  then show ?case
    by (auto elim!: status_step.cases)
qed simp

text \<open>The whole relation in closed form.\<close>

lemma status_reach_iff:
  assumes "s \<in> set monitored_statuses"
  shows "status_reach s t \<longleftrightarrow>
    t = s \<or> t = MonitoredTxStatusFailed \<or> t = MonitoredTxStatusConfirmed \<or>
    (s = MonitoredTxStatusCreated \<and> t = MonitoredTxStatusSent)"
proof
  assume "status_reach s t"
  then show "t = s \<or> t = MonitoredTxStatusFailed \<or> t = MonitoredTxStatusConfirmed \<or>
    (s = MonitoredTxStatusCreated \<and> t = MonitoredTxStatusSent)"
    using assms
  proof (induction rule: rtranclp_induct)
    case (step y z)
    then show ?case
      by (auto elim!: status_step.cases simp: status_defs)
  qed simp
next
  assume "t = s \<or> t = MonitoredTxStatusFailed \<or> t = MonitoredTxStatusConfirmed \<or>
    (s = MonitoredTxStatusCreated \<and> t = MonitoredTxStatusSent)"
  then show "status_reach s t"
    using assms by (auto intro: status_step.intros r_into_rtranclp)
qed

definition evolves :: "MonitoredTx \<Rightarrow> MonitoredTx \<Rightarrow> bool" where
  "evolves m m' \<longleftrightarrow>
     mtx_key m' = mtx_key m \<and> From m' = From m \<and> To m' = To m \<and> Value m' = Value m \<and>
     Data m' = Data m \<and> GasOffset m' = GasOffset m \<and>
     Nonce m \<le> Nonce m' \<and> Gas m \<le> Gas m' \<and> GasPrice m \<le> GasPrice m' \<and>
     hist m \<subseteq> hist m' \<and> status_reach (Status m) (Status m')"

lemma evolves_refl [simp]: "evolves m m"
  by (simp add: evolves_def)

lemma evolves_trans [trans]: "evolves a b \<Longrightarrow> evolves b c \<Longrightarrow> evolves a c"
  unfolding evolves_def by (auto intro: order_trans rtranclp_trans)

lemma evolves_fields:
  "Nonce m \<le> n \<Longrightarrow> evolves m (m\<lparr>Nonce := n\<rparr>)"
  "Gas m \<le> g \<Longrightarrow> evolves m (m\<lparr>Gas := g\<rparr>)"
  "GasPrice m \<le> p \<Longrightarrow> evolves m (m\<lparr>GasPrice := p\<rparr>)"
  "evolves m (m\<lparr>NumRetries := r\<rparr>)"
  "evolves m (m\<lparr>BlockNumber := b\<rparr>)"
  "status_reach (Status m) st \<Longrightarrow> evolves m (m\<lparr>Status := st\<rparr>)"
  by (simp_all add: evolves_def)

lemma evolves_history:
  assumes "MonitoredTx_AddHistory G t m = Some (Inr m')"
  shows "evolves m m'"
  using assms by (rule AddHistory_Inr) (auto simp: evolves_def hist_def)

text \<open>The outcomes that end the monitoring.\<close>

lemma evolves_outcome:
  assumes "Status m \<in> set monitored_statuses"
    and "st = MonitoredTxStatusFailed \<or> st = MonitoredTxStatusConfirmed"
  shows "evolves m (m\<lparr>Status := st\<rparr>)" and "evolves m (m\<lparr>Status := st, BlockNumber := b\<rparr>)"
  using assms by (auto simp: evolves_def status_reach_iff)

text \<open>Invariants of the table that an update with an evolved copy keeps.\<close>

definition stable_under :: "geth \<Rightarrow> MonitoredTx \<Rightarrow> (row list \<Rightarrow> bool) \<Rightarrow> bool" where
  "stable_under G m I \<longleftrightarrow>
     (\<forall>ks u m' t. evolves m m' \<longrightarrow> I t \<longrightarrow> I (apply_write (Update (row_of G ks 0 u m')) t))"

lemma stable_under_evolves: "stable_under G m I \<Longrightarrow> evolves m m' \<Longrightarrow> stable_under G m' I"
  unfolding stable_under_def using evolves_trans by blast

lemma evolves_fixNumRetries [simp]: "evolves m (fixNumRetries m)"
  by (simp add: fixNumRetries_def evolves_fields)

lemma Status_fixNumRetries [simp]: "Status (fixNumRetries m) = Status m"
  by (simp add: fixNumRetries_def)

text \<open>
  How a row may change: the key, the creation time and the gas offset stay, the status follows the
  status machine, nonce and gas only grow, and no hash leaves the history.
\<close>

definition row_evolves :: "geth \<Rightarrow> row \<Rightarrow> row \<Rightarrow> bool" where
  "row_evolves G r r' \<longleftrightarrow>
     row_key r' = row_key r \<and> c_created_at r' = c_created_at r \<and> c_gas_offset r' = c_gas_offset r \<and>
     status_reach (c_status r) (c_status r') \<and> c_nonce r \<le> c_nonce r' \<and> c_gas r \<le> c_gas r' \<and>
     HexToHash G ` set (c_history r) \<subseteq> HexToHash G ` set (c_history r')"

lemma row_evolves_refl [simp]: "row_evolves G r r"
  by (simp add: row_evolves_def)

lemma scanMtx_GasOffset: "scanMtx G r = Inr m \<Longrightarrow> GasOffset m = c_gas_offset r"
  by (auto simp: scanMtx_def scan_fields_def split: sum.splits)

lemma row_evolves_update:
  assumes "geth_ok G" and "scanMtx G r0 = Inr m" and "evolves m m'"
  shows "row_evolves G r0 ((row_of G ks 0 u m')\<lparr>c_created_at := c_created_at r0\<rparr>)"
proof -
  have "HexToHash G ` set (c_history (row_of G ks 0 u m')) = hist m'"
    using assms(1) by (simp add: row_of_def set_HistoryStringSlice image_image)
  then show ?thesis
    using assms(3) scanMtx_fields [OF assms(2)] scanMtx_GasOffset [OF assms(2)]
    by (auto simp: row_evolves_def evolves_def row_of_def)
qed

text \<open>The table after some monitoring of rows of \<open>t0\<close>.\<close>

definition rows_evolve :: "geth \<Rightarrow> row list \<Rightarrow> row list \<Rightarrow> bool" where
  "rows_evolve G t0 t \<longleftrightarrow>
     keys t = keys t0 \<and>
     (\<forall>k r0. lookup t0 k = Some r0 \<longrightarrow> (\<exists>r. lookup t k = Some r \<and> row_evolves G r0 r))"

lemma rows_evolve_refl [simp]: "rows_evolve G t t"
  by (simp add: rows_evolve_def)

lemma stable_rows_evolve:
  assumes "geth_ok G" and "lookup t0 (mtx_key m) = Some r0" and "scanMtx G r0 = Inr m"
  shows "stable_under G m (rows_evolve G t0)"
  unfolding stable_under_def
proof (intro allI impI)
  fix ks u m' t
  assume ev: "evolves m m'" and t: "rows_evolve G t0 t"
  have key: "mtx_key m' = mtx_key m"
    using ev by (simp add: evolves_def)
  have "\<exists>r. lookup (apply_write (Update (row_of G ks 0 u m')) t) k = Some r \<and> row_evolves G r1 r"
    if r1: "lookup t0 k = Some r1" for k r1
  proof -
    from t r1 obtain r where r: "lookup t k = Some r" "row_evolves G r1 r"
      unfolding rows_evolve_def by metis
    show ?thesis
    proof (cases "k = mtx_key m")
      case True
      with r1 assms(2) have "r1 = r0" by simp
      moreover from r this have "c_created_at r = c_created_at r0"
        by (simp add: row_evolves_def)
      ultimately show ?thesis
        using row_evolves_update [OF assms(1,3) ev] r True key
        by (simp add: lookup_update del: apply_write.simps)
    next
      case False
      then show ?thesis
        using r key by (simp add: lookup_update del: apply_write.simps)
    qed
  qed
  with t show "rows_evolve G t0 (apply_write (Update (row_of G ks 0 u m')) t)"
    by (simp add: rows_evolve_def del: apply_write.simps)
qed

text \<open>The same for one transaction, with every other row untouched.\<close>

definition only_row :: "string \<times> string \<Rightarrow> row list \<Rightarrow> row list \<Rightarrow> bool" where
  "only_row k t0 t \<longleftrightarrow> keys t = keys t0 \<and> (\<forall>k'. k' \<noteq> k \<longrightarrow> lookup t k' = lookup t0 k')"

lemma stable_only_row: "stable_under G m (only_row (mtx_key m) t0)"
  by (auto simp: stable_under_def only_row_def evolves_def lookup_update simp del: apply_write.simps)

lemma stable_conj:
  "stable_under G m I \<Longrightarrow> stable_under G m J \<Longrightarrow> stable_under G m (\<lambda>t. I t \<and> J t)"
  by (auto simp: stable_under_def)

section \<open>Clients on a row store\<close>

text \<open>
  \<open>tx_worker\<close> is what the monitoring of one transaction needs, \<open>tx_client\<close> what a whole cycle needs.
\<close>

locale tx_worker = row_writer G S tbl
  for G :: geth and S :: "'s StorageInterface" and tbl :: "'s \<Rightarrow> row list" +
  fixes c :: "'s Client" and RT :: "'s runtime"
  assumes storage_S: "cl_storage c = S"
    and quiet_GetTx: "preserves tbl (em_GetTx (cl_etherman c) h)"
    and quiet_GetTxReceipt: "preserves tbl (em_GetTxReceipt (cl_etherman c) h)"
    and quiet_Wait: "preserves tbl (em_WaitTxToBeMined (cl_etherman c) t d)"
    and quiet_SendTx: "preserves tbl (em_SendTx (cl_etherman c) t)"
    and quiet_PendingNonce: "preserves tbl (em_PendingNonce (cl_etherman c) a)"
    and quiet_GasPrice: "preserves tbl (em_SuggestedGasPrice (cl_etherman c))"
    and quiet_EstimateGas: "preserves tbl (em_EstimateGas (cl_etherman c) a to v dat)"
    and quiet_CheckTx: "preserves tbl (em_CheckTxWasMined (cl_etherman c) h)"
    and quiet_SignTx: "preserves tbl (em_SignTx (cl_etherman c) a t)"
    and quiet_Revert: "preserves tbl (em_GetRevertMessage (cl_etherman c) ot)"
    and quiet_LastBlock: "preserves tbl (si_GetLastBlock (cl_state c) dt)"
    and quiet_range: "preserves tbl (rt_range RT)"
begin

lemmas quiet = quiet_GetTx quiet_GetTxReceipt quiet_Wait quiet_SendTx quiet_PendingNonce
  quiet_GasPrice quiet_EstimateGas quiet_CheckTx quiet_SignTx quiet_Revert quiet_LastBlock
  quiet_range

lemmas wp_quiet = quiet [THEN wp_preserves]
lemmas wp_sender = sender_reads [THEN wp_preserves]

lemma wp_checkHistory:
  assumes "\<And>r s'. tbl s' = tbl s \<Longrightarrow> Q r s'"
  shows "wp (checkHistory c hs sc) Q s"
  using assms
proof (induction hs arbitrary: sc s)
  case Nil
  then show ?case by (simp add: wp_simps)
next
  case (Cons h hs)
  show ?case
    unfolding checkHistory.simps wp_simps
    by (rule wp_quiet) (auto simp: wp_simps split: option.splits intro!: Cons)
qed

lemma wp_getTxNonce:
  assumes "\<And>r s'. tbl s' = tbl s \<Longrightarrow> Q r s'"
  shows "wp (getTxNonce c from) Q s"
  unfolding getTxNonce_def storage_S wp_simps
  by (rule wp_sender) (auto simp: wp_simps assms split: sum.splits intro!: wp_quiet assms)

lemma wp_suggestedGasPrice:
  assumes "\<And>r s'. tbl s' = tbl s \<Longrightarrow> Q r s'"
  shows "wp (suggestedGasPrice c) Q s"
  unfolding suggestedGasPrice_def wp_simps
  by (rule wp_quiet) (auto simp: wp_simps assms split: sum.splits)

lemma wp_reviewMonitoredTxNonce:
  assumes "\<And>m' e s'. tbl s' = tbl s \<Longrightarrow> evolves m m' \<Longrightarrow> Status m' = Status m \<Longrightarrow>
      hist m' = hist m \<Longrightarrow> Q (m', e) s'"
  shows "wp (reviewMonitoredTxNonce G c m) Q s"
  unfolding reviewMonitoredTxNonce_def wp_simps
  by (rule wp_getTxNonce)
    (auto simp: wp_simps intro!: assms evolves_fields split: sum.splits)

lemma wp_reviewMonitoredTx:
  assumes "\<And>m' e s'. tbl s' = tbl s \<Longrightarrow> evolves m m' \<Longrightarrow> Status m' = Status m \<Longrightarrow>
      hist m' = hist m \<Longrightarrow> Q (m', e) s'"
  shows "wp (reviewMonitoredTx c m) Q s"
  unfolding reviewMonitoredTx_def wp_simps Let_def
  by (rule wp_quiet)
    (auto simp: wp_simps evolves_def intro!: assms wp_suggestedGasPrice split: sum.splits)

lemma wp_shouldContinue:
  assumes "\<And>r s'. tbl s' = tbl s \<Longrightarrow> Q r s'"
  shows "wp (shouldContinueToMonitorThisTx c receipt) Q s"
  unfolding shouldContinueToMonitorThisTx_def
  by (auto simp: wp_simps assms split: option.splits intro!: wp_quiet assms)

end


section \<open>Each phase keeps a stable invariant\<close>

context tx_worker
begin

text \<open>
  In the lemmas below \<open>m\<close> is the transaction the run started with and \<open>m1\<close> the copy a phase gets.
\<close>

lemma wp_update:
  assumes "stable_under G m I" and "evolves m m1" and "I (tbl s)"
    and "\<And>r s'. I (tbl s') \<Longrightarrow> Q r s'"
  shows "wp (st_Update (cl_storage c) m1 None) Q s"
  unfolding storage_S
proof (rule update_rule)
  show "Q (Some e) s'" if "tbl s' = tbl s" for e s'
    using assms that by simp
next
  show "Q r s'" if "tbl s' = apply_write (Update (row_of G ks 0 u m1)) (tbl s)" for r ks u s'
    using assms(1-3) that by (intro assms(4)) (simp add: stable_under_def del: apply_write.simps)
qed

lemma wp_reviewNonceIfNeeded:
  assumes I: "stable_under G m I" and ev: "evolves m m1" and s: "I (tbl s)"
    and Q: "\<And>r s'. I (tbl s') \<Longrightarrow> 
      (\<And>m2. r = Inr m2 \<Longrightarrow> evolves m m2 \<and> Status m2 = Status m1 \<and> hist m2 = hist m1) \<Longrightarrow> Q r s'"
  shows "wp (reviewNonceIfNeeded G c sc m1) Q s"
proof -
  have "wp (reviewMonitoredTxNonce G c m1)
      (\<lambda>(m2, err). case err of Some e \<Rightarrow> Q (Inl (NonceReviewFailed e)) | None \<Rightarrow>
         wp (st_Update (cl_storage c) m2 None)
           (\<lambda>err. case err of Some e \<Rightarrow> Q (Inl (NonceUpdateFailed e)) | None \<Rightarrow> Q (Inr m2))) s"
  proof (rule wp_reviewMonitoredTxNonce)
    fix m2 e and s' :: 's
    assume t: "tbl s' = tbl s" and m2: "evolves m1 m2" and st: "Status m2 = Status m1"
      and h: "hist m2 = hist m1"
    show "(case (m2, e) of (m2, err) \<Rightarrow> case err of Some e \<Rightarrow> Q (Inl (NonceReviewFailed e)) | None \<Rightarrow>
         wp (st_Update (cl_storage c) m2 None)
           (\<lambda>err. case err of Some e \<Rightarrow> Q (Inl (NonceUpdateFailed e)) | None \<Rightarrow> Q (Inr m2))) s'"
      using s t st h evolves_trans [OF ev m2]
      by (auto intro!: Q wp_update [OF I] split: option.splits)
  qed
  then show ?thesis
    using s ev unfolding reviewNonceIfNeeded_def
    by (auto simp: wp_simps intro!: Q elim!: wp_mono split: prod.splits option.splits)
qed

lemma wp_checkRetries:
  assumes I: "stable_under G m I" and ev: "evolves m m1" and s: "I (tbl s)"
    and st: "Status m1 \<in> set monitored_statuses"
    and Q: "\<And>r s'. I (tbl s') \<Longrightarrow> (\<And>m2. r = Inr m2 \<Longrightarrow> m2 = m1) \<Longrightarrow> Q r s'"
  shows "wp (checkRetries c m1) Q s"
proof -
  have "evolves m (m1\<lparr>Status := MonitoredTxStatusFailed\<rparr>)"
    using evolves_trans [OF ev] evolves_outcome(1) [OF st] by blast
  then show ?thesis
    unfolding checkRetries_def
    by (auto simp: wp_simps s intro!: Q wp_update [OF I])
qed

lemma wp_reviewIfSent:
  assumes I: "stable_under G m I" and ev: "evolves m m1" and s: "I (tbl s)"
    and Q: "\<And>r s'. I (tbl s') \<Longrightarrow> 
      (\<And>m2. r = Inr m2 \<Longrightarrow> evolves m m2 \<and> Status m2 = Status m1 \<and> hist m2 = hist m1) \<Longrightarrow> Q r s'"
  shows "wp (reviewIfSent c m1) Q s"
proof -
  have step: "evolves m m2 \<and> evolves m (m2\<lparr>NumRetries := n\<rparr>)" if "evolves m1 m2" for m2 n
    using evolves_trans [OF ev that] evolves_trans [OF _ evolves_fields(4)] by blast
  show ?thesis
    unfolding reviewIfSent_def
    by (auto simp: wp_simps s ev step intro!: Q wp_reviewMonitoredTx wp_update [OF I]
        split: option.splits)
qed

lemma wp_signAndRecord:
  assumes I: "stable_under G m I" and ev: "evolves m m1" and s: "I (tbl s)"
    and Q: "\<And>r s'. I (tbl s') \<Longrightarrow>
      (\<And>m2 t. r = Inr (m2, t) \<Longrightarrow> evolves m m2 \<and> Status m2 = Status m1) \<Longrightarrow> Q r s'"
  shows "wp (signAndRecord G c m1) Q s"
proof -
  have hist: "evolves m m2 \<and> Status m2 = Status m1"
    if "MonitoredTx_AddHistory G t m1 = Some (Inr m2)" for t m2
    using evolves_trans [OF ev evolves_history [OF that]] that
    by (auto elim!: AddHistory_Inr)
  show ?thesis
    unfolding signAndRecord_def Let_def wp_simps
    by (rule wp_quiet)
      (auto simp: wp_simps s ev dest!: hist intro!: Q wp_update [OF I] split: option.splits sum.splits)
qed

lemma wp_sendIfUnknown:
  assumes I: "stable_under G m I" and ev: "evolves m m1" and s: "I (tbl s)"
    and Q: "\<And>r s'. I (tbl s') \<Longrightarrow>
      (\<And>m2 t. r = Inr (m2, t) \<Longrightarrow> evolves m m2 \<and>
         (Status m2 = Status m1 \<or> Status m2 = MonitoredTxStatusSent)) \<Longrightarrow> Q r s'"
  shows "wp (sendIfUnknown G c (m1, t)) Q s"
proof -
  have sent: "evolves m (m1\<lparr>Status := MonitoredTxStatusSent\<rparr>)" if "Status m1 = MonitoredTxStatusCreated"
    using evolves_trans [OF ev] evolves_fields(6) [of m1] that
    by (simp add: status_reach_iff)
  show ?thesis
    unfolding sendIfUnknown_def Let_def wp_simps prod.case
    by (rule wp_quiet)
      (auto simp: wp_simps s ev sent intro!: Q wp_quiet wp_update [OF I] split: option.splits)
qed

lemma wp_waitMined:
  assumes "\<And>r s'. tbl s' = tbl s \<Longrightarrow> (\<And>m2 x. r = Inr (m2, x) \<Longrightarrow> m2 = m1) \<Longrightarrow> Q r s'"
  shows "wp (waitMined G c (m1, t)) Q s"
  unfolding waitMined_def wp_simps prod.case
  by (rule wp_quiet) (auto simp: wp_simps intro!: wp_quiet assms split: sum.splits option.splits)


lemma wp_obtainReceipt:
  assumes I: "stable_under G m I" and ev: "evolves m m1" and s: "I (tbl s)"
    and st: "Status m1 \<in> set monitored_statuses"
    and Q: "\<And>r s'. I (tbl s') \<Longrightarrow>
      (\<And>m2 x. r = Inr (m2, x) \<Longrightarrow> evolves m m2 \<and> Status m2 \<in> set monitored_statuses) \<Longrightarrow> Q r s'"
  shows "wp (obtainReceipt G c sc m1) Q s"
proof (cases "confirmed sc")
  case True
  then show ?thesis
    using s ev st by (auto simp: obtainReceipt_def wp_simps intro!: Q)
next
  case False
  show ?thesis
    unfolding obtainReceipt_def wp_simps
    using False s ev st
    by (auto simp: wp_simps intro!: Q wp_reviewIfSent [OF I] wp_signAndRecord [OF I]
        wp_sendIfUnknown [OF I] wp_waitMined split: sum.splits)
qed

lemma wp_settleOutcome:
  assumes I: "stable_under G m I" and ev: "evolves m m1" and s: "I (tbl s)"
    and st: "Status m1 \<in> set monitored_statuses"
    and Q: "\<And>r s'. I (tbl s') \<Longrightarrow> Q r s'"
  shows "wp (settleOutcome c (m1, x)) Q s"
proof -
  have out: "evolves m (m1\<lparr>Status := MonitoredTxStatusConfirmed, BlockNumber := b\<rparr>)"
    "evolves m (m1\<lparr>Status := MonitoredTxStatusFailed, BlockNumber := b\<rparr>)" for b
    using evolves_trans [OF ev] evolves_outcome(2) [OF st] by blast+
  show ?thesis
    unfolding settleOutcome_def finalUpdate_def Let_def prod.case
    by (auto simp: wp_simps s out intro!: Q wp_quiet wp_shouldContinue wp_update [OF I]
        split: option.splits sum.splits)
qed

theorem monitorTx_inv:
  assumes I: "stable_under G m I" and st: "Status m \<in> set monitored_statuses"
    and s: "I (tbl s)" and Q: "\<And>r s'. I (tbl s') \<Longrightarrow> Q r s'"
  shows "wp (monitorTx G RT c m) Q s"
  unfolding monitorTx_def wp_simps
  by (rule wp_quiet, rule wp_checkHistory)
    (auto simp: wp_simps s st intro!: Q wp_reviewNonceIfNeeded [OF I] wp_checkRetries [OF I]
      wp_obtainReceipt [OF I] wp_settleOutcome [OF I] split: sum.splits)


lemma wp_run_monitors:
  assumes I: "\<And>m. m \<in> set ms \<Longrightarrow> stable_under G m I \<and> Status m \<in> set monitored_statuses"
    and s: "I (tbl s)" and Q: "\<And>r s'. I (tbl s') \<Longrightarrow> Q r s'"
  shows "wp (run_monitors G RT c ms) Q s"
  using assms
proof (induction ms arbitrary: s Q)
  case Nil
  then show ?case by (simp add: wp_simps)
next
  case (Cons m ms)
  then have m: "stable_under G m I" "Status m \<in> set monitored_statuses"
    by simp_all
  have "wp (run_monitors G RT c ms) (\<lambda>xs. Q (x # xs)) s'" if "I (tbl s')" for x s'
    using Cons.prems(1,3) that by (intro Cons.IH) auto
  then show ?case
    unfolding run_monitors.simps wp_simps
    by (intro monitorTx_inv [OF m Cons.prems(2)]) simp
qed

end

section \<open>A whole cycle\<close>

text \<open>What \<open>monitorTxs\<close> finds: scanned rows that are not finished, no two of them with one key.\<close>

definition found_in :: "geth \<Rightarrow> row list \<Rightarrow> MonitoredTx list \<Rightarrow> bool" where
  "found_in G t ms \<longleftrightarrow>
     (\<forall>m \<in> set ms. Status m \<in> set monitored_statuses \<and> (\<exists>r \<in> set t. scanMtx G r = Inr m)) \<and>
     (pkey t \<longrightarrow> distinct (map (\<lambda>m. mtx_key m) ms))"

lemma found_in_scanned:
  assumes sub: "mset rs \<subseteq># mset t" and st: "\<forall>r \<in> set rs. c_status r \<in> set monitored_statuses"
    and ms: "list_all2 (\<lambda>r m. scanMtx G r = Inr m) rs ms"
  shows "found_in G t ms"
proof -
  have "\<exists>r \<in> set t. scanMtx G r = Inr m \<and> Status m \<in> set monitored_statuses" if "m \<in> set ms" for m
  proof -
    from that ms obtain r where r: "r \<in> set rs" "scanMtx G r = Inr m"
      by (blast dest: list_all2_rightD)
    with sub have "r \<in> set t"
      by (meson in_multiset_in_set mset_subset_eqD)
    with r st scanMtx_fields(2) [OF r(2)] show ?thesis by auto
  qed
  moreover have "map (\<lambda>m. mtx_key m) ms = keys rs"
    using ms by (induction rs ms) (auto simp: keys_def scanMtx_fields)
  moreover have "mset (keys rs) \<subseteq># mset (keys t)"
    unfolding keys_def mset_map by (rule image_mset_subseteq_mono [OF sub])
  ultimately show ?thesis
    using distinct_submset [of "keys rs" "keys t"] by (auto simp: found_in_def pkey_def)
qed

context row_store
begin

lemma by_status_found:
  "wp (st_GetByStatus S None monitored_statuses None)
    (\<lambda>r s'. tbl s' = tbl s \<and> (\<forall>ms. r = Inr ms \<longrightarrow> found_in G (tbl s) ms)) s"
  by (rule by_status_rule) (auto simp: monitored_statuses_def intro!: found_in_scanned)

end

locale tx_client = row_store G S tbl + tx_worker G S tbl c RT
  for G :: geth and S :: "'s StorageInterface" and tbl :: "'s \<Rightarrow> row list"
    and c :: "'s Client" and RT :: "'s runtime"
begin

text \<open>A monitoring cycle keeps what the update of every monitored row keeps.\<close>

theorem monitorTxs_stable:
  assumes each: "\<And>r m. r \<in> set (tbl s) \<Longrightarrow> scanMtx G r = Inr m \<Longrightarrow> stable_under G m I"
    and s: "I (tbl s)" and Q: "\<And>r s'. I (tbl s') \<Longrightarrow> Q r s'"
  shows "wp (monitorTxs G RT c) Q s"
  unfolding monitorTxs_def storage_S wp_simps
proof (rule wp_mono [OF by_status_found], goal_cases)
  case (1 r s')
  have all: "stable_under G m I \<and> Status m \<in> set monitored_statuses"
    if "m \<in> set (range_by ks (map fixNumRetries ms))" and "r = Inr ms" for m ks ms
  proof -
    from that 1 obtain m0 r0 where "m = fixNumRetries m0" and m0: "scanMtx G r0 = Inr m0"
      and r0: "r0 \<in> set (tbl s)" and st: "Status m0 \<in> set monitored_statuses"
      by (auto simp: found_in_def)
    with stable_under_evolves [OF each [OF r0 m0], of m] show ?thesis by simp
  qed
  show ?case
    using 1 s by (auto simp: wp_simps intro!: wp_quiet wp_run_monitors [OF all] Q split: sum.split)
qed

text \<open>On a table with a primary key every row evolves.\<close>

theorem monitorTxs_inv:
  assumes G: "geth_ok G" and pk: "pkey (tbl s)"
    and Q: "\<And>r s'. rows_evolve G (tbl s) (tbl s') \<Longrightarrow> Q r s'"
  shows "wp (monitorTxs G RT c) Q s"
proof (rule monitorTxs_stable [where I = "rows_evolve G (tbl s)"])
  fix r m
  assume r: "r \<in> set (tbl s)" and m: "scanMtx G r = Inr m"
  with pk have "lookup (tbl s) (mtx_key m) = Some r"
    using scanMtx_fields(1) [OF m] by (simp add: lookup_pkey)
  then show "stable_under G m (rows_evolve G (tbl s))"
    by (rule stable_rows_evolve [OF G _ m])
qed (simp_all add: Q)

end

end
