(* ===== verification/ProofCodec.thy ===== *)
theory ProofCodec
  imports HexText
begin

text \<open>
  \<open>etherman/proof.go\<close>: the fixed-size proof, an array of 24 arrays of 32 bytes, here a list of
  byte lists that \<open>wf_proof\<close> says has these lengths, and its two readers. \<open>ConvertProof\<close> decodes
  each row with \<open>encoding.DecodeBytes\<close> of zkevm-node, the parameter \<open>decode\<close>.
\<close>

section \<open>Definitions\<close>

type_synonym Proof = "byte list list"

definition HashLength :: nat where "HashLength = 32"

definition ProofLength :: nat where "ProofLength = 24"

definition empty_Proof :: Proof where
  "empty_Proof = replicate ProofLength (replicate HashLength 0)"

definition wf_proof :: "Proof \<Rightarrow> bool" where
  "wf_proof p \<longleftrightarrow> length p = ProofLength \<and> list_all (\<lambda>r. length r = HashLength) p"

definition Proof_Equals :: "Proof \<Rightarrow> Proof \<Rightarrow> bool" where
  "Proof_Equals p other = list_all (\<lambda>i. p ! i = other ! i) [0..<length p]"

fun fill_rows :: "nat list \<Rightarrow> byte list \<Rightarrow> Proof \<Rightarrow> Proof" where
  "fill_rows [] data proof = proof"
| "fill_rows (i # is) data proof =
     fill_rows is data
       (proof[i := go_copy (proof ! i) (take HashLength (drop (i * HashLength) data))])"

definition BytesToProof :: "byte list \<Rightarrow> goerr + Proof" where
  "BytesToProof data =
     (let expectedLength = ProofLength * HashLength
      in if length data \<noteq> expectedLength
         then Inl (Errorf (''invalid byte slice length. Expected length: '' @ dec expectedLength @
                           '', Actual length: '' @ dec (length data)))
         else Inr (fill_rows [0..<ProofLength] data empty_Proof))"

fun convert_rows :: "(string \<Rightarrow> goerr + byte list) \<Rightarrow> nat list \<Rightarrow> string \<Rightarrow> Proof \<Rightarrow> goerr + Proof" where
  "convert_rows decode [] p proof = Inr proof"
| "convert_rows decode (i # is) p proof =
     (let rawHashLength = 2 * HashLength;
          data = take rawHashLength (drop (i * rawHashLength) p)
      in case decode data of
           Inl err \<Rightarrow> Inl (Wrapf ''failed to decode proof, err: '' err [])
         | Inr row \<Rightarrow>
             (let aux = go_copy (replicate HashLength 0) row
              in convert_rows decode is p (proof[i := aux])))"

definition ConvertProof :: "(string \<Rightarrow> goerr + byte list) \<Rightarrow> string \<Rightarrow> goerr + Proof" where
  "ConvertProof decode p =
     (let expectedLength = ProofLength * HashLength * 2 + 2
      in if length p \<noteq> expectedLength
         then Inl (Errorf (''invalid proof length. Expected length: '' @ dec expectedLength @
                           '', Actual length '' @ dec (length p)))
         else let p = TrimPrefix p ''0x''
              in convert_rows decode [0..<ProofLength] p empty_Proof)"

section \<open>Lemmas\<close>

lemma wf_empty_Proof [simp]: "wf_proof empty_Proof"
  by (simp add: wf_proof_def empty_Proof_def list_all_iff)

lemma wf_proof_length [simp]: "wf_proof p \<Longrightarrow> length p = ProofLength"
  by (simp add: wf_proof_def)

lemma wf_proof_nth: "wf_proof p \<Longrightarrow> i < ProofLength \<Longrightarrow> length (p ! i) = HashLength"
  unfolding wf_proof_def list_all_length by metis

lemma wf_proof_update:
  assumes "wf_proof p" and "length r = HashLength"
  shows "wf_proof (p[i := r])"
proof -
  have "set (p[i := r]) \<subseteq> insert r (set p)"
    by (rule set_update_subset_insert)
  with assms show ?thesis
    by (auto simp: wf_proof_def list_all_iff)
qed

lemma wf_proof_copy: "wf_proof p \<Longrightarrow> i < ProofLength \<Longrightarrow> wf_proof (p[i := go_copy (p ! i) x])"
  by (rule wf_proof_update) (simp_all add: wf_proof_nth)

lemma wf_fill_rows:
  "wf_proof p \<Longrightarrow> \<forall>i \<in> set is. i < ProofLength \<Longrightarrow> wf_proof (fill_rows is data p)"
  by (induction "is" arbitrary: p) (simp_all add: wf_proof_copy)

lemma wf_convert_rows: "wf_proof p \<Longrightarrow> convert_rows decode is s p = Inr q \<Longrightarrow> wf_proof q"
proof (induction "is" arbitrary: p)
  case (Cons i "is")
  then obtain row
    where "convert_rows decode is s (p[i := go_copy (replicate HashLength 0) row]) = Inr q"
    by (auto simp: Let_def split: sum.splits)
  moreover have "wf_proof (p[i := go_copy (replicate HashLength 0) row])"
    using Cons.prems(1) by (rule wf_proof_update) simp
  ultimately show ?case by (rule Cons.IH [rotated])
qed simp

lemma fill_rows_nth:
  "distinct is \<Longrightarrow> \<forall>i \<in> set is. i < length p \<Longrightarrow> j < length p \<Longrightarrow>
     fill_rows is data p ! j =
       (if j \<in> set is then go_copy (p ! j) (take HashLength (drop (j * HashLength) data)) else p ! j)"
  by (induction "is" arbitrary: p) (auto simp: nth_list_update)

lemma length_fill_rows [simp]: "length (fill_rows is data p) = length p"
  by (induction "is" arbitrary: p) auto

text \<open>Row by row, the text of a byte string decodes to the rows of the byte string.\<close>

lemma EncodeToString_append: "EncodeToString (a @ b) = EncodeToString a @ EncodeToString b"
  by (simp add: EncodeToString_def)

lemma take_drop_EncodeToString:
  "take (2 * n) (drop (2 * k) (EncodeToString bs)) = EncodeToString (take n (drop k bs))"
proof -
  have drop: "drop (2 * k) (EncodeToString bs) = EncodeToString (drop k bs)" for k bs
  proof (cases "k \<le> length bs")
    case True
    then show ?thesis
      using EncodeToString_append [of "take k bs" "drop k bs"] by (simp add: append_eq_conv_conj)
  qed simp
  have take: "take (2 * n) (EncodeToString bs) = EncodeToString (take n bs)" for n bs
  proof (cases "n \<le> length bs")
    case True
    then show ?thesis
      using EncodeToString_append [of "take n bs" "drop n bs"] by (simp add: append_eq_conv_conj)
  qed simp
  show ?thesis by (simp add: drop take)
qed

definition decodes_hex :: "(string \<Rightarrow> goerr + byte list) \<Rightarrow> bool" where
  "decodes_hex decode \<longleftrightarrow> (\<forall>bs. decode (EncodeToString bs) = Inr bs)"

lemma decodes_hex_DecodeString [simp]: "decodes_hex DecodeString"
  by (simp add: decodes_hex_def)

lemma convert_rows_EncodeToString:
  assumes "decodes_hex decode"
    and "\<forall>i \<in> set is. (i + 1) * HashLength \<le> length bs"
    and "wf_proof p" and "\<forall>i \<in> set is. i < ProofLength"
  shows "convert_rows decode is (EncodeToString bs) p = Inr (fill_rows is bs p)"
  using assms(2-)
proof (induction "is" arbitrary: p)
  case Nil
  then show ?case by simp
next
  case (Cons i "is")
  let ?row = "take HashLength (drop (i * HashLength) bs)"
  have row: "length ?row = HashLength"
    using Cons.prems(1) by (auto simp: HashLength_def)
  have "take (2 * HashLength) (drop (i * (2 * HashLength)) (EncodeToString bs)) = EncodeToString ?row"
    using take_drop_EncodeToString [of HashLength "i * HashLength" bs] by (simp add: mult.left_commute)
  moreover have "go_copy (p ! i) ?row = ?row" and "go_copy (replicate HashLength 0) ?row = ?row"
    using row Cons.prems by (simp_all add: go_copy_full wf_proof_nth)
  moreover have "wf_proof (p[i := ?row])"
    using Cons.prems row by (intro wf_proof_update) simp_all
  ultimately show ?case
    using Cons assms(1) by (simp add: Let_def decodes_hex_def)
qed

section \<open>Properties\<close>

lemma BytesToProof_Inr:
  "BytesToProof bs = Inr p \<longleftrightarrow>
     length bs = ProofLength * HashLength \<and> p = fill_rows [0..<ProofLength] bs empty_Proof"
  by (auto simp: BytesToProof_def Let_def)

lemma rows_nth:
  assumes "length bs = ProofLength * HashLength" and "j < ProofLength"
  shows "fill_rows [0..<ProofLength] bs empty_Proof ! j = take HashLength (drop (j * HashLength) bs)"
proof -
  have "(j + 1) * HashLength \<le> ProofLength * HashLength"
    using assms(2) by (intro mult_le_mono1) simp
  then have "length (take HashLength (drop (j * HashLength) bs)) = HashLength"
    using assms(1) by (simp add: algebra_simps)
  then show ?thesis
    using assms(2) by (subst fill_rows_nth) (simp_all add: empty_Proof_def go_copy_full)
qed

lemma concat_chunks: "length bs = n * k \<Longrightarrow> concat (map (\<lambda>j. take k (drop (j * k) bs)) [0..<n]) = bs"
proof (induction n arbitrary: bs)
  case (Suc n)
  have "take k (drop (j * k) bs) = take k (drop (j * k) (take (n * k) bs))" if "j < n" for j
  proof -
    have "Suc j * k \<le> n * k"
      using that by (intro mult_le_mono1) simp
    then have "k \<le> n * k - j * k" by simp
    then show ?thesis
      by (simp add: drop_take min_absorb1)
  qed
  then have eq: "map (\<lambda>j. take k (drop (j * k) bs)) [0..<n] =
      map (\<lambda>j. take k (drop (j * k) (take (n * k) bs))) [0..<n]"
    by (intro map_cong refl) auto
  have "concat (map (\<lambda>j. take k (drop (j * k) bs)) [0..<Suc n]) =
      concat (map (\<lambda>j. take k (drop (j * k) (take (n * k) bs))) [0..<n]) @ take k (drop (n * k) bs)"
    unfolding upt_Suc map_append concat_append using eq by (simp only: le0 if_True map_append concat_append) simp
  also have "\<dots> = take (n * k) bs @ take k (drop (n * k) bs)"
    using Suc by simp
  also have "\<dots> = bs"
    using Suc.prems by simp
  finally show ?case .
qed simp

text \<open>C17. \<open>BytesToProof\<close> accepts exactly 768 bytes, and the rows of the proof, one after the other,
  are those bytes.\<close>

theorem BytesToProof_rows:
  "(case BytesToProof bs of
      Inl e \<Rightarrow> length bs \<noteq> ProofLength * HashLength
    | Inr p \<Rightarrow> length bs = ProofLength * HashLength \<and> wf_proof p \<and> concat p = bs)"
proof (cases "length bs = ProofLength * HashLength")
  case True
  let ?p = "fill_rows [0..<ProofLength] bs empty_Proof"
  have "?p = map (\<lambda>j. take HashLength (drop (j * HashLength) bs)) [0..<ProofLength]"
    using rows_nth [OF True] by (intro nth_equalityI) (simp_all add: empty_Proof_def)
  then have "concat ?p = bs"
    using concat_chunks [OF True] by simp
  with True show ?thesis
    using BytesToProof_Inr [of bs ?p] by (simp add: wf_fill_rows)
qed (simp add: BytesToProof_def Let_def)

text \<open>C16. Reading a proof from the text of its bytes, as \<open>BuildTrustedVerifyBatchesTxData\<close> does, gives
  the same rows as reading the bytes, for a row decoder that undoes \<open>hex.EncodeToString\<close>; it fails
  exactly when the bytes have the wrong length.\<close>

theorem ConvertProof_agrees:
  assumes "decodes_hex decode"
  shows "ConvertProof decode (ArgBytes_Hex bs) = Inr p \<longleftrightarrow> BytesToProof bs = Inr p"
proof (cases "length bs = ProofLength * HashLength")
  case True
  have "convert_rows decode [0..<ProofLength] (EncodeToString bs) empty_Proof =
      Inr (fill_rows [0..<ProofLength] bs empty_Proof)"
    using True by (intro convert_rows_EncodeToString assms) (auto intro: mult_le_mono1 simp del: mult_Suc)
  with True show ?thesis
    by (auto simp: ConvertProof_def ArgBytes_Hex_eq Let_def BytesToProof_Inr)
qed (auto simp: ConvertProof_def ArgBytes_Hex_eq BytesToProof_def Let_def)

lemma ConvertProof_agrees_witness:
  "ConvertProof DecodeString (ArgBytes_Hex (replicate 768 7)) =
     Inr (fill_rows [0..<ProofLength] (replicate 768 7) empty_Proof)"
  using ConvertProof_agrees [of DecodeString "replicate 768 7"
      "fill_rows [0..<ProofLength] (replicate 768 7) empty_Proof"]
  by (simp add: BytesToProof_Inr ProofLength_def HashLength_def)

text \<open>C19. \<open>Equals\<close> of two proofs of the fixed size is equality.\<close>

theorem Proof_Equals_iff:
  assumes "wf_proof p" and "wf_proof q"
  shows "Proof_Equals p q \<longleftrightarrow> p = q"
  using assms by (auto simp: Proof_Equals_def list_all_iff intro: nth_equalityI)

lemma Proof_Equals_iff_witness: "\<not> Proof_Equals empty_Proof (empty_Proof[3 := replicate HashLength 1])"
proof -
  have "wf_proof (empty_Proof[3 := replicate HashLength 1])"
    by (simp add: wf_proof_update)
  moreover have "empty_Proof ! 3 \<noteq> (empty_Proof[3 := replicate HashLength 1]) ! 3"
    by (simp add: empty_Proof_def ProofLength_def HashLength_def)
  then have "empty_Proof \<noteq> empty_Proof[3 := replicate HashLength 1]"
    by metis
  ultimately show ?thesis
    using Proof_Equals_iff [of empty_Proof "empty_Proof[3 := replicate HashLength 1]"] by simp
qed

text \<open>C18. \<open>ConvertProof\<close> counts 1538 characters whether or not two of them are the prefix \<open>0x\<close>: 1536
  digits followed by any two characters are accepted, and the two are ignored.\<close>

theorem ConvertProof_ignores_tail:
  assumes "decodes_hex decode" and "length bs = ProofLength * HashLength" and "length tail = 2"
    and "take 2 (EncodeToString bs) \<noteq> ''0x''"
  shows "ConvertProof decode (EncodeToString bs @ tail) = ConvertProof decode (ArgBytes_Hex bs)"
proof -
  have cut: "convert_rows decode is (s @ tail) p = convert_rows decode is s p"
    if "\<forall>i \<in> set is. (i + 1) * (2 * HashLength) \<le> length s" for "is" s p
    using that
  proof (induction "is" arbitrary: p)
    case (Cons i "is")
    then have "take (2 * HashLength) (drop (i * (2 * HashLength)) (s @ tail)) =
        take (2 * HashLength) (drop (i * (2 * HashLength)) s)"
      by simp
    with Cons show ?case by (simp add: Let_def split: sum.split)
  qed simp
  have bound: "\<forall>i \<in> set [0..<ProofLength]. (i + 1) * (2 * HashLength) \<le> length (EncodeToString bs)"
    using assms(2) by (auto simp: ProofLength_def HashLength_def)
  have "take 2 (EncodeToString bs @ tail) = take 2 (EncodeToString bs)"
    using assms(2) by (simp add: ProofLength_def HashLength_def)
  with assms(4) have "take (length ''0x'') (EncodeToString bs @ tail) \<noteq> ''0x''"
    by (simp del: take_append add: numeral_2_eq_2)
  then have "TrimPrefix (EncodeToString bs @ tail) ''0x'' = EncodeToString bs @ tail"
    unfolding TrimPrefix_def by (rule if_not_P)
  with cut [OF bound] assms(2,3) show ?thesis
    by (simp add: ConvertProof_def ArgBytes_Hex_eq Let_def)
qed

lemma ConvertProof_ignores_tail_witness:
  "ConvertProof DecodeString (EncodeToString (replicate 768 7) @ ''zz'') =
     ConvertProof DecodeString (ArgBytes_Hex (replicate 768 7))"
proof (rule ConvertProof_ignores_tail)
  have "replicate 768 (7 :: byte) = 7 # replicate 767 7"
    by (simp add: replicate_Suc [symmetric] del: replicate_Suc)
  then show "take 2 (EncodeToString (replicate 768 7)) \<noteq> ''0x''"
    by (simp add: EncodeToString_Cons hex_char_def)
qed (simp_all add: ProofLength_def HashLength_def)

end
