(* ===== verification/Etherman.thy ===== *)
theory Etherman
  imports Interfaces ProofCodec Config
begin

text \<open>
  \<open>etherman/etherman.go\<close>: the access to L1. The node (\<open>IEthereumClient\<close>), the contract bindings
  that abigen generated in zkevm-node, \<open>abi.Pack\<close>, the transactor that signs, and the two
  functions of zkevm-node's \<open>operations\<close> are records of functions over the state \<open>'w\<close> of the
  world; the methods of \<open>Etherman\<close> are defined on top of them. The node's documentation says that
  a lookup that finds nothing returns the error \<open>ethereum.NotFound\<close>, so a lookup has a value
  exactly when it has no error.
\<close>

section \<open>What the package calls\<close>

record 'w IEthereumClient =
  eth_TransactionReceipt :: "hash \<Rightarrow> ('w, goerr + Receipt) state"
  eth_TransactionByHash :: "hash \<Rightarrow> ('w, goerr + transaction \<times> bool) state"
  eth_PendingNonceAt :: "address \<Rightarrow> ('w, goerr + u64) state"
  eth_NonceAt :: "address \<Rightarrow> int option \<Rightarrow> ('w, goerr + u64) state"
  eth_SendTransaction :: "transaction \<Rightarrow> ('w, goerr option) state"
  eth_SuggestGasPrice :: "('w, goerr + int) state"
  eth_EstimateGas :: "CallMsg \<Rightarrow> ('w, goerr + u64) state"
  eth_CallContract :: "CallMsg \<Rightarrow> int option \<Rightarrow> ('w, byte list \<times> goerr option) state"
  eth_BlockByNumber :: "int option \<Rightarrow> ('w, goerr + EthBlock) state"

text \<open>\<open>bind.TransactOpts\<close>: the account and its signing function.\<close>

record 'w TransactOpts =
  auth_From :: address
  auth_Signer :: "address \<Rightarrow> transaction \<Rightarrow> ('w, goerr + transaction) state"

text \<open>The arguments that \<open>abi.Pack\<close> encodes, and a contract that a binding is attached to.\<close>

datatype abi_value =
    Abi_uint32 u32
  | Abi_uint64 u64
  | Abi_bytes32 "byte list"
  | Abi_address address
  | Abi_proof Proof

type_synonym abi = "string \<Rightarrow> abi_value list \<Rightarrow> goerr + byte list"

datatype bound_contract = Bound address

record RollupData =
  RollupContract :: address

record 'w zkevm_node =
  rollupmanager_GetAbi :: "goerr + abi"
  NewPolygonrollupmanager :: "address \<Rightarrow> goerr + bound_contract"
  RollupIDToRollupData :: "bound_contract \<Rightarrow> u32 \<Rightarrow> ('w, goerr + RollupData) state"
  NewPolygonzkevm :: "address \<Rightarrow> goerr + bound_contract"
  TrustedSequencer :: "bound_contract \<Rightarrow> ('w, goerr + address) state"
  operations_WaitTxToBeMined :: "transaction \<Rightarrow> nat \<Rightarrow> ('w, goerr option) state"
  operations_RevertReason :: "transaction \<Rightarrow> int option \<Rightarrow> ('w, goerr + string) state"
  encoding_DecodeBytes :: "string \<Rightarrow> goerr + byte list"

section \<open>The type\<close>

record 'w Etherman =
  ethClient :: "'w IEthereumClient"
  auth :: "'w TransactOpts"
  em_config :: Config

definition Etherman_New ::
    "'w IEthereumClient \<Rightarrow> 'w TransactOpts \<Rightarrow> Config \<Rightarrow> goerr + 'w Etherman" where
  "Etherman_New client opts cfg = Inr \<lparr>ethClient = client, auth = opts, em_config = cfg\<rparr>"

section \<open>Contract calls\<close>

definition getRollupContractAddress ::
    "'w zkevm_node \<Rightarrow> 'w Etherman \<Rightarrow> u32 \<Rightarrow> ('w, goerr + address) state" where
  "getRollupContractAddress L e rollupId =
     (case NewPolygonrollupmanager L (RollupManagerContract (cfg_L1 (em_config e))) of
        Inl err \<Rightarrow> ret (Inl (Wrapf ''error instantiating 'PolygonRollupManager' contract: '' err []))
      | Inr contract \<Rightarrow> do {
          r \<leftarrow> RollupIDToRollupData L contract rollupId;
          case r of
            Inl err \<Rightarrow> ret (Inl (Wrapf ''error receiving the 'RollupData' struct: '' err []))
          | Inr rollupData \<Rightarrow> ret (Inr (RollupContract rollupData)) })"

definition getTrustedSequencerAddress ::
    "'w zkevm_node \<Rightarrow> 'w Etherman \<Rightarrow> u32 \<Rightarrow> ('w, goerr + address) state" where
  "getTrustedSequencerAddress L e rollupId = do {
     r \<leftarrow> getRollupContractAddress L e rollupId;
     case r of
       Inl err \<Rightarrow>
         ret (Inl (Wrapf ''error requesting the 'PolygonZkEvm' contract address from 'PolygonRollupManager': '' err []))
     | Inr rollupContractAddress \<Rightarrow>
         (case NewPolygonzkevm L rollupContractAddress of
            Inl err \<Rightarrow> ret (Inl (Wrapf ''error instantiating 'PolygonZkEvm' contract: '' err []))
          | Inr contract \<Rightarrow> TrustedSequencer L contract) }"

definition Etherman_GetSequencerAddr ::
    "'w zkevm_node \<Rightarrow> 'w Etherman \<Rightarrow> u32 \<Rightarrow> ('w, goerr + address) state" where
  "Etherman_GetSequencerAddr L e rollupId = do {
     r \<leftarrow> getTrustedSequencerAddress L e rollupId;
     case r of Inl err \<Rightarrow> ret (Inl err) | Inr address \<Rightarrow> ret (Inr address) }"

definition Etherman_BuildTrustedVerifyBatchesTxData ::
    "'w zkevm_node \<Rightarrow> 'w Etherman \<Rightarrow> u64 \<Rightarrow> u64 \<Rightarrow> ZKP \<Rightarrow> u32 \<Rightarrow> ('w, goerr + byte list) state" where
  "Etherman_BuildTrustedVerifyBatchesTxData L e lastVerifiedBatch newVerifiedBatch zkp rollupId =
     (let newLocalExitRoot = go_copy (replicate HashLength 0) (hash_Bytes (NewLocalExitRoot zkp));
          newStateRoot = go_copy (replicate HashLength 0) (hash_Bytes (NewStateRoot zkp))
      in case ConvertProof (encoding_DecodeBytes L) (ArgBytes_Hex (zkp_Proof zkp)) of
           Inl err \<Rightarrow> ret (Inl err)
         | Inr finalProof \<Rightarrow>
             let pendStateNum = (0 :: u64)
             in case rollupmanager_GetAbi L of
                  Inl err \<Rightarrow> ret (Inl err)
                | Inr Pack \<Rightarrow> do {
                    r \<leftarrow> getTrustedSequencerAddress L e rollupId;
                    case r of
                      Inl err \<Rightarrow> ret (Inl err)
                    | Inr sa \<Rightarrow>
                        ret (Pack ''verifyBatchesTrustedAggregator''
                          [Abi_uint32 rollupId, Abi_uint64 pendStateNum,
                           Abi_uint64 lastVerifiedBatch, Abi_uint64 newVerifiedBatch,
                           Abi_bytes32 newLocalExitRoot, Abi_bytes32 newStateRoot,
                           Abi_address sa, Abi_proof finalProof]) })"

definition Etherman_CallContract ::
    "'w Etherman \<Rightarrow> CallMsg \<Rightarrow> int option \<Rightarrow> ('w, byte list \<times> goerr option) state" where
  "Etherman_CallContract e call blockNumber = eth_CallContract (ethClient e) call blockNumber"

section \<open>Transactions\<close>

definition Etherman_CheckTxWasMined ::
    "'w Etherman \<Rightarrow> hash \<Rightarrow> ('w, bool \<times> Receipt option \<times> goerr option) state" where
  "Etherman_CheckTxWasMined e txHash = do {
     r \<leftarrow> eth_TransactionReceipt (ethClient e) txHash;
     case r of
       Inl err \<Rightarrow> if errors_Is err EthNotFound then ret (False, None, None) else ret (False, None, Some err)
     | Inr receipt \<Rightarrow> ret (True, Some receipt, None) }"

definition Etherman_PendingNonce :: "'w Etherman \<Rightarrow> address \<Rightarrow> ('w, goerr + u64) state" where
  "Etherman_PendingNonce e account = eth_PendingNonceAt (ethClient e) account"

definition Etherman_CurrentNonce :: "'w Etherman \<Rightarrow> address \<Rightarrow> ('w, goerr + u64) state" where
  "Etherman_CurrentNonce e account = eth_NonceAt (ethClient e) account None"

definition Etherman_GetTx ::
    "'w Etherman \<Rightarrow> hash \<Rightarrow> ('w, transaction option \<times> bool \<times> goerr option) state" where
  "Etherman_GetTx e txHash = do {
     r \<leftarrow> eth_TransactionByHash (ethClient e) txHash;
     case r of
       Inl err \<Rightarrow> ret (None, False, Some err)
     | Inr (tx, pending) \<Rightarrow> ret (Some tx, pending, None) }"

definition Etherman_GetTxReceipt ::
    "'w Etherman \<Rightarrow> hash \<Rightarrow> ('w, Receipt option \<times> goerr option) state" where
  "Etherman_GetTxReceipt e txHash = do {
     r \<leftarrow> eth_TransactionReceipt (ethClient e) txHash;
     case r of Inl err \<Rightarrow> ret (None, Some err) | Inr receipt \<Rightarrow> ret (Some receipt, None) }"

definition Etherman_WaitTxToBeMined ::
    "'w zkevm_node \<Rightarrow> transaction \<Rightarrow> nat \<Rightarrow> ('w, goerr + bool) state" where
  "Etherman_WaitTxToBeMined L tx timeout = do {
     err \<leftarrow> operations_WaitTxToBeMined L tx timeout;
     if is_err err DeadlineExceeded then ret (Inr False)
     else case err of Some e \<Rightarrow> ret (Inl e) | None \<Rightarrow> ret (Inr True) }"

definition Etherman_SendTx :: "'w Etherman \<Rightarrow> transaction \<Rightarrow> ('w, goerr option) state" where
  "Etherman_SendTx e tx = eth_SendTransaction (ethClient e) tx"

definition Etherman_SuggestedGasPrice :: "'w Etherman \<Rightarrow> ('w, goerr + int) state" where
  "Etherman_SuggestedGasPrice e = eth_SuggestGasPrice (ethClient e)"

definition Etherman_EstimateGas ::
    "'w Etherman \<Rightarrow> address \<Rightarrow> address option \<Rightarrow> int option \<Rightarrow> byte list option \<Rightarrow>
     ('w, goerr + u64) state" where
  "Etherman_EstimateGas e from to value data =
     eth_EstimateGas (ethClient e) \<lparr>msg_From = from, msg_To = to, msg_Value = value, msg_Data = data\<rparr>"

text \<open>The sender argument is not looked at: the transactor signs for its own account.\<close>

definition Etherman_SignTx ::
    "'w Etherman \<Rightarrow> address \<Rightarrow> transaction \<Rightarrow> ('w, goerr + transaction) state" where
  "Etherman_SignTx e sender tx = auth_Signer (auth e) (auth_From (auth e)) tx"

definition Etherman_GetRevertMessage ::
    "geth \<Rightarrow> 'w zkevm_node \<Rightarrow> 'w Etherman \<Rightarrow> transaction option \<Rightarrow> ('w, string \<times> goerr option) state" where
  "Etherman_GetRevertMessage G L e tx =
     (case tx of
        None \<Rightarrow> ret ([], None)
      | Some t \<Rightarrow> do {
          r \<leftarrow> eth_TransactionReceipt (ethClient e) (tx_Hash G t);
          case r of
            Inl err \<Rightarrow> ret ([], Some err)
          | Inr receipt \<Rightarrow>
              if rcpt_Status receipt = ReceiptStatusFailed then do {
                m \<leftarrow> operations_RevertReason L t (rcpt_BlockNumber receipt);
                case m of
                  Inl err \<Rightarrow> ret ([], Some err)
                | Inr revertMessage \<Rightarrow> ret (revertMessage, None) }
              else ret ([], None) })"

definition Etherman_GetLastBlock :: "'w Etherman \<Rightarrow> dbtx \<Rightarrow> ('w, goerr + Block) state" where
  "Etherman_GetLastBlock e dbTx = do {
     r \<leftarrow> eth_BlockByNumber (ethClient e) None;
     case r of
       Inl err \<Rightarrow> ret (Inl err)
     | Inr block \<Rightarrow>
         ret (Inr
           \<lparr>sb_BlockNumber = blk_NumberU64 block,
            sb_BlockHash = blk_Hash block,
            sb_ParentHash = blk_ParentHash block,
            sb_ReceivedAt = sint (blk_Time block)\<rparr>) }"

section \<open>The interfaces it implements\<close>

definition IEtherman_of :: "geth \<Rightarrow> 'w zkevm_node \<Rightarrow> 'w Etherman \<Rightarrow> 'w IEtherman" where
  "IEtherman_of G L e =
     \<lparr>em_GetTx = Etherman_GetTx e,
      em_GetTxReceipt = Etherman_GetTxReceipt e,
      em_WaitTxToBeMined = Etherman_WaitTxToBeMined L,
      em_SendTx = Etherman_SendTx e,
      em_PendingNonce = Etherman_PendingNonce e,
      em_SuggestedGasPrice = Etherman_SuggestedGasPrice e,
      em_EstimateGas = Etherman_EstimateGas e,
      em_CheckTxWasMined = Etherman_CheckTxWasMined e,
      em_SignTx = Etherman_SignTx e,
      em_GetRevertMessage = Etherman_GetRevertMessage G L e,
      em_GetSequencerAddr = Etherman_GetSequencerAddr L e,
      em_BuildTrustedVerifyBatchesTxData = Etherman_BuildTrustedVerifyBatchesTxData L e,
      em_CallContract = Etherman_CallContract e,
      em_GetLastBlock = Etherman_GetLastBlock e\<rparr>"

definition StateInterface_of :: "'s IEtherman \<Rightarrow> 's StateInterface" where
  "StateInterface_of E = \<lparr>si_GetLastBlock = em_GetLastBlock E\<rparr>"

section \<open>Properties\<close>

text \<open>C26. The calldata of a certificate: when it is built at all, it is the encoding of the method
  \<open>verifyBatchesTrustedAggregator\<close> with the rollup, state number 0, both batch numbers, the two roots
  as bytes, the sequencer of the rollup, and the 24 rows of the proof bytes.\<close>

theorem BuildTrustedVerifyBatchesTxData_packs:
  assumes "decodes_hex (encoding_DecodeBytes L)"
    and run: "fst (run_state (Etherman_BuildTrustedVerifyBatchesTxData L e lvb nvb zkp rollupId) s) = Inr data"
  shows "\<exists>Pack sa rows. rollupmanager_GetAbi L = Inr Pack \<and>
     fst (run_state (getTrustedSequencerAddress L e rollupId) s) = Inr sa \<and>
     wf_proof rows \<and> concat rows = zkp_Proof zkp \<and>
     Pack ''verifyBatchesTrustedAggregator''
       [Abi_uint32 rollupId, Abi_uint64 0, Abi_uint64 lvb, Abi_uint64 nvb,
        Abi_bytes32 (hash_Bytes (NewLocalExitRoot zkp)), Abi_bytes32 (hash_Bytes (NewStateRoot zkp)),
        Abi_address sa, Abi_proof rows] = Inr data"
proof -
  have copy: "go_copy (replicate HashLength 0) (hash_Bytes h) = hash_Bytes h" for h
    by (simp add: go_copy_full HashLength_def)
  from run obtain rows where conv: "ConvertProof (encoding_DecodeBytes L) (ArgBytes_Hex (zkp_Proof zkp)) = Inr rows"
    by (auto simp: Etherman_BuildTrustedVerifyBatchesTxData_def Let_def split: sum.splits)
  then have "BytesToProof (zkp_Proof zkp) = Inr rows"
    using ConvertProof_agrees [OF assms(1)] by simp
  then have "wf_proof rows" and "concat rows = zkp_Proof zkp"
    using BytesToProof_rows [of "zkp_Proof zkp"] by simp_all
  with run conv show ?thesis
    by (auto simp: Etherman_BuildTrustedVerifyBatchesTxData_def Let_def copy split: sum.splits prod.splits)
qed

definition sample_node :: "unit zkevm_node" where
  "sample_node =
     \<lparr>rollupmanager_GetAbi = Inr (\<lambda>name args. Inr [word_of_nat (length args)]),
      NewPolygonrollupmanager = (\<lambda>a. Inr (Bound a)),
      RollupIDToRollupData = (\<lambda>c r. ret (Inr \<lparr>RollupContract = 4\<rparr>)),
      NewPolygonzkevm = (\<lambda>a. Inr (Bound a)),
      TrustedSequencer = (\<lambda>c. ret (Inr 5)),
      operations_WaitTxToBeMined = (\<lambda>t d. ret None),
      operations_RevertReason = (\<lambda>t b. ret (Inr [])),
      encoding_DecodeBytes = DecodeString\<rparr>"

definition sample_etherman :: "unit Etherman" where
  "sample_etherman =
     \<lparr>ethClient =
        \<lparr>eth_TransactionReceipt = (\<lambda>h. ret (Inl (Errorf ''offline''))),
         eth_TransactionByHash = (\<lambda>h. ret (Inl (Errorf ''offline''))),
         eth_PendingNonceAt = (\<lambda>a. ret (Inr 0)), eth_NonceAt = (\<lambda>a b. ret (Inr 0)),
         eth_SendTransaction = (\<lambda>t. ret None), eth_SuggestGasPrice = ret (Inr 1),
         eth_EstimateGas = (\<lambda>m. ret (Inr 21000)), eth_CallContract = (\<lambda>m b. ret ([], None)),
         eth_BlockByNumber = (\<lambda>b. ret (Inl (Errorf ''offline'')))\<rparr>,
      auth = \<lparr>auth_From = 7, auth_Signer = (\<lambda>a t. ret (Inr t))\<rparr>,
      em_config = DefaultValues\<rparr>"

lemma BuildTrustedVerifyBatchesTxData_packs_witness:
  "\<exists>rows. wf_proof rows \<and> concat rows = replicate 768 7 \<and>
     fst (run_state (Etherman_BuildTrustedVerifyBatchesTxData sample_node sample_etherman 1 2
       \<lparr>NewStateRoot = 1, NewLocalExitRoot = 2, zkp_Proof = replicate 768 7\<rparr> 1) ()) = Inr [8]"
proof -
  let ?zkp = "\<lparr>NewStateRoot = 1, NewLocalExitRoot = 2, zkp_Proof = replicate 768 7\<rparr>"
  have dec: "decodes_hex (encoding_DecodeBytes sample_node)"
    by (simp add: sample_node_def)
  have "BytesToProof (replicate 768 7) = Inr (fill_rows [0..<ProofLength] (replicate 768 7) empty_Proof)"
    by (simp add: BytesToProof_Inr ProofLength_def HashLength_def)
  then have conv: "ConvertProof (encoding_DecodeBytes sample_node) (ArgBytes_Hex (replicate 768 7)) =
      Inr (fill_rows [0..<ProofLength] (replicate 768 7) empty_Proof)"
    using ConvertProof_agrees [OF dec] by simp
  have sa: "run_state (getTrustedSequencerAddress sample_node sample_etherman 1) () = (Inr 5, ())"
    by (simp add: getTrustedSequencerAddress_def getRollupContractAddress_def sample_node_def)
  have abi: "rollupmanager_GetAbi sample_node = Inr (\<lambda>name args. Inr [word_of_nat (length args)])"
    by (simp add: sample_node_def)
  have run: "fst (run_state (Etherman_BuildTrustedVerifyBatchesTxData sample_node sample_etherman 1 2 ?zkp 1) ()) = Inr [8]"
    by (simp add: Etherman_BuildTrustedVerifyBatchesTxData_def conv sa abi Let_def)
  from BuildTrustedVerifyBatchesTxData_packs [OF dec run] run show ?thesis
    by auto
qed

text \<open>Waiting for a transaction: running into the deadline is the answer "not mined" and no error,
  any other error is reported, and otherwise the answer is "mined".\<close>

theorem WaitTxToBeMined_deadline:
  "fst (run_state (Etherman_WaitTxToBeMined L tx timeout) s) =
     (case fst (run_state (operations_WaitTxToBeMined L tx timeout) s) of
        None \<Rightarrow> Inr True
      | Some err \<Rightarrow> if errors_Is err DeadlineExceeded then Inr False else Inl err)"
  by (auto simp: Etherman_WaitTxToBeMined_def split: option.splits prod.splits)

text \<open>A receipt lookup that finds nothing means "not mined" and no error; every other error of the
  node is passed on, and a receipt means "mined".\<close>

theorem CheckTxWasMined_not_found:
  "fst (run_state (Etherman_CheckTxWasMined e h) s) =
     (case fst (run_state (eth_TransactionReceipt (ethClient e) h) s) of
        Inr receipt \<Rightarrow> (True, Some receipt, None)
      | Inl err \<Rightarrow> (False, None, if errors_Is err EthNotFound then None else Some err))"
  by (auto simp: Etherman_CheckTxWasMined_def split: sum.splits prod.splits)

end
