(* ===== verification/Executor.thy ===== *)
theory Executor
  imports Interfaces Config
begin

text \<open>
  \<open>interop/executor.go\<close>: the checks a certificate passes before it is settled on L1, its
  settlement through the transaction manager, and the query for its status. The meter is
  \<open>rt_count\<close> of the runtime; creating a counter with one of the fixed names does not fail. The
  text of an error that the code formats from other values is kept as far as those values are
  part of the model; hashes and addresses are printed by go-ethereum.
\<close>

section \<open>The type\<close>

record 's Executor =
  interopAdminAddr :: address
  ex_config :: Config
  ex_ethTxMan :: "'s IEthTxManager"
  ex_etherman :: "'s IEtherman"
  ZkEVMClientCreator :: "'s IZkEVMClientClientCreator"

text \<open>\<open>New\<close>; the zkevm-node client creator is code outside the repository.\<close>

definition Executor_New ::
    "'s IZkEVMClientClientCreator \<Rightarrow> Config \<Rightarrow> address \<Rightarrow> 's IEtherman \<Rightarrow> 's IEthTxManager \<Rightarrow>
     's Executor" where
  "Executor_New creator cfg adminAddr ethMan ethTxManager =
     \<lparr>interopAdminAddr = adminAddr, ex_config = cfg, ex_ethTxMan = ethTxManager,
      ex_etherman = ethMan, ZkEVMClientCreator = creator\<rparr>"

definition ethTxManOwner :: string where
  "ethTxManOwner = ''interop''"

section \<open>Checks\<close>

definition Executor_CheckTx :: "'s runtime \<Rightarrow> 's Executor \<Rightarrow> SignedTx \<Rightarrow> ('s, goerr option) state" where
  "Executor_CheckTx RT e stx =
     (case cfg_FullNodeRPCs (ex_config e) (RollupID (stx_Tx stx)) of
        None \<Rightarrow> ret (Some (Errorf (''there is no RPC registered for '' @ dec (unat (RollupID (stx_Tx stx))))))
      | Some _ \<Rightarrow> do {
          rt_count RT ''check_tx'' (Some (RollupID (stx_Tx stx)));
          ret None })"

definition Executor_verifyZKP :: "'s runtime \<Rightarrow> 's Executor \<Rightarrow> SignedTx \<Rightarrow> ('s, goerr option) state" where
  "Executor_verifyZKP RT e stx = do {
     r \<leftarrow> em_BuildTrustedVerifyBatchesTxData (ex_etherman e)
            (LastVerifiedBatch (stx_Tx stx)) (NewVerifiedBatch (stx_Tx stx))
            (tx_ZKP (stx_Tx stx)) (RollupID (stx_Tx stx));
     case r of
       Inl err \<Rightarrow> ret (Some (Errorf (''failed to build verify ZKP tx: '' @ Error err)))
     | Inr l1TxData \<Rightarrow> do {
         (res, err) \<leftarrow> em_CallContract (ex_etherman e)
           \<lparr>msg_From = interopAdminAddr e,
            msg_To = Some (RollupManagerContract (cfg_L1 (ex_config e))),
            msg_Value = None,
            msg_Data = Some l1TxData\<rparr> None;
         case err of
           Some err \<Rightarrow>
             ret (Some (Errorf (''failed to call verify ZKP response: '' @
                    map (\<lambda>b. char_of (unat b)) res @ '', error: '' @ Error err)))
         | None \<Rightarrow> do {
             rt_count RT ''verify_zkp'' (Some (RollupID (stx_Tx stx)));
             ret None } } }"

definition Executor_verifySignature ::
    "geth \<Rightarrow> 's runtime \<Rightarrow> 's Executor \<Rightarrow> SignedTx \<Rightarrow> ('s, goerr option) state" where
  "Executor_verifySignature G RT e stx =
     (case SignedTx_Signer G stx of
        Inl err \<Rightarrow> ret (Some (Errorf ''failed to get signer''))
      | Inr signer \<Rightarrow> do {
          err \<leftarrow>
            (case cfg_ProofSigners (ex_config e) (RollupID (stx_Tx stx)) of
               Some authorizedProofSigner \<Rightarrow>
                 ret (if authorizedProofSigner \<noteq> signer
                      then Some (Errorf (''unexpected signer: expected authorized signer '' @
                             addr_String G authorizedProofSigner @ '', but got '' @ addr_String G signer))
                      else None)
             | None \<Rightarrow> do {
                 r \<leftarrow> em_GetSequencerAddr (ex_etherman e) (RollupID (stx_Tx stx));
                 ret (case r of
                        Inl err \<Rightarrow> Some (Errorf ''failed to get admin from L1'')
                      | Inr sequencer \<Rightarrow>
                          if sequencer \<noteq> signer
                          then Some (Errorf (''unexpected signer: expected sequencer '' @
                                 addr_String G sequencer @ '' but got '' @ addr_String G signer))
                          else None) });
          case err of
            Some err \<Rightarrow> ret (Some err)
          | None \<Rightarrow> do {
              rt_count RT ''verify_signature'' (Some (RollupID (stx_Tx stx)));
              ret None } })"

definition Executor_Verify ::
    "geth \<Rightarrow> 's runtime \<Rightarrow> 's Executor \<Rightarrow> SignedTx \<Rightarrow> ('s, goerr option) state" where
  "Executor_Verify G RT e stx = do {
     err \<leftarrow> Executor_verifyZKP RT e stx;
     case err of
       Some err \<Rightarrow> ret (Some (Errorf (''failed to verify ZKP: '' @ Error err)))
     | None \<Rightarrow> Executor_verifySignature G RT e stx }"

text \<open>
  The number of the batch asked for is \<open>big.NewInt(int64(NewVerifiedBatch))\<close>: signed. A rollup
  that is not in the map gives the empty URL.
\<close>

definition Executor_Execute ::
    "geth \<Rightarrow> 's runtime \<Rightarrow> 's Executor \<Rightarrow> SignedTx \<Rightarrow> ('s, goerr option) state" where
  "Executor_Execute G RT e stx = do {
     let url = (case cfg_FullNodeRPCs (ex_config e) (RollupID (stx_Tx stx)) of None \<Rightarrow> [] | Some u \<Rightarrow> u);
     let zkEVMClient = zk_NewClient (ZkEVMClientCreator e) url;
     r \<leftarrow> zk_BatchByNumber zkEVMClient (sint (NewVerifiedBatch (stx_Tx stx)));
     case r of
       Inl err \<Rightarrow> ret (Some (Errorf (''failed to get batch from our node, error: '' @ Error err)))
     | Inr None \<Rightarrow>
         ret (Some (Errorf (''unable to perform soundness check because batch with number '' @
                dec (unat (NewVerifiedBatch (stx_Tx stx))) @ '' is undefined'')))
     | Inr (Some batch) \<Rightarrow>
         if StateRoot batch \<noteq> NewStateRoot (tx_ZKP (stx_Tx stx)) \<or>
            LocalExitRoot batch \<noteq> NewLocalExitRoot (tx_ZKP (stx_Tx stx))
         then ret (Some (Errorf (''mismatch detected, expected local exit root: '' @
                hash_String G (NewLocalExitRoot (tx_ZKP (stx_Tx stx))) @ '' actual: '' @
                hash_String G (LocalExitRoot batch) @ ''. expected state root: '' @
                hash_String G (NewStateRoot (tx_ZKP (stx_Tx stx))) @ '' actual: '' @
                hash_String G (StateRoot batch))))
         else do {
           rt_count RT ''execute'' (Some (RollupID (stx_Tx stx)));
           ret None } }"

section \<open>Settlement and status\<close>

definition Executor_Settle ::
    "geth \<Rightarrow> 's runtime \<Rightarrow> 's Executor \<Rightarrow> SignedTx \<Rightarrow> dbtx \<Rightarrow> ('s, goerr + hash) state" where
  "Executor_Settle G RT e stx dbTx = do {
     r \<leftarrow> em_BuildTrustedVerifyBatchesTxData (ex_etherman e)
            (LastVerifiedBatch (stx_Tx stx)) (NewVerifiedBatch (stx_Tx stx))
            (tx_ZKP (stx_Tx stx)) (RollupID (stx_Tx stx));
     case r of
       Inl err \<Rightarrow> ret (Inl (Errorf (''failed to build verify ZKP tx: '' @ Error err)))
     | Inr l1TxData \<Rightarrow> do {
         err \<leftarrow> tm_Add (ex_ethTxMan e) ethTxManOwner
                  (hash_String G (Tx_Hash G (stx_Tx stx)))
                  (interopAdminAddr e)
                  (Some (RollupManagerContract (cfg_L1 (ex_config e))))
                  (Some 0)
                  (Some l1TxData)
                  (cfg_GasOffset (cfg_EthTxManager (ex_config e)))
                  dbTx;
         case err of
           Some err \<Rightarrow> ret (Inl (Errorf (''failed to add tx to ethTxMan, error: '' @ Error err)))
         | None \<Rightarrow> do {
             rt_count RT ''settle'' (Some (RollupID (stx_Tx stx)));
             ret (Inr (Tx_Hash G (stx_Tx stx))) } } }"

text \<open>\<open>jRPC.Error\<close>: the code and the message; \<open>DefaultErrorCode\<close> is -32000.\<close>

datatype rpc_error = RPCError (rpc_code: int) (rpc_message: string)

definition DefaultErrorCode :: int where
  "DefaultErrorCode = -32000"

definition Executor_GetTxStatus ::
    "geth \<Rightarrow> 's runtime \<Rightarrow> 's Executor \<Rightarrow> hash \<Rightarrow> dbtx \<Rightarrow> ('s, string \<times> rpc_error option) state" where
  "Executor_GetTxStatus G RT e hash dbTx = do {
     r \<leftarrow> tm_Result (ex_ethTxMan e) ethTxManOwner (hash_String G hash) dbTx;
     case r of
       Inl innerErr \<Rightarrow>
         ret (''0x0'', Some (RPCError DefaultErrorCode (''failed to get tx, error: '' @ Error innerErr)))
     | Inr res \<Rightarrow> do {
         let result = MonitoredTxStatus_String (res_Status res);
         rt_count RT (''get_tx_status_'' @ result) None;
         ret (result, None) } }"

section \<open>Properties\<close>

text \<open>C24. Authorization: \<open>verifySignature\<close> reports no error exactly when the signer can be recovered
  and is the proof signer configured for the rollup or, when none is configured, the sequencer that
  L1 reports for it.\<close>

theorem verifySignature_iff:
  "fst (run_state (Executor_verifySignature G RT e stx) s) = None \<longleftrightarrow>
     (\<exists>signer. SignedTx_Signer G stx = Inr signer \<and>
        (case cfg_ProofSigners (ex_config e) (RollupID (stx_Tx stx)) of
           Some authorized \<Rightarrow> authorized = signer
         | None \<Rightarrow>
             fst (run_state (em_GetSequencerAddr (ex_etherman e) (RollupID (stx_Tx stx))) s) = Inr signer))"
  by (auto simp: Executor_verifySignature_def split: sum.splits option.splits prod.splits)

text \<open>C25. Soundness check: \<open>Execute\<close> reports no error exactly when the full node of the rollup knows
  the batch (asked for by its number read as a signed 64-bit integer) and both roots agree with the
  certificate.\<close>

theorem Execute_iff:
  "fst (run_state (Executor_Execute G RT e stx) s) = None \<longleftrightarrow>
     (\<exists>batch. fst (run_state (zk_BatchByNumber
          (zk_NewClient (ZkEVMClientCreator e)
             (case cfg_FullNodeRPCs (ex_config e) (RollupID (stx_Tx stx)) of None \<Rightarrow> [] | Some u \<Rightarrow> u))
          (sint (NewVerifiedBatch (stx_Tx stx)))) s) = Inr (Some batch) \<and>
        StateRoot batch = NewStateRoot (tx_ZKP (stx_Tx stx)) \<and>
        LocalExitRoot batch = NewLocalExitRoot (tx_ZKP (stx_Tx stx)))"
  by (auto simp: Executor_Execute_def Let_def split: sum.splits option.splits prod.splits)

end
