(* ===== verification/ExecutorEnv.thy ===== *)
theory ExecutorEnv
  imports Executor
begin

text \<open>
  The interface between the executor and the rest of the system. The locale \<open>executor_env\<close> says
  that the calls the executor makes leave a part \<open>fr\<close> of the state alone; its lemmas say what each
  check of the executor establishes when it reports no error.
\<close>

section \<open>Who may submit a certificate\<close>

text \<open>
  The signer of the certificate is the one configured for its rollup, if one is; the fallback to
  the sequencer of the rollup is asked of L1 and appears in the operation only.
\<close>

definition signed_as_configured :: "geth \<Rightarrow> Config \<Rightarrow> SignedTx \<Rightarrow> bool" where
  "signed_as_configured G cfg stx \<longleftrightarrow>
     (\<exists>signer. SignedTx_Signer G stx = Inr signer \<and>
        (\<forall>a. cfg_ProofSigners cfg (RollupID (stx_Tx stx)) = Some a \<longrightarrow> a = signer))"

definition rpc_registered :: "Config \<Rightarrow> SignedTx \<Rightarrow> bool" where
  "rpc_registered cfg stx \<longleftrightarrow> cfg_FullNodeRPCs cfg (RollupID (stx_Tx stx)) \<noteq> None"

section \<open>The environment of an executor\<close>

locale executor_env =
  fixes G :: geth and RT :: "'s runtime" and e :: "'s Executor" and fr :: "'s \<Rightarrow> 'v"
  assumes quiet_count: "preserves fr (rt_count RT name rollup)"
    and quiet_Build: "preserves fr (em_BuildTrustedVerifyBatchesTxData (ex_etherman e) lvb nvb zkp rollupId)"
    and quiet_Call: "preserves fr (em_CallContract (ex_etherman e) msg blk)"
    and quiet_Sequencer: "preserves fr (em_GetSequencerAddr (ex_etherman e) rollupId)"
    and quiet_Batch: "preserves fr (zk_BatchByNumber (zk_NewClient (ZkEVMClientCreator e) url) num)"
begin

lemmas wp_quiet =
  quiet_count [THEN wp_preserves] quiet_Build [THEN wp_preserves] quiet_Call [THEN wp_preserves]
  quiet_Sequencer [THEN wp_preserves] quiet_Batch [THEN wp_preserves]

lemma wp_CheckTx:
  assumes "\<And>r s'. fr s' = fr s \<Longrightarrow> (r = None \<Longrightarrow> rpc_registered (ex_config e) stx) \<Longrightarrow> Q r s'"
  shows "wp (Executor_CheckTx RT e stx) Q s"
  unfolding Executor_CheckTx_def
  by (auto simp: wp_simps rpc_registered_def intro!: assms wp_quiet split: option.splits)

lemma wp_verifyZKP:
  assumes "\<And>r s'. fr s' = fr s \<Longrightarrow> Q r s'"
  shows "wp (Executor_verifyZKP RT e stx) Q s"
  unfolding Executor_verifyZKP_def wp_simps
  by (rule wp_quiet) (auto simp: wp_simps intro!: assms wp_quiet split: sum.splits option.splits)

lemma wp_verifySignature:
  assumes "\<And>r s'. fr s' = fr s \<Longrightarrow> (r = None \<Longrightarrow> signed_as_configured G (ex_config e) stx) \<Longrightarrow> Q r s'"
  shows "wp (Executor_verifySignature G RT e stx) Q s"
  unfolding Executor_verifySignature_def
  by (auto simp: wp_simps signed_as_configured_def intro!: assms wp_quiet split: sum.splits option.splits)

lemma wp_Verify:
  assumes "\<And>r s'. fr s' = fr s \<Longrightarrow> (r = None \<Longrightarrow> signed_as_configured G (ex_config e) stx) \<Longrightarrow> Q r s'"
  shows "wp (Executor_Verify G RT e stx) Q s"
  unfolding Executor_Verify_def wp_simps
  by (rule wp_verifyZKP) (auto simp: wp_simps intro!: assms wp_verifySignature split: option.splits)

lemma wp_Execute:
  assumes "\<And>r s'. fr s' = fr s \<Longrightarrow> Q r s'"
  shows "wp (Executor_Execute G RT e stx) Q s"
  unfolding Executor_Execute_def Let_def wp_simps
  by (rule wp_quiet) (auto simp: wp_simps intro!: assms wp_quiet split: sum.splits option.splits)

text \<open>A settlement that fails before the transaction manager is asked changes nothing.\<close>

lemma wp_Settle_before_add:
  assumes "\<And>err s'. fr s' = fr s \<Longrightarrow> Q (Inl err) s'"
    and "\<And>l1TxData s'. fr s' = fr s \<Longrightarrow>
      wp (tm_Add (ex_ethTxMan e) ethTxManOwner (hash_String G (Tx_Hash G (stx_Tx stx)))
            (interopAdminAddr e) (Some (RollupManagerContract (cfg_L1 (ex_config e)))) (Some 0)
            (Some l1TxData) (cfg_GasOffset (cfg_EthTxManager (ex_config e))) dbTx)
         (\<lambda>err s''. \<forall>s'''. fr s''' = fr s'' \<longrightarrow>
            Q (case err of Some err \<Rightarrow> Inl (Errorf (''failed to add tx to ethTxMan, error: '' @ Error err))
               | None \<Rightarrow> Inr (Tx_Hash G (stx_Tx stx))) s''') s'"
  shows "wp (Executor_Settle G RT e stx dbTx) Q s"
  unfolding Executor_Settle_def wp_simps
  apply (rule wp_quiet)
  apply (auto simp: wp_simps assms(1) split: sum.splits)
  apply (rule wp_mono [OF assms(2)])
   apply (auto simp: wp_simps intro!: wp_quiet split: option.splits)
  done

end

end
