(* ===== verification/Rpc.thy ===== *)
theory Rpc
  imports Executor Database
begin

text \<open>
  \<open>rpc/rpc.go\<close>: the two endpoints of the service \<open>interop\<close>. A result of the endpoint is an
  \<open>interface{}\<close>: a hash or a string. Deadlines show as errors of the calls they interrupt. The log
  calls, which also format the errors that the reply leaves out, are not modelled.
\<close>

record 's InteropEndpoints =
  ie_executor :: "'s Executor"
  ie_db :: "'s IDB"
  ie_config :: Config

definition NewInteropEndpoints :: "'s Executor \<Rightarrow> 's IDB \<Rightarrow> Config \<Rightarrow> 's InteropEndpoints" where
  "NewInteropEndpoints executor db conf = \<lparr>ie_executor = executor, ie_db = db, ie_config = conf\<rparr>"

datatype rpc_result = ResultHash hash | ResultString string

text \<open>\<open>return "0x0", jRPC.NewRPCError(jRPC.DefaultErrorCode, msg)\<close>\<close>

definition rpc_fail :: "string \<Rightarrow> ('s, rpc_result \<times> rpc_error option) state" where
  "rpc_fail msg = ret (ResultString ''0x0'', Some (RPCError DefaultErrorCode msg))"

text \<open>The end of \<open>SendTx\<close>, from \<open>Settle\<close> on, in the transaction it began.\<close>

definition SendTx_settle ::
    "geth \<Rightarrow> 's runtime \<Rightarrow> 's pgxTx \<Rightarrow> 's InteropEndpoints \<Rightarrow> SignedTx \<Rightarrow> nat \<Rightarrow>
     ('s, rpc_result \<times> rpc_error option) state" where
  "SendTx_settle G RT P i signedTx dbTx = do {
     r \<leftarrow> Executor_Settle G RT (ie_executor i) signedTx (Some dbTx);
     case r of
       Inl err \<Rightarrow> do {
         errRollback \<leftarrow> pgx_Rollback P dbTx;
         rpc_fail (''failed to add tx to ethTxMan, error: '' @ Error err) }
     | Inr _ \<Rightarrow> do {
         err \<leftarrow> pgx_Commit P dbTx;
         case err of
           Some err \<Rightarrow> rpc_fail ''failed to commit dbTx''
         | None \<Rightarrow> ret (ResultHash (Tx_Hash G (stx_Tx signedTx)), None) } }"

definition InteropEndpoints_SendTx ::
    "geth \<Rightarrow> 's runtime \<Rightarrow> 's pgxTx \<Rightarrow> 's InteropEndpoints \<Rightarrow> SignedTx \<Rightarrow>
     ('s, rpc_result \<times> rpc_error option) state" where
  "InteropEndpoints_SendTx G RT P i signedTx = do {
     rt_count RT ''send_tx'' (Some (RollupID (stx_Tx signedTx)));
     err \<leftarrow> Executor_CheckTx RT (ie_executor i) signedTx;
     case err of
       Some err \<Rightarrow> rpc_fail (''there is no RPC registered for '' @ dec (unat (RollupID (stx_Tx signedTx))))
     | None \<Rightarrow> do {
     err \<leftarrow> Executor_Verify G RT (ie_executor i) signedTx;
     case err of
       Some err \<Rightarrow> rpc_fail (''failed to verify tx: '' @ Error err)
     | None \<Rightarrow> do {
     err \<leftarrow> Executor_Execute G RT (ie_executor i) signedTx;
     case err of
       Some err \<Rightarrow> rpc_fail (''failed to execute tx: '' @ Error err)
     | None \<Rightarrow> do {
     b \<leftarrow> db_BeginStateTransaction (ie_db i);
     case b of
       Inl err \<Rightarrow> rpc_fail ''failed to begin dbTx''
     | Inr dbTx \<Rightarrow> SendTx_settle G RT P i signedTx dbTx } } } }"

text \<open>The deferred rollback replaces the result of the function when it fails.\<close>

definition InteropEndpoints_GetTxStatus ::
    "geth \<Rightarrow> 's runtime \<Rightarrow> 's pgxTx \<Rightarrow> 's InteropEndpoints \<Rightarrow> hash \<Rightarrow>
     ('s, rpc_result \<times> rpc_error option) state" where
  "InteropEndpoints_GetTxStatus G RT P i hash = do {
     rt_count RT ''get_tx_status'' None;
     b \<leftarrow> db_BeginStateTransaction (ie_db i);
     case b of
       Inl innerErr \<Rightarrow> rpc_fail ''failed to begin dbTx''
     | Inr dbTx \<Rightarrow> do {
         (result, innerErr) \<leftarrow> Executor_GetTxStatus G RT (ie_executor i) hash (Some dbTx);
         let res = (case innerErr of
                      Some e \<Rightarrow> (ResultString ''0x0'',
                        Some (RPCError DefaultErrorCode (''failed to get tx, error: '' @ rpc_message e)))
                    | None \<Rightarrow> (ResultString result, None));
         errRollback \<leftarrow> pgx_Rollback P dbTx;
         case errRollback of
           Some _ \<Rightarrow> rpc_fail ''failed to rollback dbTx''
         | None \<Rightarrow> ret res } }"

end
