(* ===== verification/ClientApi.thy ===== *)
theory ClientApi
  imports AggTx MonitoredTx Rpc
begin

text \<open>
  \<open>client/client.go\<close>: the client of the RPC. \<open>client.JSONRPCCall\<close> of zkevm-node, which sends one
  request, is a parameter; a raw JSON result is a value of \<open>json\<close>, and \<open>Unmarshal\<close> into the two
  types the client expects follows \<open>encoding/json\<close>: \<open>null\<close> leaves the target at its zero value, a
  string is given to \<open>UnmarshalText\<close> or stored, anything else is a type error.
\<close>

section \<open>Replies\<close>

datatype json =
    JNull
  | JBool bool
  | JNumber string
  | JString string
  | JArray "json list"
  | JObject "(string \<times> json) list"

text \<open>\<open>Response.Result\<close> may be absent: then there is no JSON to read.\<close>

record Response =
  resp_Result :: "json option"
  resp_Error :: "(int \<times> string) option"

datatype call_param = Param_SignedTx SignedTx | Param_Hash hash

type_synonym 's JSONRPCCall = "string \<Rightarrow> string \<Rightarrow> call_param \<Rightarrow> ('s, goerr + Response) state"

definition dec_int :: "int \<Rightarrow> string" where
  "dec_int x = (if x < 0 then CHR ''-'' # dec (nat (- x)) else dec (nat x))"

definition no_json :: goerr where
  "no_json = Errorf ''unexpected end of JSON input''"

definition type_error :: goerr where
  "type_error = Errorf ''json: cannot unmarshal value into Go value''"

definition Unmarshal_ArgHash :: "geth \<Rightarrow> json option \<Rightarrow> goerr + ArgHash" where
  "Unmarshal_ArgHash G raw =
     (case raw of
        None \<Rightarrow> Inl no_json
      | Some JNull \<Rightarrow> Inr 0
      | Some (JString s) \<Rightarrow> ArgHash_UnmarshalText G s
      | Some _ \<Rightarrow> Inl type_error)"

definition Unmarshal_MonitoredTxStatus :: "json option \<Rightarrow> goerr + MonitoredTxStatus" where
  "Unmarshal_MonitoredTxStatus raw =
     (case raw of
        None \<Rightarrow> Inl no_json
      | Some JNull \<Rightarrow> Inr []
      | Some (JString s) \<Rightarrow> Inr s
      | Some _ \<Rightarrow> Inl type_error)"

text \<open>The checks every call makes on its response before it looks at the result.\<close>

definition rpc_reply :: "goerr + Response \<Rightarrow> goerr + json option" where
  "rpc_reply r =
     (case r of
        Inl err \<Rightarrow> Inl err
      | Inr response \<Rightarrow>
          (case resp_Error response of
             Some (code, message) \<Rightarrow> Inl (Errorf (dec_int code @ '' '' @ message))
           | None \<Rightarrow> Inr (resp_Result response)))"

section \<open>The client\<close>

record ApiClient =
  url :: string

definition ApiClient_New :: "string \<Rightarrow> ApiClient" where
  "ApiClient_New u = \<lparr>url = u\<rparr>"

text \<open>\<open>ClientFactory.New\<close> of the factory without fields.\<close>

definition ClientFactory_New :: "string \<Rightarrow> ApiClient" where
  "ClientFactory_New u = ApiClient_New u"

definition ApiClient_SendTx ::
    "geth \<Rightarrow> 's JSONRPCCall \<Rightarrow> ApiClient \<Rightarrow> SignedTx \<Rightarrow> ('s, goerr + hash) state" where
  "ApiClient_SendTx G call c signedTx = do {
     response \<leftarrow> call (url c) ''interop_sendTx'' (Param_SignedTx signedTx);
     case rpc_reply response of
       Inl err \<Rightarrow> ret (Inl err)
     | Inr raw \<Rightarrow>
         (case Unmarshal_ArgHash G raw of
            Inl err \<Rightarrow> ret (Inl err)
          | Inr result \<Rightarrow> ret (Inr (ArgHash_Hash (Some result)))) }"

definition ApiClient_GetTxStatus ::
    "'s JSONRPCCall \<Rightarrow> ApiClient \<Rightarrow> hash \<Rightarrow> ('s, goerr + MonitoredTxStatus) state" where
  "ApiClient_GetTxStatus call c hash = do {
     response \<leftarrow> call (url c) ''interop_getTxStatus'' (Param_Hash hash);
     case rpc_reply response of
       Inl err \<Rightarrow> ret (Inl err)
     | Inr raw \<Rightarrow>
         (case Unmarshal_MonitoredTxStatus raw of
            Inl err \<Rightarrow> ret (Inl err)
          | Inr result \<Rightarrow> ret (Inr result)) }"

text \<open>
  The loop of \<open>WaitTxToBeMined\<close> runs once per event that its \<open>select\<close> sees: the context is done,
  or the ticker fired. When the list of events is used up the loop is still waiting (\<open>None\<close>);
  \<open>Some r\<close> is a return, with the error or nil.
\<close>

datatype wait_event = CtxDone | Tick

fun ApiClient_WaitTxToBeMined ::
    "'s JSONRPCCall \<Rightarrow> ApiClient \<Rightarrow> hash \<Rightarrow> wait_event list \<Rightarrow> ('s, goerr option option) state" where
  "ApiClient_WaitTxToBeMined call c hash [] = ret None"
| "ApiClient_WaitTxToBeMined call c hash (CtxDone # evs) =
     ret (Some (Some (Errorf ''context finished before tx was mined'')))"
| "ApiClient_WaitTxToBeMined call c hash (Tick # evs) = do {
     response \<leftarrow> call (url c) ''interop_getTxStatus'' (Param_Hash hash);
     case rpc_reply response of
       Inl err \<Rightarrow> ret (Some (Some err))
     | Inr raw \<Rightarrow>
         (case Unmarshal_MonitoredTxStatus raw of
            Inl err \<Rightarrow> ret (Some (Some err))
          | Inr result \<Rightarrow>
              if result = MonitoredTxStatusDone then ret (Some None)
              else ApiClient_WaitTxToBeMined call c hash evs) }"

section \<open>Waiting on a service\<close>

text \<open>
  The contract of a service the client polls: while \<open>I\<close> holds, every call for a status keeps it,
  and a string it replies with is one of \<open>answers\<close>.
\<close>

definition reply_in :: "string set \<Rightarrow> goerr + Response \<Rightarrow> bool" where
  "reply_in answers r \<longleftrightarrow>
     (\<forall>resp t. r = Inr resp \<longrightarrow> resp_Error resp = None \<longrightarrow> resp_Result resp = Some (JString t) \<longrightarrow>
        t \<in> answers)"

lemma reply_in_status:
  assumes "reply_in answers r" and "rpc_reply r = Inr raw"
    and "Unmarshal_MonitoredTxStatus raw = Inr st"
  shows "st \<in> insert [] answers"
  using assms
  by (auto simp: reply_in_def rpc_reply_def Unmarshal_MonitoredTxStatus_def
      split: sum.splits option.splits json.splits)

locale status_service =
  fixes call :: "'s JSONRPCCall" and I :: "'s \<Rightarrow> bool" and answers :: "string set"
  assumes call_status:
    "I s \<Longrightarrow> (\<And>r s'. I s' \<Longrightarrow> reply_in answers r \<Longrightarrow> Q r s') \<Longrightarrow>
     wp (call u ''interop_getTxStatus'' (Param_Hash h)) Q s"
begin

lemma wp_status:
  assumes "I s" and "\<And>r s'. I s' \<Longrightarrow> (\<And>st. r = Inr st \<Longrightarrow> st \<in> insert [] answers) \<Longrightarrow> Q r s'"
  shows "wp (ApiClient_GetTxStatus call c h) Q s"
  unfolding ApiClient_GetTxStatus_def wp_simps
  by (rule call_status [OF assms(1)])
    (auto simp: wp_simps split: sum.splits intro!: assms(2) dest!: reply_in_status)

lemma wp_wait:
  assumes "I s" and "MonitoredTxStatusDone \<notin> answers"
    and "\<And>r s'. I s' \<Longrightarrow> r \<noteq> Some None \<Longrightarrow> Q r s'"
  shows "wp (ApiClient_WaitTxToBeMined call c h evs) Q s"
  using assms(1)
proof (induction evs arbitrary: s)
  case Nil
  then show ?case by (simp add: wp_simps assms(3))
next
  case (Cons ev evs)
  have no_done: "MonitoredTxStatusDone \<notin> insert [] answers"
    using assms(2) by (simp add: status_defs)
  show ?case
  proof (cases ev)
    case CtxDone
    with Cons.prems show ?thesis by (simp add: wp_simps assms(3))
  next
    case Tick
    show ?thesis
      unfolding Tick ApiClient_WaitTxToBeMined.simps wp_simps
      by (rule call_status [OF Cons.prems])
        (use no_done reply_in_status in \<open>auto simp: wp_simps split: sum.splits
          intro!: assms(3) Cons.IH\<close>)
  qed
qed

end

end
