(* ===== verification/System.thy ===== *)
theory System
  imports MonitorInv Etherman ExecutorEnv ClientApi
begin

text \<open>
  The parts put together as \<open>cmd/main.go\<close> does: one etherman serves as the L1 access and as the
  state of the transaction manager, the transaction manager stores in PostgreSQL, the executor
  uses both, the endpoints use the executor and the pool. An operation on the world becomes one on
  the whole state by \<open>on_world\<close>.
\<close>

section \<open>Operations on the world\<close>

definition lift_IEtherman :: "'w IEtherman \<Rightarrow> 'w sys IEtherman" where
  "lift_IEtherman E =
     \<lparr>em_GetTx = (\<lambda>h. on_world (em_GetTx E h)),
      em_GetTxReceipt = (\<lambda>h. on_world (em_GetTxReceipt E h)),
      em_WaitTxToBeMined = (\<lambda>t d. on_world (em_WaitTxToBeMined E t d)),
      em_SendTx = (\<lambda>t. on_world (em_SendTx E t)),
      em_PendingNonce = (\<lambda>a. on_world (em_PendingNonce E a)),
      em_SuggestedGasPrice = on_world (em_SuggestedGasPrice E),
      em_EstimateGas = (\<lambda>a to v d. on_world (em_EstimateGas E a to v d)),
      em_CheckTxWasMined = (\<lambda>h. on_world (em_CheckTxWasMined E h)),
      em_SignTx = (\<lambda>a t. on_world (em_SignTx E a t)),
      em_GetRevertMessage = (\<lambda>t. on_world (em_GetRevertMessage E t)),
      em_GetSequencerAddr = (\<lambda>r. on_world (em_GetSequencerAddr E r)),
      em_BuildTrustedVerifyBatchesTxData =
        (\<lambda>l n z r. on_world (em_BuildTrustedVerifyBatchesTxData E l n z r)),
      em_CallContract = (\<lambda>m b. on_world (em_CallContract E m b)),
      em_GetLastBlock = (\<lambda>d. on_world (em_GetLastBlock E d))\<rparr>"

definition lift_runtime :: "'w runtime \<Rightarrow> 'w sys runtime" where
  "lift_runtime RT =
     \<lparr>rt_Now = on_world (rt_Now RT), rt_range = on_world (rt_range RT),
      rt_count = (\<lambda>n r. on_world (rt_count RT n r))\<rparr>"

definition lift_creator :: "'w IZkEVMClientClientCreator \<Rightarrow> 'w sys IZkEVMClientClientCreator" where
  "lift_creator Z =
     \<lparr>zk_NewClient =
        (\<lambda>u. \<lparr>zk_BatchByNumber = (\<lambda>n. on_world (zk_BatchByNumber (zk_NewClient Z u) n))\<rparr>)\<rparr>"

text \<open>The part of the state that only the database code changes.\<close>

definition db_part :: "'w sys \<Rightarrow> row list \<times> (nat \<Rightarrow> sql_write list option) \<times> nat" where
  "db_part s = (committed s, open_txs s, next_tx s)"

lemma db_part_world [simp]: "db_part (s\<lparr>world := w\<rparr>) = db_part s"
  by (simp add: db_part_def)

lemma db_part_eqD:
  "db_part s' = db_part s \<Longrightarrow>
     committed s' = committed s \<and> open_txs s' = open_txs s \<and> next_tx s' = next_tx s"
  by (simp add: db_part_def)

lemma preserves_on_world:
  "preserves db_part (on_world m)" "preserves committed (on_world m)"
  by (auto intro!: preservesI wp_on_world simp: db_part_def)

section \<open>The services of cmd/main.go\<close>

definition services_etm ::
    "geth \<Rightarrow> 'w runtime \<Rightarrow> 'w pgdriver \<Rightarrow> Config \<Rightarrow> 'w IEtherman \<Rightarrow> 'w sys Client" where
  "services_etm G RT D c ethMan =
     (let ethTxManagerStorage = NewPostgresStorage G RT D
      in Client_New (cfg_EthTxManager c) (lift_IEtherman ethMan) ethTxManagerStorage
           (StateInterface_of (lift_IEtherman ethMan)))"

definition services_executor ::
    "geth \<Rightarrow> 'w runtime \<Rightarrow> 'w pgdriver \<Rightarrow> 'w IZkEVMClientClientCreator \<Rightarrow> Config \<Rightarrow> address \<Rightarrow>
     'w IEtherman \<Rightarrow> 'w sys Executor" where
  "services_executor G RT D Z c addr ethMan =
     Executor_New (lift_creator Z) c addr (lift_IEtherman ethMan)
       (EthTxManager_of (lift_runtime RT) (services_etm G RT D c ethMan))"

definition services_endpoints ::
    "geth \<Rightarrow> 'w runtime \<Rightarrow> 'w pgdriver \<Rightarrow> 'w IZkEVMClientClientCreator \<Rightarrow> Config \<Rightarrow> address \<Rightarrow>
     'w IEtherman \<Rightarrow> 'w sys InteropEndpoints" where
  "services_endpoints G RT D Z c addr ethMan =
     NewInteropEndpoints (services_executor G RT D Z c addr ethMan) (DB_of D) c"

lemma services_etm_fields [simp]:
  "cl_storage (services_etm G RT D c E) = NewPostgresStorage G RT D"
  "cl_etherman (services_etm G RT D c E) = lift_IEtherman E"
  "cl_cfg (services_etm G RT D c E) = cfg_EthTxManager c"
  "cl_state (services_etm G RT D c E) = StateInterface_of (lift_IEtherman E)"
  by (simp_all add: services_etm_def Client_New_def)

lemma services_executor_fields [simp]:
  "ex_config (services_executor G RT D Z c addr E) = c"
  "ex_etherman (services_executor G RT D Z c addr E) = lift_IEtherman E"
  "ex_ethTxMan (services_executor G RT D Z c addr E) =
     EthTxManager_of (lift_runtime RT) (services_etm G RT D c E)"
  "ZkEVMClientCreator (services_executor G RT D Z c addr E) = lift_creator Z"
  "interopAdminAddr (services_executor G RT D Z c addr E) = addr"
  by (simp_all add: services_executor_def Executor_New_def)

lemma services_endpoints_fields [simp]:
  "ie_executor (services_endpoints G RT D Z c addr E) = services_executor G RT D Z c addr E"
  "ie_db (services_endpoints G RT D Z c addr E) = DB_of D"
  by (simp_all add: services_endpoints_def NewInteropEndpoints_def)

section \<open>The contracts hold of the services\<close>

interpretation etm: tx_client G "NewPostgresStorage G RT D" committed
    "services_etm G RT D c E" "lift_runtime RT"
  for G :: geth and RT :: "'w runtime" and D :: "'w pgdriver" and c :: Config and E :: "'w IEtherman"
  by unfold_locales
    (simp_all add: lift_IEtherman_def lift_runtime_def StateInterface_of_def preserves_on_world)

interpretation exe: executor_env G "lift_runtime RT" "services_executor G RT D Z c addr E" db_part
  for G :: geth and RT :: "'w runtime" and D :: "'w pgdriver" and Z :: "'w IZkEVMClientClientCreator"
    and c :: Config and addr :: address and E :: "'w IEtherman"
  by unfold_locales
    (simp_all add: lift_IEtherman_def lift_runtime_def lift_creator_def preserves_on_world)

end
