(* ===== verification/Server.thy ===== *)
theory Server
  imports System
begin

text \<open>
  The two endpoints on the database: what \<open>SendTx\<close> leaves in the table in each of its outcomes, and
  that \<open>GetTxStatus\<close> leaves the table alone and closes the transaction it opened.
\<close>

section \<open>Adding a transaction within a database transaction\<close>

text \<open>What \<open>Client.Add\<close> builds from its arguments, whatever the nonce, gas and gas price.\<close>

definition new_mtx ::
    "string \<Rightarrow> string \<Rightarrow> address \<Rightarrow> address option \<Rightarrow> int option \<Rightarrow> byte list option \<Rightarrow> u64 \<Rightarrow>
     MonitoredTx \<Rightarrow> bool" where
  "new_mtx ow i from to value data gasOffset m \<longleftrightarrow>
     Owner m = ow \<and> ID m = i \<and> From m = from \<and> To m = to \<and> Value m = value \<and> Data m = data \<and>
     GasOffset m = gasOffset \<and> Status m = MonitoredTxStatusCreated \<and> BlockNumber m = None \<and>
     History m = None \<and> NumRetries m = 0"

lemma wp_getTxNonce_etm:
  assumes "\<And>r s'. db_part s' = db_part s \<Longrightarrow> Q r s'"
  shows "wp (getTxNonce (services_etm G RT D c E) from) Q s"
  unfolding getTxNonce_def services_etm_fields storage_fields
    PostgresStorage_GetBySenderAndStatus_def Let_def wp_simps dbConn_simps
  by (rule wp_list_query)
    (auto simp: wp_simps lift_IEtherman_def intro!: assms wp_on_world split: sum.splits)

lemma wp_suggestedGasPrice_etm:
  assumes "\<And>r s'. db_part s' = db_part s \<Longrightarrow> Q r s'"
  shows "wp (suggestedGasPrice (services_etm G RT D c E)) Q s"
  unfolding suggestedGasPrice_def wp_simps services_etm_fields
  by (auto simp: wp_simps lift_IEtherman_def intro!: assms wp_on_world split: sum.splits)

text \<open>
  An insert through an open transaction: either it failed and at most the pending writes of that
  transaction changed, or the new row is its last pending write.
\<close>

lemma wp_Add_tx:
  assumes t: "open_txs s t = Some ws"
    and err: "\<And>e s' ws'. committed s' = committed s \<Longrightarrow> next_tx s' = next_tx s \<Longrightarrow>
      open_txs s' = (open_txs s)(t := Some ws') \<Longrightarrow> Q (Some e) s'"
    and ok: "\<And>ks cr u s'. committed s' = committed s \<Longrightarrow> next_tx s' = next_tx s \<Longrightarrow>
      open_txs s' = (open_txs s)(t := Some (ws @ [Insert (row_of G ks cr u m)])) \<Longrightarrow> Q None s'"
  shows "wp (PostgresStorage_Add G RT D m (Some t)) Q s"
proof (rule wp_PostgresStorage_Add)
  show "Q (Some e) (s\<lparr>world := w\<rparr>)" for e w
    using t by (intro err [of _ ws]) auto
next
  fix r ks cr u w rows
  show "Q r (conn_write (dbConn (Some t)) (Insert (row_of G ks cr u m)) (s\<lparr>world := w\<rparr>))"
    using t by (cases r) (auto intro!: ok err)
qed

lemma services_EstimateGas:
  "em_EstimateGas (lift_IEtherman E) a to v d = on_world (em_EstimateGas E a to v d)"
  by (simp add: lift_IEtherman_def)

text \<open>The same for \<open>Client.Add\<close>; \<open>P\<close> is what is known of the nonce.\<close>

lemma wp_Client_Add_nonce:
  assumes t: "open_txs s t = Some ws"
    and nonce: "wp (getTxNonce (services_etm G RT D c E) from)
      (\<lambda>r s'. db_part s' = db_part s \<and> (\<forall>n. r = Inr n \<longrightarrow> P n)) s"
    and err: "\<And>e s' ws'. committed s' = committed s \<Longrightarrow> next_tx s' = next_tx s \<Longrightarrow>
      open_txs s' = (open_txs s)(t := Some ws') \<Longrightarrow> Q (Some e) s'"
    and ok: "\<And>m ks cr u s'. new_mtx ow i from to value data gasOffset m \<Longrightarrow> P (Nonce m) \<Longrightarrow>
      committed s' = committed s \<Longrightarrow> next_tx s' = next_tx s \<Longrightarrow>
      open_txs s' = (open_txs s)(t := Some (ws @ [Insert (row_of G ks cr u m)])) \<Longrightarrow> Q None s'"
  shows "wp (Client_Add (services_etm G RT D c E) ow i from to value data gasOffset (Some t)) Q s"
proof -
  have keep: "Q (Some e) s'" if "db_part s' = db_part s" for e s'
    using db_part_eqD [OF that] t by (intro err [of _ ws]) auto
  have add: "wp (PostgresStorage_Add G RT D m (Some t))
      (\<lambda>e. case e of Some x \<Rightarrow> Q (Some (Wrapf pre x post)) | None \<Rightarrow> Q None) s'"
    if "db_part s' = db_part s" and "new_mtx ow i from to value data gasOffset m" and "P (Nonce m)"
    for m pre post s'
    using db_part_eqD [OF that(1)] t
    by (intro wp_Add_tx [of s' t ws]) (auto intro: err ok [OF that(2,3)])
  show ?thesis
    unfolding Client_Add_def Let_def wp_simps
    by (rule wp_mono [OF nonce])
      (auto simp: wp_simps keep new_mtx_def services_EstimateGas
        intro!: wp_on_world wp_suggestedGasPrice_etm add split: sum.splits)
qed

lemma wp_Client_Add_tx:
  assumes t: "open_txs s t = Some ws"
    and err: "\<And>e s' ws'. committed s' = committed s \<Longrightarrow> next_tx s' = next_tx s \<Longrightarrow>
      open_txs s' = (open_txs s)(t := Some ws') \<Longrightarrow> Q (Some e) s'"
    and ok: "\<And>m ks cr u s'. new_mtx ow i from to value data gasOffset m \<Longrightarrow>
      committed s' = committed s \<Longrightarrow> next_tx s' = next_tx s \<Longrightarrow>
      open_txs s' = (open_txs s)(t := Some (ws @ [Insert (row_of G ks cr u m)])) \<Longrightarrow> Q None s'"
  shows "wp (Client_Add (services_etm G RT D c E) ow i from to value data gasOffset (Some t)) Q s"
  by (rule wp_Client_Add_nonce [OF t, where P = "\<lambda>n. True"]) (auto intro: wp_getTxNonce_etm err ok)

section \<open>The promise of SendTx\<close>

text \<open>The row a certificate is settled as, and its effect on the table.\<close>

definition certificate_mtx :: "geth \<Rightarrow> Config \<Rightarrow> address \<Rightarrow> SignedTx \<Rightarrow> MonitoredTx \<Rightarrow> bool" where
  "certificate_mtx G c addr stx m \<longleftrightarrow>
     (\<exists>data. new_mtx ethTxManOwner (hash_String G (Tx_Hash G (stx_Tx stx))) addr
        (Some (RollupManagerContract (cfg_L1 c))) (Some 0) (Some data)
        (cfg_GasOffset (cfg_EthTxManager c)) m)"

definition settled :: "geth \<Rightarrow> Config \<Rightarrow> address \<Rightarrow> SignedTx \<Rightarrow> row list \<Rightarrow> row list \<Rightarrow> bool" where
  "settled G c addr stx t t' \<longleftrightarrow>
     rpc_registered c stx \<and> signed_as_configured G c stx \<and>
     (\<exists>m ks cr u. certificate_mtx G c addr stx m \<and> mtx_key m \<notin> set (keys t) \<and>
        t' = t @ [row_of G ks cr u m])"

text \<open>
  The reply is the hash of the certificate, then it is settled; or it is an error, then the table
  is as it was, unless the error is that of the commit, whose effect is not known.
\<close>

definition SendTx_outcome ::
    "geth \<Rightarrow> Config \<Rightarrow> address \<Rightarrow> SignedTx \<Rightarrow> row list \<Rightarrow> rpc_result \<times> rpc_error option \<Rightarrow> row list \<Rightarrow> bool" where
  "SendTx_outcome G c addr stx t r t' \<longleftrightarrow>
     (case snd r of
        None \<Rightarrow> fst r = ResultHash (Tx_Hash G (stx_Tx stx)) \<and> settled G c addr stx t t'
      | Some e \<Rightarrow> fst r = ResultString ''0x0'' \<and> rpc_code e = DefaultErrorCode \<and>
          (t' = t \<or> rpc_message e = ''failed to commit dbTx'' \<and> settled G c addr stx t t'))"

lemma SendTx_outcome_fail:
  "SendTx_outcome G c addr stx t (ResultString ''0x0'', Some (RPCError DefaultErrorCode msg)) t"
  by (simp add: SendTx_outcome_def)

text \<open>No transaction has a number that \<open>Begin\<close> has not given out yet.\<close>

definition wf_sys :: "'w sys \<Rightarrow> bool" where
  "wf_sys s \<longleftrightarrow> pkey (committed s) \<and> (\<forall>t \<ge> next_tx s. open_txs s t = None)"

section \<open>Begin, commit and rollback\<close>

lemma wp_Begin:
  assumes "\<And>err s'. db_part s' = db_part s \<Longrightarrow> Q (Inl err) s'"
    and "\<And>s'. committed s' = committed s \<Longrightarrow> next_tx s' = Suc (next_tx s) \<Longrightarrow>
      open_txs s' = (open_txs s)(next_tx s := Some []) \<Longrightarrow> Q (Inr (next_tx s)) s'"
  shows "wp (DB_BeginStateTransaction D) Q s"
  unfolding DB_BeginStateTransaction_def wp_simps
  by (rule wp_on_world) (auto simp: wp_simps intro!: assms split: option.splits fault.splits)

lemma wp_Rollback:
  assumes "open_txs s t \<noteq> None"
    and "\<And>r s'. committed s' = committed s \<Longrightarrow> next_tx s' = next_tx s \<Longrightarrow>
      open_txs s' = (open_txs s)(t := None) \<Longrightarrow> Q r s'"
  shows "wp (Tx_Rollback D t) Q s"
  unfolding Tx_Rollback_def wp_simps
  using assms(1)
  by (auto simp: wp_simps close_tx_def intro!: wp_on_world assms(2) split: option.splits fault.splits)

lemma wp_Commit:
  assumes t: "open_txs s t = Some ws"
    and err: "\<And>e s'. committed s' = committed s \<or> apply_writes ws (committed s) = Some (committed s') \<Longrightarrow>
      next_tx s' = next_tx s \<Longrightarrow> open_txs s' = (open_txs s)(t := None) \<Longrightarrow> Q (Some e) s'"
    and ok: "\<And>s'. apply_writes ws (committed s) = Some (committed s') \<Longrightarrow>
      next_tx s' = next_tx s \<Longrightarrow> open_txs s' = (open_txs s)(t := None) \<Longrightarrow> Q None s'"
  shows "wp (Tx_Commit D t) Q s"
  unfolding Tx_Commit_def wp_simps
  using t
  by (auto simp: wp_simps try_commit_def close_tx_def intro!: wp_on_world err ok
      split: option.splits fault.splits)

section \<open>SendTx\<close>

lemma pgx_of_fields [simp]:
  "pgx_Commit (pgx_of D) = Tx_Commit D" "pgx_Rollback (pgx_of D) = Tx_Rollback D"
  by (simp_all add: pgx_of_def)

lemma DB_of_fields [simp]: "db_BeginStateTransaction (DB_of D) = DB_BeginStateTransaction D"
  by (simp add: DB_of_def)

lemma settled_commit:
  assumes "certificate_mtx G c addr stx m" and "rpc_registered c stx" and "signed_as_configured G c stx"
    and "apply_writes [Insert (row_of G ks cr u m)] t = Some t'"
  shows "settled G c addr stx t t'"
  using assms by (auto simp: settled_def split: if_splits)

text \<open>\<open>Settle\<close> in a transaction that has no pending write yet.\<close>

lemma wp_Settle_etm:
  assumes t: "open_txs s t = Some []"
    and err: "\<And>e s' ws'. committed s' = committed s \<Longrightarrow> next_tx s' = next_tx s \<Longrightarrow>
      open_txs s' = (open_txs s)(t := Some ws') \<Longrightarrow> Q (Inl e) s'"
    and ok: "\<And>m ks cr u s'. certificate_mtx G c addr stx m \<Longrightarrow>
      committed s' = committed s \<Longrightarrow> next_tx s' = next_tx s \<Longrightarrow>
      open_txs s' = (open_txs s)(t := Some [Insert (row_of G ks cr u m)]) \<Longrightarrow>
      Q (Inr (Tx_Hash G (stx_Tx stx))) s'"
  shows "wp (Executor_Settle G (lift_runtime RT) (services_executor G RT D Z c addr E) stx (Some t)) Q s"
proof (rule exe.wp_Settle_before_add, goal_cases)
  case (1 e s')
  then show ?case
    using db_part_eqD [OF 1] t by (intro err [of _ "[]"]) auto
next
  case (2 l1TxData s')
  note s' = db_part_eqD [OF 2]
  show ?case
    unfolding services_executor_fields EthTxManager_of_def IEthTxManager.simps
    using t s'
    by (intro wp_Client_Add_tx [of s' t "[]"])
      (auto intro!: err ok dest!: db_part_eqD simp: certificate_mtx_def)
qed

text \<open>From the settlement to the reply.\<close>

lemma wp_SendTx_settle:
  assumes pre: "rpc_registered c stx" "signed_as_configured G c stx"
    and t: "open_txs s t = Some []" "open_txs s0 t = None"
    and s: "committed s = committed s0" "next_tx s = Suc t" "open_txs s = (open_txs s0)(t := Some [])"
    and Q: "\<And>r s'. SendTx_outcome G c addr stx (committed s0) r (committed s') \<Longrightarrow>
      open_txs s' = open_txs s0 \<Longrightarrow> next_tx s' = Suc t \<Longrightarrow> Q r s'"
  shows "wp (SendTx_settle G (lift_runtime RT) (pgx_of D) (services_endpoints G RT D Z c addr E) stx t) Q s"
  unfolding SendTx_settle_def services_endpoints_fields pgx_of_fields wp_simps
proof (rule wp_Settle_etm [OF t(1)], goal_cases)
  case (1 e s' ws')
  then show ?case
    using s t
    by (auto simp: wp_simps rpc_fail_def intro!: wp_Rollback Q SendTx_outcome_fail)
next
  case (2 m ks cr u s')
  have settled: "settled G c addr stx (committed s0) t'"
    if "apply_writes [Insert (row_of G ks cr u m)] (committed s0) = Some t'" for t'
    using settled_commit [OF 2(1) pre that] .
  have closed: "(open_txs s0)(t := None) = open_txs s0"
    using t(2) by (rule fun_upd_idem)
  show ?case
    using 2 s t closed
    by (auto simp: wp_simps rpc_fail_def SendTx_outcome_def simp del: apply_writes.simps
        intro!: wp_Commit Q dest!: settled)
qed

theorem SendTx_rule:
  assumes wf: "wf_sys s"
    and Q: "\<And>r s'. SendTx_outcome G c addr stx (committed s) r (committed s') \<Longrightarrow>
      open_txs s' = open_txs s \<Longrightarrow> next_tx s \<le> next_tx s' \<Longrightarrow> Q r s'"
  shows "wp (InteropEndpoints_SendTx G (lift_runtime RT) (pgx_of D)
     (services_endpoints G RT D Z c addr E) stx) Q s"
proof -
  let ?e = "services_executor G RT D Z c addr E"
  have fail: "wp (rpc_fail msg) Q s'" if "db_part s' = db_part s" for msg s'
    using db_part_eqD [OF that] by (auto simp: rpc_fail_def wp_simps intro!: Q SendTx_outcome_fail)
  have bg: "wp (DB_BeginStateTransaction D) (\<lambda>b. case b of
       Inl err \<Rightarrow> wp (rpc_fail ''failed to begin dbTx'') Q
     | Inr dbTx \<Rightarrow> wp (SendTx_settle G (lift_runtime RT) (pgx_of D)
         (services_endpoints G RT D Z c addr E) stx dbTx) Q) s'"
    if d: "db_part s' = db_part s" and pre: "rpc_registered c stx" "signed_as_configured G c stx" for s'
  proof (rule wp_Begin, goal_cases)
    case (1 err s'')
    with d show ?case by (simp add: fail)
  next
    case (2 s'')
    have "open_txs s (next_tx s) = None"
      using wf by (simp add: wf_sys_def)
    with 2 db_part_eqD [OF d] show ?case
      unfolding sum.case
      by (intro wp_SendTx_settle [of c stx G s'' "next_tx s'" s addr Q RT D Z E] pre) (simp_all add: Q)
  qed
  show ?thesis
    unfolding InteropEndpoints_SendTx_def services_endpoints_fields pgx_of_fields DB_of_fields
      wp_simps
    by (rule exe.wp_quiet, rule exe.wp_CheckTx)
      (auto simp: fail intro!: exe.wp_Verify exe.wp_Execute bg split: option.splits)
qed

text \<open>The invariant of the database is kept.\<close>

lemma wf_sys_settled:
  assumes "wf_sys s" and "settled G c addr stx (committed s) (committed s')"
    and "open_txs s' = open_txs s" and "next_tx s \<le> next_tx s'"
  shows "wf_sys s'"
proof -
  have "pkey (t @ [r])" if "pkey t" and "row_key r \<notin> set (keys t)" for t r
    using that by (simp add: pkey_def keys_def)
  with assms show ?thesis
    by (auto simp: wf_sys_def settled_def simp del: keys_apply_insert)
qed

lemma wf_sys_outcome:
  assumes "wf_sys s" and "SendTx_outcome G c addr stx (committed s) r (committed s')"
    and "open_txs s' = open_txs s" and "next_tx s \<le> next_tx s'"
  shows "wf_sys s'"
  using assms wf_sys_settled [OF assms(1) _ assms(3,4)]
  by (auto simp: SendTx_outcome_def wf_sys_def split: option.splits)

section \<open>GetTxStatus\<close>

lemma wp_result_txs_etm:
  assumes "\<And>r s'. db_part s' = db_part s \<Longrightarrow> Q r s'"
  shows "wp (result_txs (services_etm G RT D c E) hs txs) Q s"
  using assms
proof (induction hs arbitrary: txs s)
  case Nil
  then show ?case by (simp add: wp_simps)
next
  case (Cons h hs)
  show ?case
    unfolding result_txs.simps services_etm_fields wp_simps lift_IEtherman_def IEtherman.simps
      EthermanInterface.simps
    by (rule wp_on_world) (auto simp: wp_simps intro!: wp_on_world Cons)
qed

lemma wp_buildResult_etm:
  assumes "\<And>r s'. db_part s' = db_part s \<Longrightarrow> (\<And>x. r = Inr x \<Longrightarrow> res_Status x = Status m) \<Longrightarrow> Q r s'"
  shows "wp (buildResult (lift_runtime RT) (services_etm G RT D c E) m) Q s"
  unfolding buildResult_def Let_def wp_simps lift_runtime_def runtime.simps
  by (rule wp_on_world, rule wp_result_txs_etm) (auto simp: wp_simps intro!: assms split: sum.splits)

text \<open>A read in a transaction without pending writes sees the committed rows.\<close>

lemma wp_pg_query_row_fresh:
  assumes t: "open_txs s t = Some []"
    and "\<And>e s'. db_part s' = db_part s \<Longrightarrow> Q (Inl e) s'"
    and "\<And>r s'. db_part s' = db_part s \<Longrightarrow> r \<in> set (committed s) \<Longrightarrow> row_key r = (ow, i) \<Longrightarrow> Q (Inr r) s'"
  shows "wp (pg_query_row D (TxConn t) ow i) Q s"
  unfolding pg_query_row_def wp_simps
  by (rule wp_on_world)
    (use t in \<open>auto simp: wp_simps find_Some_iff intro!: assms split: option.splits fault.splits\<close>)

lemma wp_Client_Result_etm:
  assumes t: "open_txs s t = Some []"
    and Q: "\<And>r s'. db_part s' = db_part s \<Longrightarrow>
      (\<And>x. r = Inr x \<Longrightarrow> \<exists>row \<in> set (committed s). row_key row = (ow, i) \<and> res_Status x = c_status row) \<Longrightarrow>
      Q r s'"
  shows "wp (Client_Result (lift_runtime RT) (services_etm G RT D c E) ow i (Some t)) Q s"
  unfolding Client_Result_def services_etm_fields storage_fields PostgresStorage_Get_def Let_def
    dbConn_simps wp_simps
proof (rule wp_pg_query_row_fresh [OF t], goal_cases)
  case (1 e s')
  then show ?case by (auto simp: wp_simps intro!: Q split: sum.splits)
next
  case (2 row s')
  show ?case
  proof (cases "scanMtx G row")
    case (Inl e)
    then show ?thesis using 2 by (auto simp: wp_simps intro!: Q)
  next
    case (Inr m)
    have "wp (buildResult (lift_runtime RT) (services_etm G RT D c E) m) Q s'"
      using 2 scanMtx_fields(2) [OF Inr] by (intro wp_buildResult_etm Q) auto
    with Inr show ?thesis by (simp add: wp_simps)
  qed
qed

lemma wp_Executor_GetTxStatus:
  assumes t: "open_txs s t = Some []"
    and Q: "\<And>r s'. db_part s' = db_part s \<Longrightarrow>
      (snd r = None \<Longrightarrow> \<exists>row \<in> set (committed s).
         row_key row = (ethTxManOwner, hash_String G h) \<and> fst r = c_status row) \<Longrightarrow> Q r s'"
  shows "wp (Executor_GetTxStatus G (lift_runtime RT) (services_executor G RT D Z c addr E) h (Some t)) Q s"
  unfolding Executor_GetTxStatus_def services_executor_fields EthTxManager_of_def IEthTxManager.simps
    wp_simps Let_def MonitoredTxStatus_String_def
  by (rule wp_Client_Result_etm [OF t])
    (auto simp: wp_simps lift_runtime_def intro!: Q wp_on_world split: sum.splits)

text \<open>The reply to \<open>GetTxStatus\<close>: the status of the row of the certificate, or an error.\<close>

definition GetTxStatus_outcome :: "geth \<Rightarrow> hash \<Rightarrow> row list \<Rightarrow> rpc_result \<times> rpc_error option \<Rightarrow> bool" where
  "GetTxStatus_outcome G h t r \<longleftrightarrow>
     (case snd r of
        None \<Rightarrow> \<exists>row \<in> set t. row_key row = (ethTxManOwner, hash_String G h) \<and>
          fst r = ResultString (c_status row)
      | Some e \<Rightarrow> fst r = ResultString ''0x0'' \<and> rpc_code e = DefaultErrorCode)"

lemma GetTxStatus_outcome_fail:
  "GetTxStatus_outcome G h t (ResultString ''0x0'', Some (RPCError DefaultErrorCode msg))"
  by (simp add: GetTxStatus_outcome_def)

lemma GetTxStatus_outcome_status:
  "row \<in> set t \<Longrightarrow> row_key row = (ethTxManOwner, hash_String G h) \<Longrightarrow>
     GetTxStatus_outcome G h t (ResultString (c_status row), None)"
  by (auto simp: GetTxStatus_outcome_def)

theorem GetTxStatus_rule:
  assumes wf: "wf_sys s"
    and Q: "\<And>r s'. GetTxStatus_outcome G h (committed s) r \<Longrightarrow> committed s' = committed s \<Longrightarrow>
      open_txs s' = open_txs s \<Longrightarrow> next_tx s \<le> next_tx s' \<Longrightarrow> Q r s'"
  shows "wp (InteropEndpoints_GetTxStatus G (lift_runtime RT) (pgx_of D)
     (services_endpoints G RT D Z c addr E) h) Q s"
proof -
  have closed: "(open_txs s)(next_tx s := None) = open_txs s"
    using wf by (intro fun_upd_idem) (simp add: wf_sys_def)
  show ?thesis
    unfolding InteropEndpoints_GetTxStatus_def services_endpoints_fields pgx_of_fields DB_of_fields
      lift_runtime_def runtime.simps wp_simps
    unfolding lift_runtime_def [symmetric]
    by (rule wp_on_world, rule wp_Begin)
      (auto simp: rpc_fail_def wp_simps closed dest!: db_part_eqD
        intro!: Q wp_Executor_GetTxStatus wp_Rollback GetTxStatus_outcome_fail GetTxStatus_outcome_status
        split: option.splits)
qed

end
