(* ===== verification/Service.thy ===== *)
theory Service
  imports Server
begin

text \<open>
  The running service as a sequence of activities: monitoring cycles and RPC calls, in any order.
  The invariant of the database and the evolution of the rows hold along every such sequence, and
  with them what a client that polls the service can be told.
\<close>

section \<open>The monitor leaves open transactions alone\<close>

definition open_part :: "'w sys \<Rightarrow> (nat \<Rightarrow> sql_write list option) \<times> nat" where
  "open_part s = (open_txs s, next_tx s)"

lemma preserves_open_on_world [preserves_intros]: "preserves open_part (on_world m)"
  by (auto intro!: preservesI wp_on_world simp: open_part_def)

lemma preserves_fault [preserves_intros]:
  "(\<And>e. preserves f (m e)) \<Longrightarrow> (\<And>e. preserves f (n e)) \<Longrightarrow>
     preserves f (case x of NotSent e \<Rightarrow> m e | AckLost e \<Rightarrow> n e)"
  by (cases x) simp_all

lemma preserves_open_try_write [preserves_intros]: "preserves open_part (try_write PoolConn w)"
  by (rule preservesI) (simp add: wp_try_write open_part_def)

lemma preserves_open_pg [preserves_intros]:
  "preserves open_part (pg_exec D PoolConn w)"
  "preserves open_part (pg_query D PoolConn p)"
  unfolding pg_exec_def pg_query_def by (intro preserves_intros)+

lemma preserves_open_services [preserves_intros]:
  "preserves open_part (st_Update (NewPostgresStorage G RT D) m None)"
  "preserves open_part (st_GetByStatus (NewPostgresStorage G RT D) ow sts None)"
  "preserves open_part (st_GetBySenderAndStatus (NewPostgresStorage G RT D) a sts None)"
  unfolding storage_fields PostgresStorage_Update_def PostgresStorage_GetByStatus_def
    PostgresStorage_GetBySenderAndStatus_def dbConn_simps Let_def
  by (intro preserves_intros)+

lemma preserves_open_lift [preserves_intros]:
  "preserves open_part (em_GetTx (lift_IEtherman E) h)"
  "preserves open_part (em_GetTxReceipt (lift_IEtherman E) h)"
  "preserves open_part (em_WaitTxToBeMined (lift_IEtherman E) t d)"
  "preserves open_part (em_SendTx (lift_IEtherman E) t)"
  "preserves open_part (em_PendingNonce (lift_IEtherman E) a)"
  "preserves open_part (em_SuggestedGasPrice (lift_IEtherman E))"
  "preserves open_part (em_EstimateGas (lift_IEtherman E) a to v dat)"
  "preserves open_part (em_CheckTxWasMined (lift_IEtherman E) h)"
  "preserves open_part (em_SignTx (lift_IEtherman E) a t)"
  "preserves open_part (em_GetRevertMessage (lift_IEtherman E) ot)"
  "preserves open_part (si_GetLastBlock (StateInterface_of (lift_IEtherman E)) dt)"
  "preserves open_part (rt_range (lift_runtime RT))"
  by (simp_all add: lift_IEtherman_def lift_runtime_def StateInterface_of_def preserves_open_on_world)

lemma preserves_open_checkHistory [preserves_intros]:
  "preserves open_part (checkHistory (services_etm G RT D c E) hs sc)"
proof (induction hs arbitrary: sc)
  case (Cons h hs)
  show ?case
    unfolding checkHistory.simps services_etm_fields
    by (intro preserves_intros Cons)
qed (simp add: preserves_intros)

lemma preserves_open_monitorTx [preserves_intros]:
  "preserves open_part (monitorTx G (lift_runtime RT) (services_etm G' RT' D c E) m)"
  unfolding monitorTx_def reviewNonceIfNeeded_def reviewMonitoredTxNonce_def getTxNonce_def
    checkRetries_def obtainReceipt_def reviewIfSent_def reviewMonitoredTx_def suggestedGasPrice_def
    signAndRecord_def sendIfUnknown_def waitMined_def settleOutcome_def finalUpdate_def
    shouldContinueToMonitorThisTx_def services_etm_fields
  by (intro preserves_intros)

lemma preserves_open_run_monitors [preserves_intros]:
  "preserves open_part (run_monitors G (lift_runtime RT) (services_etm G' RT' D c E) ms)"
  by (induction ms) (simp_all add: preserves_intros)

lemma preserves_open_monitorTxs:
  "preserves open_part (monitorTxs G (lift_runtime RT) (services_etm G' RT' D c E))"
  unfolding monitorTxs_def services_etm_fields by (intro preserves_intros)

section \<open>How the table grows\<close>

text \<open>The statuses that a row can have: nothing ever writes \<open>done\<close>.\<close>

definition live_statuses :: "MonitoredTxStatus set" where
  "live_statuses =
     {MonitoredTxStatusCreated, MonitoredTxStatusSent, MonitoredTxStatusReorged,
      MonitoredTxStatusFailed, MonitoredTxStatusConfirmed}"

definition live :: "row list \<Rightarrow> bool" where
  "live t \<longleftrightarrow> (\<forall>r \<in> set t. c_status r \<in> live_statuses)"

lemma done_not_live [simp]: "MonitoredTxStatusDone \<notin> live_statuses"
  by (simp add: live_statuses_def status_defs)

lemma status_reach_live: "status_reach s t \<Longrightarrow> s \<in> live_statuses \<Longrightarrow> t \<in> live_statuses"
proof (induction rule: rtranclp_induct)
  case (step y z)
  then show ?case by (auto elim!: status_step.cases simp: live_statuses_def)
qed

lemma row_evolves_trans: "row_evolves G a b \<Longrightarrow> row_evolves G b c \<Longrightarrow> row_evolves G a c"
  unfolding row_evolves_def by (auto intro: order_trans rtranclp_trans)

text \<open>
  The new table has every row of the old one under its key, evolved, then new rows, all
  \<open>created\<close>.
\<close>

definition table_grows :: "geth \<Rightarrow> row list \<Rightarrow> row list \<Rightarrow> bool" where
  "table_grows G t t' \<longleftrightarrow>
     (\<exists>new. keys t' = keys t @ new) \<and>
     (\<forall>k r. lookup t k = Some r \<longrightarrow> (\<exists>r'. lookup t' k = Some r' \<and> row_evolves G r r')) \<and>
     (live t \<longrightarrow> live t')"

lemma table_grows_refl [simp]: "table_grows G t t"
  by (simp add: table_grows_def)

lemma table_grows_trans: "table_grows G a b \<Longrightarrow> table_grows G b c \<Longrightarrow> table_grows G a c"
  unfolding table_grows_def by (metis append_assoc row_evolves_trans)

lemma table_grows_rows_evolve:
  assumes pk: "pkey t" and ev: "rows_evolve G t t'"
  shows "table_grows G t t'" and "pkey t'"
proof -
  show pk': "pkey t'"
    using pk ev by (simp add: pkey_def rows_evolve_def)
  have "c_status r' \<in> live_statuses" if live: "live t" and r': "r' \<in> set t'" for r'
  proof -
    have "row_key r' \<in> set (keys t')"
      using r' by (simp add: keys_def)
    with ev have "row_key r' \<in> set (keys t)"
      unfolding rows_evolve_def by metis
    then obtain r where r: "lookup t (row_key r') = Some r"
      by (cases "lookup t (row_key r')") (auto simp: lookup_None)
    with ev lookup_pkey [OF pk' r'] have "row_evolves G r r'"
      unfolding rows_evolve_def by (metis option.inject)
    with live lookup_Some [OF r] show ?thesis
      by (auto simp: row_evolves_def live_def dest: status_reach_live)
  qed
  with ev show "table_grows G t t'"
    by (simp add: table_grows_def rows_evolve_def live_def)
qed

lemma table_grows_settled:
  assumes "settled G c addr stx t t'"
  shows "table_grows G t t'"
proof -
  from assms obtain m ks cr u where m: "certificate_mtx G c addr stx m"
    and t': "t' = apply_write (Insert (row_of G ks cr u m)) t"
    by (auto simp: settled_def)
  have "lookup t' k = Some r" if "lookup t k = Some r" for k r
  proof -
    have "k \<in> set (keys t)"
      using lookup_None [of t k] that by (metis option.distinct(1))
    with that show ?thesis
      by (simp add: t' lookup_insert del: apply_write.simps)
  qed
  moreover have "keys t' = keys t @ [mtx_key m]"
    by (simp add: t' del: apply_write.simps)
  moreover have "live t \<Longrightarrow> live t'"
    using m by (auto simp: t' live_def live_statuses_def certificate_mtx_def new_mtx_def)
  ultimately show ?thesis
    by (auto simp: table_grows_def)
qed

section \<open>Activities\<close>

datatype activity = Monitor_cycle | Rpc_SendTx SignedTx | Rpc_GetTxStatus hash

text \<open>The services of one process.\<close>

record 'w deployment =
  dp_geth :: geth
  dp_runtime :: "'w runtime"
  dp_driver :: "'w pgdriver"
  dp_creator :: "'w IZkEVMClientClientCreator"
  dp_config :: Config
  dp_addr :: address
  dp_etherman :: "'w IEtherman"

definition the_etm :: "'w deployment \<Rightarrow> 'w sys Client" where
  "the_etm d = services_etm (dp_geth d) (dp_runtime d) (dp_driver d) (dp_config d) (dp_etherman d)"

definition the_endpoints :: "'w deployment \<Rightarrow> 'w sys InteropEndpoints" where
  "the_endpoints d =
     services_endpoints (dp_geth d) (dp_runtime d) (dp_driver d) (dp_creator d) (dp_config d)
       (dp_addr d) (dp_etherman d)"

definition serve_SendTx ::
    "'w deployment \<Rightarrow> SignedTx \<Rightarrow> ('w sys, rpc_result \<times> rpc_error option) state" where
  "serve_SendTx d stx =
     InteropEndpoints_SendTx (dp_geth d) (lift_runtime (dp_runtime d)) (pgx_of (dp_driver d))
       (the_endpoints d) stx"

definition serve_GetTxStatus ::
    "'w deployment \<Rightarrow> hash \<Rightarrow> ('w sys, rpc_result \<times> rpc_error option) state" where
  "serve_GetTxStatus d h =
     InteropEndpoints_GetTxStatus (dp_geth d) (lift_runtime (dp_runtime d)) (pgx_of (dp_driver d))
       (the_endpoints d) h"

definition serve_cycle :: "'w deployment \<Rightarrow> ('w sys, goerr option) state" where
  "serve_cycle d = monitorTxs (dp_geth d) (lift_runtime (dp_runtime d)) (the_etm d)"

fun perform :: "'w deployment \<Rightarrow> activity \<Rightarrow> ('w sys, unit) state" where
  "perform d Monitor_cycle = do { err \<leftarrow> serve_cycle d; ret () }"
| "perform d (Rpc_SendTx stx) = do { r \<leftarrow> serve_SendTx d stx; ret () }"
| "perform d (Rpc_GetTxStatus h) = do { r \<leftarrow> serve_GetTxStatus d h; ret () }"

fun perform_all :: "'w deployment \<Rightarrow> activity list \<Rightarrow> ('w sys, unit) state" where
  "perform_all d [] = ret ()"
| "perform_all d (a # as) = do { u \<leftarrow> perform d a; perform_all d as }"

lemma wp_serve_SendTx:
  assumes "wf_sys s"
    and "\<And>r s'. wf_sys s' \<Longrightarrow>
      SendTx_outcome (dp_geth d) (dp_config d) (dp_addr d) stx (committed s) r (committed s') \<Longrightarrow> Q r s'"
  shows "wp (serve_SendTx d stx) Q s"
  unfolding serve_SendTx_def the_endpoints_def
  by (rule SendTx_rule [OF assms(1)]) (use assms wf_sys_outcome in blast)

lemma wp_serve_GetTxStatus:
  assumes "wf_sys s"
    and "\<And>r s'. wf_sys s' \<Longrightarrow> committed s' = committed s \<Longrightarrow>
      GetTxStatus_outcome (dp_geth d) h (committed s) r \<Longrightarrow> Q r s'"
  shows "wp (serve_GetTxStatus d h) Q s"
  unfolding serve_GetTxStatus_def the_endpoints_def
  by (rule GetTxStatus_rule [OF assms(1)]) (use assms in \<open>auto simp: wf_sys_def\<close>)

lemma wp_serve_cycle:
  assumes G: "geth_ok (dp_geth d)" and wf: "wf_sys s"
    and Q: "\<And>r s'. wf_sys s' \<Longrightarrow> rows_evolve (dp_geth d) (committed s) (committed s') \<Longrightarrow> Q r s'"
  shows "wp (serve_cycle d) Q s"
  unfolding serve_cycle_def the_etm_def
proof (rule wpI)
  fix x s'
  assume run: "run_state (monitorTxs (dp_geth d) (lift_runtime (dp_runtime d))
      (services_etm (dp_geth d) (dp_runtime d) (dp_driver d) (dp_config d) (dp_etherman d))) s = (x, s')"
  have pk: "pkey (committed s)"
    using wf by (simp add: wf_sys_def)
  have ev: "rows_evolve (dp_geth d) (committed s) (committed s')"
    by (rule wpD [OF etm.monitorTxs_inv [OF G pk] run])
  have "open_part s' = open_part s"
    by (rule preservesD [OF preserves_open_monitorTxs run])
  with wf ev table_grows_rows_evolve(2) [OF pk ev] have "wf_sys s'"
    by (simp add: wf_sys_def open_part_def)
  then show "Q x s'"
    using ev by (rule Q)
qed

lemma wp_perform:
  assumes "geth_ok (dp_geth d)" and "wf_sys s"
    and Q: "\<And>u s'. wf_sys s' \<Longrightarrow> table_grows (dp_geth d) (committed s) (committed s') \<Longrightarrow> Q u s'"
  shows "wp (perform d a) Q s"
proof -
  have grows: "table_grows (dp_geth d) (committed s) t'"
    if "SendTx_outcome (dp_geth d) (dp_config d) (dp_addr d) stx (committed s) r t'" for stx r t'
    using that by (auto simp: SendTx_outcome_def intro: table_grows_settled split: option.splits)
  have "pkey (committed s)"
    using assms(2) by (simp add: wf_sys_def)
  note cycle = table_grows_rows_evolve(1) [OF this]
  show ?thesis
  proof (cases a)
    case Monitor_cycle
    then show ?thesis
      using cycle assms by (auto simp: wp_simps intro!: wp_serve_cycle Q)
  next
    case (Rpc_SendTx stx)
    then show ?thesis
      using grows assms(2) by (auto simp: wp_simps intro!: wp_serve_SendTx Q)
  next
    case (Rpc_GetTxStatus h)
    then show ?thesis
      using assms(2) by (auto simp: wp_simps intro!: wp_serve_GetTxStatus Q)
  qed
qed

lemma wp_perform_all:
  assumes G: "geth_ok (dp_geth d)" and wf: "wf_sys s"
    and Q: "\<And>u s'. wf_sys s' \<Longrightarrow> table_grows (dp_geth d) (committed s) (committed s') \<Longrightarrow> Q u s'"
  shows "wp (perform_all d as) Q s"
proof -
  have "wp (perform_all d as) (\<lambda>u s'. wf_sys s' \<and> table_grows (dp_geth d) (committed s) (committed s')) s"
    using wf
  proof (induction as arbitrary: s)
    case Nil
    then show ?case by (simp add: wp_simps)
  next
    case (Cons a as)
    show ?case
      unfolding perform_all.simps wp_simps
      by (rule wp_perform [OF G Cons.prems]) (auto elim!: wp_mono [OF Cons.IH] intro: table_grows_trans)
  qed
  then show ?thesis
    by (rule wp_mono) (auto intro: Q)
qed

end
