(* ===== verification/Tracking.thy ===== *)
theory Tracking
  imports MonitorInv
begin

text \<open>
  Every transaction the monitor sends is recorded first. The locale \<open>tracked_worker\<close> adds to
  \<open>tx_worker\<close> (\<open>tracked_client\<close> to \<open>tx_client\<close>) an observation \<open>sent\<close> of the state, the hashes handed to the network, which only
  \<open>SendTx\<close> extends. Along \<open>monitorTx\<close> and a whole cycle the invariant \<open>sent s \<subseteq> recorded G (tbl s)\<close>
  holds: no transaction reaches the network whose hash is not in the history of a committed row.
\<close>

section \<open>Recorded hashes\<close>

definition row_hashes :: "geth \<Rightarrow> row \<Rightarrow> hash set" where
  "row_hashes G r = HexToHash G ` set (c_history r)"

definition recorded :: "geth \<Rightarrow> row list \<Rightarrow> hash set" where
  "recorded G t = (\<Union>r \<in> set t. row_hashes G r)"

definition rowhist :: "geth \<Rightarrow> string \<times> string \<Rightarrow> row list \<Rightarrow> hash set" where
  "rowhist G k t = (\<Union>r \<in> {r \<in> set t. row_key r = k}. row_hashes G r)"

definition others :: "string \<times> string \<Rightarrow> row list \<Rightarrow> row list" where
  "others k t = filter (\<lambda>r. row_key r \<noteq> k) t"

lemma recorded_split: "recorded G t = rowhist G k t \<union> recorded G (others k t)"
  unfolding recorded_def rowhist_def others_def by auto

lemma rowhist_others: "k \<noteq> k' \<Longrightarrow> rowhist G k (others k' t) = rowhist G k t"
  unfolding rowhist_def others_def by (rule arg_cong [where f = Union]) auto

lemma others_update [simp]:
  "row_key u = k \<Longrightarrow> others k (apply_write (Update u) t) = others k t"
  by (induction t) (auto simp: others_def)

lemma rowhist_update:
  assumes "row_key u \<in> set (keys t)"
  shows "rowhist G (row_key u) (apply_write (Update u) t) = row_hashes G u"
proof -
  let ?S = "{r \<in> set t. row_key r = row_key u}"
  have "{r \<in> set (apply_write (Update u) t). row_key r = row_key u} =
      (\<lambda>r. u\<lparr>c_created_at := c_created_at r\<rparr>) ` ?S"
    by (auto split: if_splits)
  moreover have "row_hashes G (u\<lparr>c_created_at := x\<rparr>) = row_hashes G u" for x
    by (simp add: row_hashes_def)
  moreover have "?S \<noteq> {}"
    using assms by (auto simp: keys_def)
  ultimately show ?thesis
    by (auto simp: rowhist_def simp del: apply_write.simps)
qed

lemma row_hashes_row_of: "geth_ok G \<Longrightarrow> row_hashes G (row_of G ks c u m) = hist m"
  by (simp add: row_hashes_def row_of_def set_HistoryStringSlice image_image)

text \<open>
  The hashes \<open>X\<close> are recorded, and those in the goroutine's copy \<open>m\<close> are recorded in its own row.
\<close>

definition traced :: "geth \<Rightarrow> hash set \<Rightarrow> MonitoredTx \<Rightarrow> row list \<Rightarrow> bool" where
  "traced G X m t \<longleftrightarrow>
     mtx_key m \<in> set (keys t) \<and> X \<subseteq> hist m \<union> recorded G (others (mtx_key m) t) \<and>
     hist m \<subseteq> rowhist G (mtx_key m) t"

lemma traced_recorded: "traced G X m t \<Longrightarrow> X \<subseteq> recorded G t"
  unfolding traced_def recorded_split [of G t "mtx_key m"] by blast

lemma traced_cong: "mtx_key m' = mtx_key m \<Longrightarrow> hist m' = hist m \<Longrightarrow> traced G X m' t = traced G X m t"
  by (simp add: traced_def)

lemma traced_update:
  assumes "geth_ok G" and "evolves m m'" and "traced G X m t"
  shows "traced G X m' (apply_write (Update (row_of G ks 0 u m')) t)"
  using assms rowhist_update [of "row_of G ks 0 u m'" t G]
  by (auto simp: traced_def evolves_def row_hashes_row_of simp del: apply_write.simps)

lemma traced_evolves_back:
  assumes "evolves m m'" and "traced G X m t" and "traced G Y m' t'"
    and "others (mtx_key m) t' = others (mtx_key m) t"
  shows "traced G X m t'"
  using assms by (auto simp: traced_def evolves_def)

text \<open>The frame of one monitoring run: the keys and the other rows.\<close>

definition same_others :: "string \<times> string \<Rightarrow> row list \<Rightarrow> row list \<Rightarrow> bool" where
  "same_others k t0 t \<longleftrightarrow> keys t = keys t0 \<and> others k t = others k t0"

lemma same_others_refl [simp]: "same_others k t t"
  by (simp add: same_others_def)

lemma stable_traced:
  assumes "geth_ok G"
  shows "stable_under G m (\<lambda>t. traced G X m t \<and> same_others (mtx_key m) t0 t)"
  unfolding stable_under_def
proof (intro allI impI)
  fix ks u m' t
  assume ev: "evolves m m'" and t: "traced G X m t \<and> same_others (mtx_key m) t0 t"
  let ?t' = "apply_write (Update (row_of G ks 0 u m')) t"
  have key: "mtx_key m' = mtx_key m"
    using ev by (simp add: evolves_def)
  have oth: "others (mtx_key m) ?t' = others (mtx_key m) t"
    using key by (simp del: apply_write.simps)
  have "traced G X m ?t'"
    using traced_evolves_back [OF ev conjunct1 [OF t] traced_update [OF assms ev conjunct1 [OF t]] oth] .
  with t oth show "traced G X m ?t' \<and> same_others (mtx_key m) t0 ?t'"
    by (simp add: same_others_def del: apply_write.simps)
qed

section \<open>Clients whose sending is observed\<close>

locale tracked_worker = tx_worker G S tbl c RT
  for G :: geth and S :: "'s StorageInterface" and tbl :: "'s \<Rightarrow> row list"
    and c :: "'s Client" and RT :: "'s runtime" +
  fixes sent :: "'s \<Rightarrow> hash set"
  assumes sent_Update: "preserves sent (st_Update S m None)"
    and sent_BySender: "preserves sent (st_GetBySenderAndStatus S a sts None)"
    and sent_GetTx: "preserves sent (em_GetTx (cl_etherman c) h)"
    and sent_GetTxReceipt: "preserves sent (em_GetTxReceipt (cl_etherman c) h)"
    and sent_Wait: "preserves sent (em_WaitTxToBeMined (cl_etherman c) t d)"
    and sent_PendingNonce: "preserves sent (em_PendingNonce (cl_etherman c) a)"
    and sent_GasPrice: "preserves sent (em_SuggestedGasPrice (cl_etherman c))"
    and sent_EstimateGas: "preserves sent (em_EstimateGas (cl_etherman c) a to v dat)"
    and sent_CheckTx: "preserves sent (em_CheckTxWasMined (cl_etherman c) h)"
    and sent_SignTx: "preserves sent (em_SignTx (cl_etherman c) a t)"
    and sent_Revert: "preserves sent (em_GetRevertMessage (cl_etherman c) ot)"
    and sent_LastBlock: "preserves sent (si_GetLastBlock (cl_state c) dt)"
    and sent_range: "preserves sent (rt_range RT)"
    and send_rule: "(\<And>r s'. tbl s' = tbl s \<Longrightarrow> sent s' \<subseteq> insert (tx_Hash G t) (sent s) \<Longrightarrow> Q r s') \<Longrightarrow>
      wp (em_SendTx (cl_etherman c) t) Q s"
begin

lemmas sent_quiet = sent_Update [folded storage_S]
  sent_BySender [folded storage_S] sent_GetTx sent_GetTxReceipt sent_Wait
  sent_PendingNonce sent_GasPrice sent_EstimateGas sent_CheckTx sent_SignTx sent_Revert
  sent_LastBlock sent_range

lemma sent_checkHistory: "preserves sent (checkHistory c hs sc)"
proof (induction hs arbitrary: sc)
  case (Cons h hs)
  show ?case
    unfolding checkHistory.simps by (intro preserves_intros sent_quiet Cons)
qed (simp add: preserves_ret)

lemma sent_phases:
  "preserves sent (reviewNonceIfNeeded G c sc m)"
  "preserves sent (checkRetries c m)"
  "preserves sent (reviewIfSent c m)"
  "preserves sent (signAndRecord G c m)"
  "preserves sent (waitMined G c p)"
  "preserves sent (settleOutcome c q)"
  unfolding reviewNonceIfNeeded_def reviewMonitoredTxNonce_def getTxNonce_def checkRetries_def
    reviewIfSent_def reviewMonitoredTx_def suggestedGasPrice_def signAndRecord_def waitMined_def
    settleOutcome_def finalUpdate_def shouldContinueToMonitorThisTx_def
  by (intro preserves_intros sent_quiet)+

text \<open>The rule of a phase that sends nothing: its table rule, with the frame for \<open>sent\<close>.\<close>

lemma wp_silent:
  assumes "preserves sent m" and "wp m R s" and "\<And>r s'. R r s' \<Longrightarrow> sent s' = sent s \<Longrightarrow> Q r s'"
  shows "wp m Q s"
  using wp_conj [OF assms(2) wp_preserves [OF assms(1), where Q = "\<lambda>r s'. sent s' = sent s"]]
  by (rule wp_mono) (auto intro: assms(3))

definition tr :: "row list \<Rightarrow> MonitoredTx \<Rightarrow> 's \<Rightarrow> bool" where
  "tr t0 m s \<longleftrightarrow> geth_ok G \<and> traced G (sent s) m (tbl s) \<and> same_others (mtx_key m) t0 (tbl s)"

lemma tr_quiet: "tbl s' = tbl s \<Longrightarrow> sent s' = sent s \<Longrightarrow> tr t0 m s' = tr t0 m s"
  by (simp add: tr_def)

lemma tr_cong: "mtx_key m' = mtx_key m \<Longrightarrow> hist m' = hist m \<Longrightarrow> tr t0 m' s = tr t0 m s"
  by (simp add: tr_def traced_def)

lemma tr_recorded: "tr t0 m s \<Longrightarrow> sent s \<subseteq> recorded G (tbl s)"
  by (auto simp: tr_def dest: traced_recorded)

definition same_copy :: "MonitoredTx \<Rightarrow> MonitoredTx \<Rightarrow> bool" where
  "same_copy m m' \<longleftrightarrow> mtx_key m' = mtx_key m \<and> hist m' = hist m \<and> Status m' = Status m"

lemma same_copyI: "evolves m m' \<and> Status m' = Status m \<and> hist m' = hist m \<Longrightarrow> same_copy m m'"
  by (simp add: same_copy_def evolves_def)

lemma wp_phase:
  assumes "preserves sent p" and tr: "tr t0 m s"
    and "wp p (\<lambda>r s'. (traced G (sent s) m (tbl s') \<and> same_others (mtx_key m) t0 (tbl s')) \<and> R r) s"
    and "\<And>r s'. tr t0 m s' \<Longrightarrow> R r \<Longrightarrow> Q r s'"
  shows "wp p Q s"
  by (rule wp_silent [OF assms(1) assms(3)]) (use tr in \<open>auto simp: tr_def intro: assms(4)\<close>)

text \<open>
  The condition between two phases, on the copy \<open>m\<close> and the state, and the condition at an exit,
  for a run that started with the table \<open>t0\<close> on the transaction \<open>m0\<close>.
\<close>

definition same_key :: "MonitoredTx \<Rightarrow> MonitoredTx \<Rightarrow> bool" where
  "same_key m m' \<longleftrightarrow> mtx_key m = mtx_key m'"

definition fits :: "row list \<Rightarrow> MonitoredTx \<Rightarrow> MonitoredTx \<Rightarrow> 's \<Rightarrow> bool" where
  "fits t0 m0 m s \<longleftrightarrow> tr t0 m s \<and> same_key m m0 \<and> Status m \<in> set monitored_statuses"

definition ended :: "row list \<Rightarrow> MonitoredTx \<Rightarrow> 's \<Rightarrow> bool" where
  "ended t0 m0 s \<longleftrightarrow> sent s \<subseteq> recorded G (tbl s) \<and> same_others (mtx_key m0) t0 (tbl s)"

lemma fits_ended: "fits t0 m0 m s \<Longrightarrow> ended t0 m0 s"
  using traced_recorded [of G "sent s" m "tbl s"] by (auto simp: fits_def ended_def tr_def same_key_def)

lemma fits_quiet: "tbl s' = tbl s \<Longrightarrow> sent s' = sent s \<Longrightarrow> fits t0 m0 m s' = fits t0 m0 m s"
  by (simp add: fits_def tr_def)

lemma fits_copy:
  assumes "same_copy m m2" and "fits t0 m0 m s"
  shows "fits t0 m0 m2 s"
  using assms tr_cong [of m2 m t0 s] by (simp add: fits_def same_copy_def same_key_def)

lemma fits_geth: "fits t0 m0 m s \<Longrightarrow> geth_ok G"
  by (simp add: fits_def tr_def)

lemmas I = stable_traced [OF fits_geth]

lemma fits_I:
  "fits t0 m0 m s \<Longrightarrow> traced G (sent s) m (tbl s) \<and> same_others (mtx_key m) t0 (tbl s)"
  by (simp add: fits_def tr_def)

lemma fits_tr: "fits t0 m0 m s \<Longrightarrow> tr t0 m s' \<Longrightarrow> fits t0 m0 m s'"
  by (simp add: fits_def)

lemma fits_status: "fits t0 m0 m s \<Longrightarrow> Status m \<in> set monitored_statuses"
  by (simp add: fits_def)

lemma fits_phase:
  assumes "preserves sent p" and m: "fits t0 m0 m s"
    and "wp p (\<lambda>r s'. (traced G (sent s) m (tbl s') \<and> same_others (mtx_key m) t0 (tbl s')) \<and> R r) s"
    and R: "\<And>x. R (Inr x) \<Longrightarrow> same_copy m (g x)"
  shows "wp p (ends (ended t0 m0) (\<lambda>x. fits t0 m0 (g x))) s"
proof (rule wp_phase [OF assms(1) _ assms(3)])
  show "tr t0 m s"
    using m by (simp add: fits_def)
  show "ends (ended t0 m0) (\<lambda>x. fits t0 m0 (g x)) r s'" if "tr t0 m s'" and "R r" for r s'
    using fits_tr [OF m that(1)] that(2)
    by (cases r) (simp_all add: fits_ended fits_copy [OF R])
qed

lemma fits_reviewNonce:
  assumes "fits t0 m0 m s"
  shows "wp (reviewNonceIfNeeded G c sc m) (ends (ended t0 m0) (fits t0 m0)) s"
proof (rule fits_phase [OF sent_phases(1) assms, where R = "\<lambda>r. \<forall>m2. r = Inr m2 \<longrightarrow> same_copy m m2"])
  show "wp (reviewNonceIfNeeded G c sc m) (\<lambda>r s'. (traced G (sent s) m (tbl s') \<and>
      same_others (mtx_key m) t0 (tbl s')) \<and> (\<forall>m2. r = Inr m2 \<longrightarrow> same_copy m m2)) s"
    by (rule wp_reviewNonceIfNeeded [OF I [OF assms] evolves_refl fits_I [OF assms]]) (blast intro: same_copyI)
qed simp

lemma fits_checkRetries:
  assumes "fits t0 m0 m s"
  shows "wp (checkRetries c m) (ends (ended t0 m0) (fits t0 m0)) s"
proof (rule fits_phase [OF sent_phases(2) assms, where R = "\<lambda>r. \<forall>m2. r = Inr m2 \<longrightarrow> m2 = m"])
  show "wp (checkRetries c m) (\<lambda>r s'. (traced G (sent s) m (tbl s') \<and>
      same_others (mtx_key m) t0 (tbl s')) \<and> (\<forall>m2. r = Inr m2 \<longrightarrow> m2 = m)) s"
    by (rule wp_checkRetries [OF I [OF assms] evolves_refl fits_I [OF assms] fits_status [OF assms]]) blast
qed (simp add: same_copy_def)

lemma fits_reviewIfSent:
  assumes "fits t0 m0 m s"
  shows "wp (reviewIfSent c m) (ends (ended t0 m0) (fits t0 m0)) s"
proof (rule fits_phase [OF sent_phases(3) assms, where R = "\<lambda>r. \<forall>m2. r = Inr m2 \<longrightarrow> same_copy m m2"])
  show "wp (reviewIfSent c m) (\<lambda>r s'. (traced G (sent s) m (tbl s') \<and>
      same_others (mtx_key m) t0 (tbl s')) \<and> (\<forall>m2. r = Inr m2 \<longrightarrow> same_copy m m2)) s"
    by (rule wp_reviewIfSent [OF I [OF assms] evolves_refl fits_I [OF assms]]) (blast intro: same_copyI)
qed simp

lemma fits_waitMined:
  assumes "fits t0 m0 m s"
  shows "wp (waitMined G c (m, t)) (ends (ended t0 m0) (\<lambda>p. fits t0 m0 (fst p))) s"
proof (rule fits_phase [OF sent_phases(5) assms, where R = "\<lambda>r. \<forall>m2 x. r = Inr (m2, x) \<longrightarrow> m2 = m"])
  show "wp (waitMined G c (m, t)) (\<lambda>r s'. (traced G (sent s) m (tbl s') \<and>
      same_others (mtx_key m) t0 (tbl s')) \<and> (\<forall>m2 x. r = Inr (m2, x) \<longrightarrow> m2 = m)) s"
    by (rule wp_waitMined) (use fits_I [OF assms] in auto)
  show "same_copy m (fst p)" if "\<forall>m2 x. Inr p = (Inr (m2, x) :: monitor_exit + MonitoredTx \<times> Receipt) \<longrightarrow> m2 = m"
    for p :: "MonitoredTx \<times> Receipt"
    using that by (cases p) (simp add: same_copy_def)
qed

lemma ended_settle:
  assumes "fits t0 m0 m s"
  shows "wp (settleOutcome c (m, x)) (\<lambda>r. ended t0 m0) s"
proof (rule wp_phase [OF sent_phases(6), where R = "\<lambda>_. True"])
  show "tr t0 m s"
    using assms by (simp add: fits_def)
  show "wp (settleOutcome c (m, x)) (\<lambda>r s'. (traced G (sent s) m (tbl s') \<and>
      same_others (mtx_key m) t0 (tbl s')) \<and> True) s"
    by (rule wp_settleOutcome [OF I [OF assms] evolves_refl fits_I [OF assms] fits_status [OF assms]]) auto
  show "ended t0 m0 s'" if "tr t0 m s'" for s'
    using fits_ended [OF fits_tr [OF assms that]] .
qed

text \<open>An update with an evolved copy moves the condition to that copy, when it reports success.\<close>

lemma fits_update:
  assumes m: "fits t0 m0 m s" and ev: "evolves m m'" and st: "Status m' \<in> set monitored_statuses"
  shows "wp (st_Update (cl_storage c) m' None)
    (\<lambda>r s'. ended t0 m0 s' \<and> (r = None \<longrightarrow> fits t0 m0 m' s')) s"
proof (rule wp_silent [OF sent_quiet(1), where R = "\<lambda>r s'.
    (r = None \<longrightarrow> traced G (sent s) m' (tbl s')) \<and> traced G (sent s) m (tbl s') \<and>
    same_others (mtx_key m) t0 (tbl s')"])
  show "wp (st_Update (cl_storage c) m' None) (\<lambda>r s'.
    (r = None \<longrightarrow> traced G (sent s) m' (tbl s')) \<and> traced G (sent s) m (tbl s') \<and>
    same_others (mtx_key m) t0 (tbl s')) s"
    unfolding storage_S
  proof (rule update_rule, goal_cases)
    case (1 e s')
    with fits_I [OF m] show ?case by simp
  next
    case (2 r ks u s')
    with fits_I [OF m] traced_update [OF fits_geth [OF m] ev] I [OF m, of m "sent s" t0] ev show ?case
      by (simp add: stable_under_def del: apply_write.simps)
  qed
next
  fix r s'
  assume R: "(r = None \<longrightarrow> traced G (sent s) m' (tbl s')) \<and> traced G (sent s) m (tbl s') \<and>
    same_others (mtx_key m) t0 (tbl s')" and sent: "sent s' = sent s"
  have key: "same_key m' m" and frame: "mtx_key m' = mtx_key m"
    using ev by (simp_all add: evolves_def same_key_def)
  have "fits t0 m0 m s'"
    using R sent m by (simp add: fits_def tr_def)
  moreover have "fits t0 m0 m' s'" if "r = None"
    using R sent m st key frame that by (simp add: fits_def tr_def same_key_def)
  ultimately show "ended t0 m0 s' \<and> (r = None \<longrightarrow> fits t0 m0 m' s')"
    using fits_ended by simp
qed

text \<open>After signing, the hash is in the copy; that is what makes sending safe.\<close>

abbreviation signed_fits :: "row list \<Rightarrow> MonitoredTx \<Rightarrow> MonitoredTx \<times> transaction \<Rightarrow> 's \<Rightarrow> bool" where
  "signed_fits t0 m0 p s \<equiv> fits t0 m0 (fst p) s \<and> tx_Hash G (snd p) \<in> hist (fst p)"

lemma fits_range: "fits t0 m0 m s \<Longrightarrow> wp (rt_range RT) (\<lambda>r. fits t0 m0 m) s"
  by (rule wp_silent [OF sent_range, where R = "\<lambda>r s'. tbl s' = tbl s"])
    (simp_all add: wp_quiet fits_def tr_def)

lemma fits_checkHistory: "fits t0 m0 m s \<Longrightarrow> wp (checkHistory c hs sc) (\<lambda>r. fits t0 m0 m) s"
  by (rule wp_silent [OF sent_checkHistory, where R = "\<lambda>r s'. tbl s' = tbl s"])
    (simp_all add: wp_checkHistory fits_def tr_def)

lemma fits_SignTx: "fits t0 m0 m s \<Longrightarrow> wp (em_SignTx (cl_etherman c) a t) (\<lambda>r. fits t0 m0 m) s"
  by (rule wp_silent [OF sent_SignTx, where R = "\<lambda>r s'. tbl s' = tbl s"])
    (simp_all add: wp_quiet fits_def tr_def)

lemma fits_GetTx: "fits t0 m0 m s \<Longrightarrow> wp (em_GetTx (cl_etherman c) h) (\<lambda>r. fits t0 m0 m) s"
  by (rule wp_silent [OF sent_GetTx, where R = "\<lambda>r s'. tbl s' = tbl s"])
    (simp_all add: wp_quiet fits_def tr_def)

lemma fits_SendTx:
  assumes "fits t0 m0 m s" and "tx_Hash G t \<in> hist m"
  shows "wp (em_SendTx (cl_etherman c) t) (\<lambda>r. fits t0 m0 m) s"
  by (rule send_rule) (use assms in \<open>auto simp: fits_def tr_def traced_def\<close>)

lemma fits_AddHistory:
  assumes "fits t0 m0 m s" and "MonitoredTx_AddHistory G t m = Some (Inr m2)"
  shows "wp (st_Update (cl_storage c) m2 None)
    (\<lambda>r s'. ended t0 m0 s' \<and> (r = None \<longrightarrow> signed_fits t0 m0 (m2, t) s')) s"
proof -
  have "Status m2 = Status m" and "tx_Hash G t \<in> hist m2"
    using assms(2) by (auto simp: hist_def elim!: AddHistory_Inr)
  with fits_update [OF assms(1) evolves_history [OF assms(2)]] fits_status [OF assms(1)]
  show ?thesis by simp
qed

lemma fits_sign:
  assumes "fits t0 m0 m s"
  shows "wp (signAndRecord G c m) (ends (ended t0 m0) (signed_fits t0 m0)) s"
proof -
  have cont: "wp (case r of
       Inl e \<Rightarrow> ret (Inl (SignFailed e))
     | Inr signedTx \<Rightarrow>
         (case MonitoredTx_AddHistory G signedTx m of
            None \<Rightarrow> ret (Inl Panicked)
          | Some (Inl e) \<Rightarrow> ret (Inr (m, signedTx))
          | Some (Inr mTx) \<Rightarrow> do {
              err \<leftarrow> st_Update (cl_storage c) mTx None;
              case err of
                Some e \<Rightarrow> ret (Inl (HistoryUpdateFailed e))
              | None \<Rightarrow> ret (Inr (mTx, signedTx)) })) (ends (ended t0 m0) (signed_fits t0 m0)) s'"
    if m: "fits t0 m0 m s'" for r s'
  proof (cases r)
    case (Inl e)
    then show ?thesis using fits_ended [OF m] by (simp add: wp_simps)
  next
    case (Inr t)
    note r = this
    show ?thesis
    proof (cases "MonitoredTx_AddHistory G t m")
      case None
      then show ?thesis using r fits_ended [OF m] by (simp add: wp_simps)
    next
      case (Some x)
      show ?thesis
      proof (cases x)
        case (Inl e)
        with Some have "tx_Hash G t \<in> hist m" by (simp add: AddHistory_Inl)
        with m show ?thesis unfolding r sum.case Some option.case Inl by (simp add: wp_simps)
      next
        case (Inr m2)
        with Some have "MonitoredTx_AddHistory G t m = Some (Inr m2)" by simp
        from fits_AddHistory [OF m this] show ?thesis
          unfolding r sum.case Some option.case Inr wp_bind
          by (rule wp_mono) (simp add: wp_simps split: option.split)
      qed
    qed
  qed
  show ?thesis
    unfolding signAndRecord_def Let_def wp_bind
    by (rule wp_mono [OF fits_SignTx [OF assms]]) (rule cont)
qed

lemma fits_send:
  assumes p: "signed_fits t0 m0 p s"
  shows "wp (sendIfUnknown G c p) (ends (ended t0 m0) (\<lambda>q. fits t0 m0 (fst q))) s"
proof -
  obtain m t where pair: "p = (m, t)" by (cases p)
  with p have m: "fits t0 m0 m s" and h: "tx_Hash G t \<in> hist m" by simp_all
  have upd: "wp (st_Update (cl_storage c) (m\<lparr>Status := MonitoredTxStatusSent\<rparr>) None)
      (\<lambda>r s'. ended t0 m0 s' \<and> (r = None \<longrightarrow> fits t0 m0 (m\<lparr>Status := MonitoredTxStatusSent\<rparr>) s')) s'"
    if "fits t0 m0 m s'" and "Status m = MonitoredTxStatusCreated" for s'
    using that by (intro fits_update [OF that(1)]) (simp_all add: evolves_fields(6) status_reach_iff)
  have send: "wp (do {
        err \<leftarrow> em_SendTx (cl_etherman c) t;
        case err of
          Some e \<Rightarrow> ret (Inl (SendFailed e))
        | None \<Rightarrow>
            if Status m = MonitoredTxStatusCreated then do {
              let mTx = m\<lparr>Status := MonitoredTxStatusSent\<rparr>;
              err \<leftarrow> st_Update (cl_storage c) mTx None;
              case err of
                Some e \<Rightarrow> ret (Inl (SentUpdateFailed e))
              | None \<Rightarrow> ret (Inr (mTx, t)) }
            else ret (Inr (m, t)) }) (ends (ended t0 m0) (\<lambda>q. fits t0 m0 (fst q))) s'"
    if m': "fits t0 m0 m s'" for s'
    unfolding wp_bind Let_def
    by (rule wp_mono [OF fits_SendTx [OF m' h]])
      (auto simp: wp_simps fits_ended split: option.split intro!: wp_mono [OF upd])
  have known: "wp (ret (Inr (m, t) :: monitor_exit + MonitoredTx \<times> transaction)) (ends (ended t0 m0) (\<lambda>q. fits t0 m0 (fst q))) s'"
    if "fits t0 m0 m s'" for s'
    using that by (simp add: wp_return)
  show ?thesis
    unfolding sendIfUnknown_def pair prod.case wp_bind [of "em_GetTx _ _"] wp_case_prod
  proof (rule wp_mono [OF fits_GetTx [OF m]], goal_cases)
    case (1 x s')
    obtain a b d where x: "x = (a, b, d)" by (cases x)
    show ?case
      unfolding x prod.case wp_if using send [OF 1] known [OF 1] by simp
  qed
qed

lemma fits_obtain:
  assumes m: "fits t0 m0 m s"
  shows "wp (obtainReceipt G c sc m) (ends (ended t0 m0) (\<lambda>p. fits t0 m0 (fst p))) s"
proof (cases "confirmed sc")
  case True
  with m show ?thesis by (simp add: obtainReceipt_def wp_simps)
next
  case False
  have wait: "wp (waitMined G c p) (ends (ended t0 m0) (\<lambda>p. fits t0 m0 (fst p))) s'"
    if "fits t0 m0 (fst p) s'" for p s'
    using fits_waitMined [of t0 m0 "fst p" s' "snd p"] that by simp
  from False show ?thesis
    unfolding obtainReceipt_def
    by (simp, intro wp_and_then_ends [OF fits_reviewIfSent [OF m]] wp_and_then_ends [OF fits_sign]
        wp_and_then_ends [OF fits_send] wait)
qed

theorem monitorTx_tracked:
  assumes G: "geth_ok G" and m: "traced G (sent s) m (tbl s)"
    and st: "Status m \<in> set monitored_statuses"
  shows "wp (monitorTx G RT c m) (\<lambda>r. ended (tbl s) m) s"
proof -
  have start: "fits (tbl s) m m s"
    using G m st by (simp add: fits_def tr_def same_key_def)
  have phases: "wp (and_then (checkHistory c hs sc) (\<lambda>sc.
        and_then (reviewNonceIfNeeded G c sc m) (\<lambda>mTx.
        and_then (checkRetries c mTx) (\<lambda>mTx.
        obtainReceipt G c sc mTx)))) (ends (ended (tbl s) m) (\<lambda>p. fits (tbl s) m (fst p))) s'"
    if "fits (tbl s) m m s'" for hs sc s'
  proof (rule wp_and_then_ends [where F = "\<lambda>_. fits (tbl s) m m"])
    show "wp (checkHistory c hs sc) (ends (ended (tbl s) m) (\<lambda>_. fits (tbl s) m m)) s'"
      by (rule wp_mono [OF fits_checkHistory [OF that]]) (simp add: ends_def fits_ended split: sum.split)
  qed (intro wp_and_then_ends [OF fits_reviewNonce] wp_and_then_ends [OF fits_checkRetries] fits_obtain)
  have settle: "wp (settleOutcome c p) (\<lambda>r. ended (tbl s) m) s'" if "fits (tbl s) m (fst p) s'" for p s'
    using ended_settle [OF that, of "snd p"] by simp
  show ?thesis
    unfolding monitorTx_def wp_bind
    by (rule wp_mono [OF fits_range [OF start]], rule wp_mono [OF phases], assumption)
      (auto simp: wp_simps ends_def settle split: sum.splits)
qed

text \<open>A copy that holds exactly the hashes of its row.\<close>

definition fresh_copy :: "MonitoredTx \<Rightarrow> row list \<Rightarrow> bool" where
  "fresh_copy m t \<longleftrightarrow> mtx_key m \<in> set (keys t) \<and> hist m = rowhist G (mtx_key m) t"

lemma fresh_traced:
  assumes "fresh_copy m t" and "X \<subseteq> recorded G t"
  shows "traced G X m t"
  using assms recorded_split [of G t "mtx_key m"] by (auto simp: fresh_copy_def traced_def)

lemma fresh_other:
  assumes fresh: "fresh_copy m' t" and same: "same_others (mtx_key m) t t'" and "mtx_key m' \<noteq> mtx_key m"
  shows "fresh_copy m' t'"
proof -
  have "rowhist G (mtx_key m') t' = rowhist G (mtx_key m') (others (mtx_key m) t')"
    using assms(3) by (rule rowhist_others [symmetric])
  also have "\<dots> = rowhist G (mtx_key m') (others (mtx_key m) t)"
    using same by (simp add: same_others_def)
  also have "\<dots> = rowhist G (mtx_key m') t"
    using assms(3) by (rule rowhist_others)
  finally show ?thesis
    using fresh same by (simp add: fresh_copy_def same_others_def)
qed

lemma wp_run_monitors_tracked:
  assumes G: "geth_ok G" and "sent s \<subseteq> recorded G (tbl s)" and "distinct (map (\<lambda>m. mtx_key m) ms)"
    and "\<And>m. m \<in> set ms \<Longrightarrow> fresh_copy m (tbl s) \<and> Status m \<in> set monitored_statuses"
  shows "wp (run_monitors G RT c ms) (\<lambda>r s'. sent s' \<subseteq> recorded G (tbl s')) s"
  using assms(2-)
proof (induction ms arbitrary: s)
  case Nil
  then show ?case by (simp add: wp_simps)
next
  case (Cons m ms)
  have m: "fresh_copy m (tbl s)" "Status m \<in> set monitored_statuses"
    using Cons.prems(3) by simp_all
  show ?case
    unfolding run_monitors.simps wp_bind
  proof (rule wp_mono [OF monitorTx_tracked [OF G fresh_traced [OF m(1) Cons.prems(1)] m(2)]], goal_cases)
    case (1 x s')
    then have sent: "sent s' \<subseteq> recorded G (tbl s')" and same: "same_others (mtx_key m) (tbl s) (tbl s')"
      by (simp_all add: ended_def)
    have rest: "fresh_copy m' (tbl s') \<and> Status m' \<in> set monitored_statuses" if "m' \<in> set ms" for m'
    proof -
      have "mtx_key m \<notin> (\<lambda>m. mtx_key m) ` set ms"
        using Cons.prems(2) by simp
      moreover have "mtx_key m' \<in> (\<lambda>m. mtx_key m) ` set ms"
        using that by (rule imageI)
      ultimately have "mtx_key m' \<noteq> mtx_key m"
        by (intro notI) (simp only:)
      with Cons.prems(3) [of m'] that fresh_other [OF _ same] show ?thesis by simp
    qed
    show ?case
      by (rule wp_mono [OF Cons.IH [OF sent _ rest]]) (use Cons.prems(2) in \<open>simp_all add: wp_simps\<close>)
  qed
qed

lemma fresh_scanned:
  assumes pk: "pkey t" and r: "r \<in> set t" and m: "scanMtx G r = Inr m"
  shows "fresh_copy m t"
proof -
  have key: "mtx_key m = row_key r" and h: "hist m = row_hashes G r"
    using scanMtx_fields [OF m] by (simp_all add: row_hashes_def)
  have "{r' \<in> set t. row_key r' = row_key r} = {r}"
    using pkey_unique [OF pk] r by blast
  with key h r show ?thesis
    unfolding fresh_copy_def rowhist_def keys_def by simp
qed

lemma fixNumRetries_fresh: "fresh_copy (fixNumRetries m) t = fresh_copy m t"
  by (simp add: fresh_copy_def fixNumRetries_def)

lemma mtx_key_fixNumRetries [simp]: "mtx_key (fixNumRetries m) = mtx_key m"
  by (simp add: fixNumRetries_def)

end

text \<open>One cycle.\<close>

locale tracked_client = tx_client G S tbl c RT + tracked_worker G S tbl c RT sent
  for G :: geth and S :: "'s StorageInterface" and tbl :: "'s \<Rightarrow> row list"
    and c :: "'s Client" and RT :: "'s runtime" and sent :: "'s \<Rightarrow> hash set" +
  assumes sent_ByStatus: "preserves sent (st_GetByStatus S ow sts None)"
begin

theorem monitorTxs_tracked:
  assumes G: "geth_ok G" and pk: "pkey (tbl s)" and sent: "sent s \<subseteq> recorded G (tbl s)"
  shows "wp (monitorTxs G RT c) (\<lambda>r s'. sent s' \<subseteq> recorded G (tbl s')) s"
  unfolding monitorTxs_def wp_bind storage_S
proof (rule wp_silent [OF sent_ByStatus, where R = "\<lambda>r s'. tbl s' = tbl s \<and>
    (\<forall>ms. r = Inr ms \<longrightarrow> distinct (map (\<lambda>m. mtx_key m) ms) \<and>
      (\<forall>m \<in> set ms. fresh_copy m (tbl s) \<and> Status m \<in> set monitored_statuses))"], goal_cases)
  case 1
  show ?case
    by (rule wp_mono [OF by_status_found])
      (use pk in \<open>auto simp: found_in_def intro: fresh_scanned\<close>)
next
  case (2 r s')
  show ?case
  proof (cases r)
    case (Inl e)
    with 2 sent show ?thesis by (simp add: wp_simps)
  next
    case (Inr ms)
    have run: "wp (run_monitors G RT c (range_by ks (map fixNumRetries ms)))
        (\<lambda>r s'. sent s' \<subseteq> recorded G (tbl s')) s''"
      if "tbl s'' = tbl s" and "sent s'' = sent s" for ks s''
    proof (rule wp_run_monitors_tracked [OF G])
      have "mset (map (\<lambda>m. mtx_key m) (range_by ks (map fixNumRetries ms))) = mset (map (\<lambda>m. mtx_key m) ms)"
        by (simp add: multiset.map_comp comp_def)
      with 2 Inr show "distinct (map (\<lambda>m. mtx_key m) (range_by ks (map fixNumRetries ms)))"
        by (metis mset_eq_imp_distinct_iff)
    qed (use 2 Inr sent that in \<open>auto simp: fixNumRetries_fresh\<close>)
    show ?thesis
      unfolding Inr sum.case wp_bind
      by (rule wp_silent [OF sent_range, where R = "\<lambda>r s''. tbl s'' = tbl s'"])
        (use 2 in \<open>auto simp: wp_simps wp_quiet intro!: wp_mono [OF run]\<close>)
  qed
qed

end

end
