(* ===== verification/SendLog.thy ===== *)
theory SendLog
  imports Service Tracking
begin

text \<open>
  The deployment with a ghost log. \<open>log_deployment\<close> runs the services of a deployment in a world
  that also holds a set of events: the hashes handed to \<open>SendTx\<close> of the network, the receipts it
  reported and the last blocks it reported. Nothing reads the log. The services on it satisfy
  \<open>tracked_client\<close>, so every hash sent is in the history of a committed row, whatever the network,
  the clock and the connection to the database do.
\<close>

section \<open>The logged world\<close>

datatype event = Sent hash | Mined hash Receipt | Last_block u64

definition on_left :: "('w, 'a) state \<Rightarrow> ('w \<times> event set, 'a) state" where
  "on_left m = zoom fst (\<lambda>w s. (w, snd s)) m"

definition log_events :: "event set \<Rightarrow> ('w \<times> event set, unit) state" where
  "log_events X = do { s \<leftarrow> State_Monad.get; State_Monad.set (fst s, X \<union> snd s) }"

text \<open>Run an operation of the world, then log the events of its answer.\<close>

definition noting :: "('a \<Rightarrow> event set) \<Rightarrow> ('w, 'a) state \<Rightarrow> ('w \<times> event set, 'a) state" where
  "noting ev m = do { r \<leftarrow> on_left m; u \<leftarrow> log_events (ev r); ret r }"

definition receipt_event :: "hash \<Rightarrow> Receipt option \<times> goerr option \<Rightarrow> event set" where
  "receipt_event h r = (case r of (Some x, None) \<Rightarrow> {Mined h x} | _ \<Rightarrow> {})"

definition mined_event :: "hash \<Rightarrow> bool \<times> Receipt option \<times> goerr option \<Rightarrow> event set" where
  "mined_event h r = (case r of (True, x, e) \<Rightarrow> receipt_event h (x, e) | _ \<Rightarrow> {})"

definition block_event :: "goerr + Block \<Rightarrow> event set" where
  "block_event r = (case r of Inl e \<Rightarrow> {} | Inr b \<Rightarrow> {Last_block (sb_BlockNumber b)})"

definition log_IEtherman :: "geth \<Rightarrow> 'w IEtherman \<Rightarrow> ('w \<times> event set) IEtherman" where
  "log_IEtherman G E =
     \<lparr>em_GetTx = (\<lambda>h. on_left (em_GetTx E h)),
      em_GetTxReceipt = (\<lambda>h. noting (receipt_event h) (em_GetTxReceipt E h)),
      em_WaitTxToBeMined = (\<lambda>t d. on_left (em_WaitTxToBeMined E t d)),
      em_SendTx = (\<lambda>t. do { u \<leftarrow> log_events {Sent (tx_Hash G t)}; on_left (em_SendTx E t) }),
      em_PendingNonce = (\<lambda>a. on_left (em_PendingNonce E a)),
      em_SuggestedGasPrice = on_left (em_SuggestedGasPrice E),
      em_EstimateGas = (\<lambda>a to v d. on_left (em_EstimateGas E a to v d)),
      em_CheckTxWasMined = (\<lambda>h. noting (mined_event h) (em_CheckTxWasMined E h)),
      em_SignTx = (\<lambda>a t. on_left (em_SignTx E a t)),
      em_GetRevertMessage = (\<lambda>t. on_left (em_GetRevertMessage E t)),
      em_GetSequencerAddr = (\<lambda>r. on_left (em_GetSequencerAddr E r)),
      em_BuildTrustedVerifyBatchesTxData =
        (\<lambda>l n z r. on_left (em_BuildTrustedVerifyBatchesTxData E l n z r)),
      em_CallContract = (\<lambda>m b. on_left (em_CallContract E m b)),
      em_GetLastBlock = (\<lambda>d. noting block_event (em_GetLastBlock E d))\<rparr>"

definition log_runtime :: "'w runtime \<Rightarrow> ('w \<times> event set) runtime" where
  "log_runtime RT =
     \<lparr>rt_Now = on_left (rt_Now RT), rt_range = on_left (rt_range RT),
      rt_count = (\<lambda>n r. on_left (rt_count RT n r))\<rparr>"

definition log_driver :: "'w pgdriver \<Rightarrow> ('w \<times> event set) pgdriver" where
  "log_driver D = \<lparr>pg_fault = on_left (pg_fault D), pg_cut = on_left (pg_cut D)\<rparr>"

definition log_creator :: "'w IZkEVMClientClientCreator \<Rightarrow> ('w \<times> event set) IZkEVMClientClientCreator" where
  "log_creator Z =
     \<lparr>zk_NewClient =
        (\<lambda>u. \<lparr>zk_BatchByNumber = (\<lambda>n. on_left (zk_BatchByNumber (zk_NewClient Z u) n))\<rparr>)\<rparr>"

definition log_deployment :: "'w deployment \<Rightarrow> ('w \<times> event set) deployment" where
  "log_deployment d =
     \<lparr>dp_geth = dp_geth d, dp_runtime = log_runtime (dp_runtime d), dp_driver = log_driver (dp_driver d),
      dp_creator = log_creator (dp_creator d), dp_config = dp_config d, dp_addr = dp_addr d,
      dp_etherman = log_IEtherman (dp_geth d) (dp_etherman d)\<rparr>"

definition sent_of :: "('w \<times> event set) sys \<Rightarrow> hash set" where
  "sent_of s = {h. Sent h \<in> snd (world s)}"

lemma sent_of_update [simp]:
  "sent_of (s\<lparr>committed := t\<rparr>) = sent_of s"
  "sent_of (s\<lparr>open_txs := o'\<rparr>) = sent_of s"
  "sent_of (s\<lparr>next_tx := n\<rparr>) = sent_of s"
  by (simp_all add: sent_of_def)

lemma sent_quiet [preserves_intros]: "preserves sent_of (on_world (on_left m))"
  by (simp add: preserves_def on_world_def on_left_def sent_of_def split: prod.splits)

lemma sent_noting:
  "(\<And>r h. Sent h \<notin> ev r) \<Longrightarrow> preserves sent_of (on_world (noting ev m))"
  by (simp add: preserves_def on_world_def noting_def log_events_def on_left_def sent_of_def split: prod.splits)

lemma no_Sent [simp]:
  "Sent k \<notin> receipt_event h r" "Sent k \<notin> mined_event h r'" "Sent k \<notin> block_event r''"
  by (auto simp: receipt_event_def mined_event_def block_event_def split: prod.splits option.splits sum.splits bool.splits)

section \<open>Only SendTx writes the log\<close>

lemma sent_runtime [preserves_intros]:
  "preserves sent_of (on_world (rt_Now (log_runtime RT)))"
  "preserves sent_of (on_world (rt_range (log_runtime RT)))"
  "preserves sent_of (on_world (pg_fault (log_driver D)))"
  "preserves sent_of (on_world (pg_cut (log_driver D)))"
  "preserves sent_of (rt_range (lift_runtime (log_runtime RT)))"
  "preserves sent_of (rt_count (lift_runtime (log_runtime RT)) n r)"
  by (simp_all add: log_runtime_def log_driver_def lift_runtime_def sent_quiet)

lemma sent_try_write [preserves_intros]: "preserves sent_of (try_write c w)"
  by (rule preservesI, cases c) (auto simp: wp_try_write split: option.splits)

lemma sent_pg [preserves_intros]:
  "preserves sent_of (pg_exec (log_driver D) c w)"
  "preserves sent_of (pg_query (log_driver D) c p)"
  "preserves sent_of (pg_query_row (log_driver D) c ow i)"
  unfolding pg_exec_def pg_query_def pg_query_row_def Let_def by (intro preserves_intros)+

lemma preserves_goerr [preserves_intros]:
  assumes "preserves f a" and "\<And>x y. preserves f (b x y)"
  shows "preserves f (case e of PgError x y \<Rightarrow> b x y | _ \<Rightarrow> a)"
  using assms by (cases e) simp_all

lemma sent_storage [preserves_intros]:
  "preserves sent_of (st_Add (NewPostgresStorage G (log_runtime RT) (log_driver D)) m dt)"
  "preserves sent_of (st_Get (NewPostgresStorage G (log_runtime RT) (log_driver D)) ow i dt)"
  "preserves sent_of (st_GetByStatus (NewPostgresStorage G (log_runtime RT) (log_driver D)) ow' sts dt)"
  "preserves sent_of (st_GetBySenderAndStatus (NewPostgresStorage G (log_runtime RT) (log_driver D)) a sts dt)"
  "preserves sent_of (st_Update (NewPostgresStorage G (log_runtime RT) (log_driver D)) m dt)"
  unfolding storage_fields PostgresStorage_Add_def PostgresStorage_Get_def
    PostgresStorage_GetByStatus_def PostgresStorage_GetBySenderAndStatus_def
    PostgresStorage_Update_def Let_def
  by (intro preserves_intros)+

lemma sent_etherman [preserves_intros]:
  "preserves sent_of (em_GetTx (lift_IEtherman (log_IEtherman G E)) h)"
  "preserves sent_of (em_GetTxReceipt (lift_IEtherman (log_IEtherman G E)) h)"
  "preserves sent_of (em_WaitTxToBeMined (lift_IEtherman (log_IEtherman G E)) t d)"
  "preserves sent_of (em_PendingNonce (lift_IEtherman (log_IEtherman G E)) a)"
  "preserves sent_of (em_SuggestedGasPrice (lift_IEtherman (log_IEtherman G E)))"
  "preserves sent_of (em_EstimateGas (lift_IEtherman (log_IEtherman G E)) a to v dat)"
  "preserves sent_of (em_CheckTxWasMined (lift_IEtherman (log_IEtherman G E)) h)"
  "preserves sent_of (em_SignTx (lift_IEtherman (log_IEtherman G E)) a t)"
  "preserves sent_of (em_GetRevertMessage (lift_IEtherman (log_IEtherman G E)) ot)"
  "preserves sent_of (em_GetSequencerAddr (lift_IEtherman (log_IEtherman G E)) r)"
  "preserves sent_of (em_BuildTrustedVerifyBatchesTxData (lift_IEtherman (log_IEtherman G E)) l n z r)"
  "preserves sent_of (em_CallContract (lift_IEtherman (log_IEtherman G E)) msg b)"
  "preserves sent_of (si_GetLastBlock (StateInterface_of (lift_IEtherman (log_IEtherman G E))) dt)"
  "preserves sent_of (zk_BatchByNumber (zk_NewClient (lift_creator (log_creator Z)) u) num)"
  by (simp_all add: lift_IEtherman_def log_IEtherman_def lift_creator_def log_creator_def
      StateInterface_of_def sent_quiet sent_noting)

lemma wp_logged_SendTx:
  assumes "\<And>r s'. committed s' = committed s \<Longrightarrow> sent_of s' \<subseteq> insert (tx_Hash G t) (sent_of s) \<Longrightarrow> Q r s'"
  shows "wp (em_SendTx (lift_IEtherman (log_IEtherman G E)) t) Q s"
  unfolding lift_IEtherman_def log_IEtherman_def log_events_def on_world_def
  by (auto simp: wp_run on_left_def sent_of_def intro!: assms split: prod.splits)

interpretation trk: tracked_client G "NewPostgresStorage G (log_runtime RT) (log_driver D)" committed
    "services_etm G (log_runtime RT) (log_driver D) c (log_IEtherman G E)"
    "lift_runtime (log_runtime RT)" sent_of
  for G :: geth and RT :: "'w runtime" and D :: "'w pgdriver" and c :: Config and E :: "'w IEtherman"
  by unfold_locales
    (auto simp: sent_storage [simplified] sent_etherman sent_runtime intro!: wp_logged_SendTx)

section \<open>Every activity keeps the log within the table\<close>

lemma wp_logged_fault:
  assumes "\<And>x s'. sent_of s' = sent_of s \<Longrightarrow> open_txs s' = open_txs s \<Longrightarrow> Q x s'"
  shows "wp (on_world (pg_fault (log_driver D))) Q s"
  by (rule wp_preserves [of "\<lambda>s. (sent_of s, open_txs s)"])
    (auto simp: preserves_def on_world_def log_driver_def on_left_def sent_of_def assms split: prod.splits)

lemma sent_tx_control [preserves_intros]:
  "preserves sent_of (db_BeginStateTransaction (DB_of (log_driver D)))"
  "preserves sent_of (pgx_Rollback (pgx_of (log_driver D)) t)"
  "preserves sent_of (pgx_Commit (pgx_of (log_driver D)) t)"
  unfolding DB_of_fields DB_BeginStateTransaction_def pgx_of_fields Tx_Rollback_def Tx_Commit_def
    try_commit_def
  by (rule preservesI, auto simp: wp_simps close_tx_def intro!: wp_logged_fault
      split: option.splits fault.splits)+

lemma sent_result_txs [preserves_intros]:
  "preserves sent_of (result_txs (services_etm G RT D c (log_IEtherman G E)) hs txs)"
proof (induction hs arbitrary: txs)
  case (Cons h hs)
  show ?case
    unfolding result_txs.simps services_etm_fields by (intro preserves_intros Cons)
qed (simp add: preserves_intros)

lemma sent_endpoints:
  "preserves sent_of (serve_SendTx (log_deployment d) stx)"
  "preserves sent_of (serve_GetTxStatus (log_deployment d) h)"
  unfolding serve_SendTx_def serve_GetTxStatus_def the_endpoints_def log_deployment_def deployment.simps
    InteropEndpoints_SendTx_def SendTx_settle_def rpc_fail_def InteropEndpoints_GetTxStatus_def
    services_endpoints_fields Executor_CheckTx_def Executor_Verify_def Executor_verifyZKP_def
    Executor_verifySignature_def Executor_Execute_def Executor_Settle_def Executor_GetTxStatus_def
    services_executor_fields EthTxManager_of_def IEthTxManager.simps Client_Add_def Client_Result_def
    buildResult_def getTxNonce_def suggestedGasPrice_def services_etm_fields Let_def
  by (intro preserves_intros)+

lemma recorded_append: "recorded G t \<subseteq> recorded G (t @ new)"
  by (auto simp: recorded_def)

definition log_recorded :: "'w deployment \<Rightarrow> ('w \<times> event set) sys \<Rightarrow> bool" where
  "log_recorded d s \<longleftrightarrow> wf_sys s \<and> sent_of s \<subseteq> recorded (dp_geth d) (committed s)"

lemma log_deployment_geth [simp]: "dp_geth (log_deployment d) = dp_geth d"
  by (simp add: log_deployment_def)

lemma wp_perform_logged:
  assumes G: "geth_ok (dp_geth d)" and s: "log_recorded d s"
  shows "wp (perform (log_deployment d) a) (\<lambda>u. log_recorded d) s"
proof (cases a)
  case Monitor_cycle
  have wf: "wp (serve_cycle (log_deployment d)) (\<lambda>r s'. wf_sys s') s"
    by (rule wp_serve_cycle) (use G s in \<open>simp_all add: log_recorded_def\<close>)
  have "wp (serve_cycle (log_deployment d))
      (\<lambda>r s'. sent_of s' \<subseteq> recorded (dp_geth d) (committed s')) s"
    unfolding serve_cycle_def the_etm_def log_deployment_def deployment.simps
    by (rule trk.monitorTxs_tracked [OF G]) (use s in \<open>simp_all add: log_recorded_def wf_sys_def\<close>)
  from wp_conj [OF wf this] show ?thesis
    unfolding Monitor_cycle perform.simps wp_bind
    by (rule wp_mono) (simp add: wp_simps log_recorded_def)
next
  case (Rpc_SendTx stx)
  have wf: "wf_sys s"
    using s by (simp add: log_recorded_def)
  have sub: "recorded (dp_geth d) (committed s) \<subseteq> recorded (dp_geth d) t'"
    if "SendTx_outcome (dp_geth d) c addr stx (committed s) r t'" for c addr r t'
    using that recorded_append by (auto simp: SendTx_outcome_def settled_def split: option.splits)
  have "wp (serve_SendTx (log_deployment d) stx)
      (\<lambda>r s'. wf_sys s' \<and> recorded (dp_geth d) (committed s) \<subseteq> recorded (dp_geth d) (committed s')) s"
    by (rule wp_serve_SendTx [OF wf]) (simp add: sub)
  then have "wp (serve_SendTx (log_deployment d) stx) (\<lambda>r. log_recorded d) s"
    by (rule trk.wp_silent [OF sent_endpoints(1)]) (use s in \<open>auto simp: log_recorded_def\<close>)
  then show ?thesis
    unfolding Rpc_SendTx perform.simps wp_bind by (rule wp_mono) (simp add: wp_simps)
next
  case (Rpc_GetTxStatus h)
  have "wp (serve_GetTxStatus (log_deployment d) h)
      (\<lambda>r s'. wf_sys s' \<and> committed s' = committed s) s"
    by (rule wp_serve_GetTxStatus) (use s in \<open>simp_all add: log_recorded_def\<close>)
  then have "wp (serve_GetTxStatus (log_deployment d) h) (\<lambda>r. log_recorded d) s"
    by (rule trk.wp_silent [OF sent_endpoints(2)]) (use s in \<open>auto simp: log_recorded_def\<close>)
  then show ?thesis
    unfolding Rpc_GetTxStatus perform.simps wp_bind by (rule wp_mono) (simp add: wp_simps)
qed

lemma wp_perform_all_logged:
  assumes "geth_ok (dp_geth d)" and "log_recorded d s"
  shows "wp (perform_all (log_deployment d) as) (\<lambda>u. log_recorded d) s"
  using assms(2)
proof (induction as arbitrary: s)
  case Nil
  then show ?case by (simp add: wp_simps)
next
  case (Cons a as)
  show ?case
    unfolding perform_all.simps wp_bind
    by (rule wp_mono [OF wp_perform_logged [OF assms(1) Cons.prems]]) (rule Cons.IH)
qed

end
