(* ===== verification/Polling.thy ===== *)
theory Polling
  imports Service
begin

text \<open>
  A client of \<open>client/client.go\<close> that talks to the service. Between two calls the service may do
  anything it does (\<open>nw_meanwhile\<close>, a list of activities); a call may be lost before or after it
  was served (\<open>nw_fault\<close>). The reply is the JSON-RPC 2.0 response: the result as a JSON string,
  a hash in its text form, or the error object.
\<close>

record 'w network =
  nw_meanwhile :: "('w, activity list) state"
  nw_fault :: "('w, fault option) state"

definition wire :: "geth \<Rightarrow> rpc_result \<times> rpc_error option \<Rightarrow> Response" where
  "wire G r =
     (case snd r of
        Some e \<Rightarrow> \<lparr>resp_Result = None, resp_Error = Some (rpc_code e, rpc_message e)\<rparr>
      | None \<Rightarrow>
          \<lparr>resp_Result = Some (JString (case fst r of ResultHash h \<Rightarrow> hash_String G h | ResultString t \<Rightarrow> t)),
           resp_Error = None\<rparr>)"

definition dispatch ::
    "'w deployment \<Rightarrow> call_param \<Rightarrow> ('w sys, rpc_result \<times> rpc_error option) state" where
  "dispatch d p =
     (case p of Param_SignedTx stx \<Rightarrow> serve_SendTx d stx | Param_Hash h \<Rightarrow> serve_GetTxStatus d h)"

definition http_call :: "'w deployment \<Rightarrow> 'w network \<Rightarrow> 'w sys JSONRPCCall" where
  "http_call d N u method p = do {
     as \<leftarrow> on_world (nw_meanwhile N);
     perform_all d as;
     f \<leftarrow> on_world (nw_fault N);
     case f of
       None \<Rightarrow> do { r \<leftarrow> dispatch d p; ret (Inr (wire (dp_geth d) r)) }
     | Some (NotSent e) \<Rightarrow> ret (Inl e)
     | Some (AckLost e) \<Rightarrow> do { r \<leftarrow> dispatch d p; ret (Inl e) } }"

text \<open>What a client can rely on: the database is well formed and no row is \<open>done\<close>.\<close>

definition service_inv :: "'w deployment \<Rightarrow> 'w sys \<Rightarrow> bool" where
  "service_inv d s \<longleftrightarrow> geth_ok (dp_geth d) \<and> wf_sys s \<and> live (committed s)"

lemma service_inv_world [simp]: "service_inv d (s\<lparr>world := w\<rparr>) = service_inv d s"
  by (simp add: service_inv_def wf_sys_def)

lemma service_inv_perform_all:
  assumes "service_inv d s" and "\<And>u s'. service_inv d s' \<Longrightarrow> Q u s'"
  shows "wp (perform_all d as) Q s"
  by (rule wp_perform_all) (use assms in \<open>auto simp: service_inv_def table_grows_def\<close>)

lemma wp_dispatch_status:
  assumes inv: "service_inv d s"
    and Q: "\<And>r s'. service_inv d s' \<Longrightarrow> reply_in live_statuses (Inr (wire (dp_geth d) r)) \<Longrightarrow> Q r s'"
  shows "wp (dispatch d (Param_Hash h)) Q s"
  unfolding dispatch_def call_param.case
proof (rule wp_serve_GetTxStatus, goal_cases)
  case 1
  then show ?case using inv by (simp add: service_inv_def)
next
  case (2 r s')
  have "reply_in live_statuses (Inr (wire (dp_geth d) r))"
    using 2(3) inv
    by (cases "snd r") (auto simp: reply_in_def wire_def GetTxStatus_outcome_def service_inv_def live_def)
  then show ?case
    using 2 inv by (intro Q) (simp_all add: service_inv_def)
qed

interpretation srv: status_service "http_call d N" "service_inv d" live_statuses
  for d :: "'w deployment" and N :: "'w network"
proof
  fix s :: "'w sys" and Q u h
  assume inv: "service_inv d s" and Q: "\<And>r s'. service_inv d s' \<Longrightarrow> reply_in live_statuses r \<Longrightarrow> Q r s'"
  have "reply_in live_statuses (Inl e)" for e
    by (simp add: reply_in_def)
  then show "wp (http_call d N u ''interop_getTxStatus'' (Param_Hash h)) Q s"
    unfolding http_call_def wp_simps
    by (intro wp_on_world service_inv_perform_all)
      (auto simp: inv wp_simps intro!: wp_on_world wp_dispatch_status Q split: option.split fault.split)
qed

end
