(* ===== verification/Reference.thy ===== *)
theory Reference
  imports SendLog Polling
begin

text \<open>
  A concrete deployment, for the witnesses: the reference library functions, the default
  configuration, a network without receipts that accepts every transaction, a database that never
  fails, and a full node that knows the batch of \<open>ref_stx\<close>. The world is the unit type.
\<close>

definition ref_runtime :: "unit runtime" where
  "ref_runtime = \<lparr>rt_Now = ret 0, rt_range = ret [], rt_count = (\<lambda>n r. ret ())\<rparr>"

definition ref_driver :: "unit pgdriver" where
  "ref_driver = \<lparr>pg_fault = ret None, pg_cut = ret None\<rparr>"

definition ref_not_found :: goerr where
  "ref_not_found = Foreign EthNotFound ''not found''"

definition ref_etherman :: "unit IEtherman" where
  "ref_etherman =
     \<lparr>em_GetTx = (\<lambda>h. ret (None, False, Some ref_not_found)),
      em_GetTxReceipt = (\<lambda>h. ret (None, Some ref_not_found)),
      em_WaitTxToBeMined = (\<lambda>t d. ret (Inr False)),
      em_SendTx = (\<lambda>t. ret None),
      em_PendingNonce = (\<lambda>a. ret (Inr 3)),
      em_SuggestedGasPrice = ret (Inr 10),
      em_EstimateGas = (\<lambda>a to v d. ret (Inr 21000)),
      em_CheckTxWasMined = (\<lambda>h. ret (False, None, None)),
      em_SignTx = (\<lambda>a t. ret (Inr t)),
      em_GetRevertMessage = (\<lambda>t. ret ([], None)),
      em_GetSequencerAddr = (\<lambda>r. ret (Inr 5)),
      em_BuildTrustedVerifyBatchesTxData = (\<lambda>l n z r. ret (Inr [1, 2])),
      em_CallContract = (\<lambda>m b. ret ([], None)),
      em_GetLastBlock =
        (\<lambda>d. ret (Inr \<lparr>sb_BlockNumber = 9, sb_BlockHash = 0, sb_ParentHash = 0, sb_ReceivedAt = 0\<rparr>))\<rparr>"

definition ref_creator :: "unit IZkEVMClientClientCreator" where
  "ref_creator =
     \<lparr>zk_NewClient = (\<lambda>u. \<lparr>zk_BatchByNumber = (\<lambda>n. ret (Inr (Some \<lparr>StateRoot = 1, LocalExitRoot = 2\<rparr>)))\<rparr>)\<rparr>"

definition ref_deployment :: "unit deployment" where
  "ref_deployment =
     \<lparr>dp_geth = ref_geth, dp_runtime = ref_runtime, dp_driver = ref_driver, dp_creator = ref_creator,
      dp_config = DefaultValues, dp_addr = 7, dp_etherman = ref_etherman\<rparr>"

definition ref_sys :: "'w \<Rightarrow> 'w sys" where
  "ref_sys w = \<lparr>world = w, committed = [], open_txs = (\<lambda>t. None), next_tx = 0\<rparr>"

text \<open>A certificate of rollup 1, signed so that the stand-in scheme recovers the address 5.\<close>

definition ref_stx :: SignedTx where
  "ref_stx =
     \<lparr>stx_Tx =
        \<lparr>RollupID = 1, LastVerifiedBatch = 1, NewVerifiedBatch = 2,
         tx_ZKP = \<lparr>NewStateRoot = 1, NewLocalExitRoot = 2, zkp_Proof = [3]\<rparr>\<rparr>,
      Signature = [5]\<rparr>"

lemma ref_deployment_geth [simp]: "dp_geth ref_deployment = ref_geth"
  by (simp add: ref_deployment_def)

lemma wf_ref_sys [simp]: "wf_sys (ref_sys w)"
  by (simp add: wf_sys_def ref_sys_def pkey_def keys_def)

lemma live_ref_sys [simp]: "live (committed (ref_sys w))"
  by (simp add: live_def ref_sys_def)

lemma log_recorded_ref_sys [simp]: "log_recorded d (ref_sys (w, {}))"
  by (simp add: log_recorded_def sent_of_def) (simp add: ref_sys_def)

end
