(* ===== verification/Evidence.thy ===== *)
theory Evidence
  imports SendLog
begin

text \<open>
  Why a row is \<open>confirmed\<close>. The locale \<open>evidence_worker\<close> adds to
  \<open>tx_worker\<close> (\<open>evidence_client\<close> to \<open>tx_client\<close>) an observation
  \<open>seen\<close>, what the network has reported so far, which no operation shrinks. Along \<open>monitorTx\<close> and
  a whole cycle every confirmed row stays backed: a hash of its own history has a successful
  receipt among the reports, in the block the row names, and a last block not below it was
  reported too.
\<close>

section \<open>Backed rows\<close>

definition backing :: "event set \<Rightarrow> hash set \<Rightarrow> u64 option \<Rightarrow> bool" where
  "backing L H b \<longleftrightarrow>
     (\<exists>h \<in> H. \<exists>x n k. Mined h x \<in> L \<and> rcpt_Status x = ReceiptStatusSuccessful \<and>
        rcpt_BlockNumber x = Some n \<and> b = Some (Uint64 n) \<and> Last_block k \<in> L \<and> Uint64 n \<le> k)"

definition backed :: "geth \<Rightarrow> event set \<Rightarrow> row list \<Rightarrow> bool" where
  "backed G L t \<longleftrightarrow>
     (\<forall>r \<in> set t. c_status r = MonitoredTxStatusConfirmed \<longrightarrow>
        backing L (row_hashes G r) (c_block_num r))"

lemma backing_mono: "backing L H b \<Longrightarrow> L \<subseteq> L' \<Longrightarrow> H \<subseteq> H' \<Longrightarrow> backing L' H' b"
  unfolding backing_def by blast

lemma backed_mono: "backed G L t \<Longrightarrow> L \<subseteq> L' \<Longrightarrow> backed G L' t"
  unfolding backed_def using backing_mono by blast

lemma backed_update:
  assumes "backed G L t"
    and "Status m = MonitoredTxStatusConfirmed \<Longrightarrow> geth_ok G \<and> backing L (hist m) (MonitoredTx_BlockNumberU64Ptr m)"
  shows "backed G L (apply_write (Update (row_of G ks 0 u m)) t)"
proof -
  have "backing L (row_hashes G r) (c_block_num r)"
    if "r = (row_of G ks 0 u m)\<lparr>c_created_at := x\<rparr>" and "c_status r = MonitoredTxStatusConfirmed" for r x
  proof -
    have "row_hashes G r = row_hashes G (row_of G ks 0 u m)" and "Status m = MonitoredTxStatusConfirmed"
      and "c_block_num r = MonitoredTx_BlockNumberU64Ptr m"
      using that by (simp_all add: row_hashes_def row_of_def)
    with assms(2) row_hashes_row_of show ?thesis by simp
  qed
  with assms(1) show ?thesis
    by (auto simp: backed_def)
qed

lemma monitored_not_confirmed:
  "st \<in> set monitored_statuses \<Longrightarrow> st \<noteq> MonitoredTxStatusConfirmed"
  by (auto simp: monitored_statuses_def status_defs)

definition grows :: "('s \<Rightarrow> 'e set) \<Rightarrow> ('s, 'a) state \<Rightarrow> bool" where
  "grows f m \<longleftrightarrow> (\<forall>s. f s \<subseteq> f (snd (run_state m s)))"

lemma wp_grows: "grows f m \<Longrightarrow> wp m (\<lambda>r s'. f s \<subseteq> f s') s"
  by (simp add: grows_def wp_run)

section \<open>Clients whose reports are observed\<close>

locale evidence_worker = tx_worker G S tbl c RT
  for G :: geth and S :: "'s StorageInterface" and tbl :: "'s \<Rightarrow> row list"
    and c :: "'s Client" and RT :: "'s runtime" +
  fixes seen :: "'s \<Rightarrow> event set"
  assumes seen_Update: "grows seen (st_Update S m None)"
    and seen_BySender: "grows seen (st_GetBySenderAndStatus S a sts None)"
    and seen_GetTx: "grows seen (em_GetTx (cl_etherman c) h)"
    and seen_Wait: "grows seen (em_WaitTxToBeMined (cl_etherman c) t d)"
    and seen_SendTx: "grows seen (em_SendTx (cl_etherman c) t)"
    and seen_PendingNonce: "grows seen (em_PendingNonce (cl_etherman c) a)"
    and seen_GasPrice: "grows seen (em_SuggestedGasPrice (cl_etherman c))"
    and seen_EstimateGas: "grows seen (em_EstimateGas (cl_etherman c) a to v dat)"
    and seen_SignTx: "grows seen (em_SignTx (cl_etherman c) a t)"
    and seen_Revert: "grows seen (em_GetRevertMessage (cl_etherman c) ot)"
    and seen_range: "grows seen (rt_range RT)"
    and receipt_seen: "wp (em_GetTxReceipt (cl_etherman c) h)
      (\<lambda>r s'. seen s \<subseteq> seen s' \<and> receipt_event h r \<subseteq> seen s') s"
    and mined_seen: "wp (em_CheckTxWasMined (cl_etherman c) h)
      (\<lambda>r s'. seen s \<subseteq> seen s' \<and> mined_event h r \<subseteq> seen s') s"
    and block_seen: "wp (si_GetLastBlock (cl_state c) dt)
      (\<lambda>r s'. seen s \<subseteq> seen s' \<and> block_event r \<subseteq> seen s') s"
begin

definition J :: "'s \<Rightarrow> bool" where
  "J s \<longleftrightarrow> geth_ok G \<and> backed G (seen s) (tbl s)"

definition later :: "'s \<Rightarrow> 's \<Rightarrow> bool" where
  "later s s' \<longleftrightarrow> seen s \<subseteq> seen s'"

lemma later_refl [simp]: "later s s"
  by (simp add: later_def)

lemma later_trans: "later s s' \<Longrightarrow> later s' s'' \<Longrightarrow> later s s''"
  by (auto simp: later_def)

lemma J_grows: "J s \<Longrightarrow> tbl s' = tbl s \<Longrightarrow> later s s' \<Longrightarrow> J s'"
  by (auto simp: J_def later_def elim: backed_mono)

text \<open>The operations that read: the condition stays, and what was seen is still seen.\<close>

lemma calm:
  assumes "preserves tbl m" and "wp m (\<lambda>r s'. seen s \<subseteq> seen s' \<and> E r s') s" and "J s"
    and "\<And>r s'. J s' \<Longrightarrow> later s s' \<Longrightarrow> E r s' \<Longrightarrow> Q r s'"
  shows "wp m Q s"
  by (rule wp_mono [OF wp_conj [OF wp_preserves [OF assms(1), where Q = "\<lambda>r s'. tbl s' = tbl s"] assms(2)]])
    (use assms(3,4) J_grows in \<open>auto simp: later_def\<close>)

lemma calm_grows:
  assumes "preserves tbl m" and "grows seen m" and "J s" and "\<And>r s'. J s' \<Longrightarrow> later s s' \<Longrightarrow> Q r s'"
  shows "wp m Q s"
  by (rule calm [OF assms(1) _ assms(3), where E = "\<lambda>r s'. True"]) (use wp_grows [OF assms(2)] assms(4) in auto)

lemmas J_quiet = calm_grows [OF quiet_GetTx seen_GetTx] calm_grows [OF quiet_Wait seen_Wait]
  calm_grows [OF quiet_SendTx seen_SendTx] calm_grows [OF quiet_PendingNonce seen_PendingNonce]
  calm_grows [OF quiet_GasPrice seen_GasPrice] calm_grows [OF quiet_EstimateGas seen_EstimateGas]
  calm_grows [OF quiet_SignTx seen_SignTx] calm_grows [OF quiet_Revert seen_Revert]
  calm_grows [OF quiet_range seen_range]

lemmas J_receipt = calm [OF quiet_GetTxReceipt receipt_seen]
lemmas J_mined = calm [OF quiet_CheckTx mined_seen]
lemmas J_block = calm [OF quiet_LastBlock block_seen]

lemma J_by_sender:
  assumes "J s" and "\<And>r s'. J s' \<Longrightarrow> later s s' \<Longrightarrow> Q r s'"
  shows "wp (st_GetBySenderAndStatus S a sts None) Q s"
proof -
  have "wp (st_GetBySenderAndStatus S a sts None) (\<lambda>r s'. tbl s' = tbl s) s"
    by (rule wp_preserves [OF sender_reads])
  from wp_conj [OF this wp_grows [OF seen_BySender]] show ?thesis
    by (rule wp_mono) (use assms J_grows in \<open>auto simp: later_def\<close>)
qed

lemma J_update:
  assumes "J s"
    and "Status m = MonitoredTxStatusConfirmed \<Longrightarrow>
      backing (seen s) (hist m) (MonitoredTx_BlockNumberU64Ptr m)"
    and "\<And>r s'. J s' \<Longrightarrow> later s s' \<Longrightarrow> Q r s'"
  shows "wp (st_Update (cl_storage c) m None) Q s"
  unfolding storage_S
proof (rule wp_mono [OF wp_conj [OF _ wp_grows [OF seen_Update]]])
  show "wp (st_Update S m None) (\<lambda>r s'. tbl s' = tbl s \<or>
      (\<exists>ks u. tbl s' = apply_write (Update (row_of G ks 0 u m)) (tbl s))) s"
    by (rule update_rule) blast+
  show "Q r s'" if "(tbl s' = tbl s \<or> (\<exists>ks u. tbl s' = apply_write (Update (row_of G ks 0 u m)) (tbl s))) \<and>
      seen s \<subseteq> seen s'" for r s'
  proof (rule assms(3))
    have "backed G (seen s) (tbl s')"
      using that assms(1) backed_update [of G "seen s" "tbl s" m] assms(2)
      by (auto simp: J_def simp del: apply_write.simps)
    with that show "J s'"
      using assms(1) backed_mono by (auto simp: J_def)
  qed (use that in \<open>simp add: later_def\<close>)
qed

text \<open>A receipt that the network has reported for one of the hashes.\<close>

definition vouched :: "hash set \<Rightarrow> Receipt \<Rightarrow> 's \<Rightarrow> bool" where
  "vouched H x s \<longleftrightarrow> (\<exists>h \<in> H. Mined h x \<in> seen s)"

lemma vouched_mono: "vouched H x s \<Longrightarrow> H \<subseteq> H' \<Longrightarrow> later s s' \<Longrightarrow> vouched H' x s'"
  unfolding vouched_def later_def by blast

text \<open>The condition between two phases, for the scan \<open>sc\<close> and the copy \<open>m\<close>.\<close>

definition K :: "scan \<Rightarrow> MonitoredTx \<Rightarrow> 's \<Rightarrow> bool" where
  "K sc m s \<longleftrightarrow>
     J s \<and> Status m \<in> set monitored_statuses \<and>
     (confirmed sc \<longrightarrow> vouched (hist m) (lastReceiptChecked sc) s)"

lemma K_J: "K sc m s \<Longrightarrow> J s"
  by (simp add: K_def)

lemma K_open: "K sc m s \<Longrightarrow> Status m \<noteq> MonitoredTxStatusConfirmed"
  using monitored_not_confirmed by (auto simp: K_def)

lemma K_step:
  "K sc m s \<Longrightarrow> J s' \<Longrightarrow> later s s' \<Longrightarrow> Status m' = Status m \<Longrightarrow> hist m \<subseteq> hist m' \<Longrightarrow> K sc m' s'"
  unfolding K_def using vouched_mono by metis

lemma K_update:
  assumes "K sc m s" and "Status m' = Status m" and "hist m \<subseteq> hist m'"
    and "\<And>r s'. J s' \<Longrightarrow> K sc m' s' \<Longrightarrow> Q r s'"
  shows "wp (st_Update (cl_storage c) m' None) Q s"
  by (rule J_update [OF K_J [OF assms(1)]])
    (use assms K_open [OF assms(1)] K_step [OF assms(1)] in auto)

lemma K_checkHistory:
  assumes "J s" and "\<not> confirmed sc" and "Status m \<in> set monitored_statuses" and "set hs \<subseteq> hist m"
  shows "wp (checkHistory c hs sc) (ends J (\<lambda>sc'. K sc' m)) s"
  using assms
proof (induction hs arbitrary: sc s)
  case Nil
  then show ?case by (simp add: wp_simps K_def)
next
  case (Cons h hs)
  have next_hash: "wp (checkHistory c hs sc') (ends J (\<lambda>sc'. K sc' m)) s'"
    if "J s'" and "\<not> confirmed sc'" for sc' s'
    using that Cons by simp
  show ?case
    unfolding checkHistory.simps wp_simps
  proof (rule J_mined [OF Cons.prems(1)], goal_cases)
    case (1 r s')
    obtain mined receipt err where r: "r = (mined, receipt, err)"
      by (cases r)
    have "vouched (hist m) x s'" if "mined" and "receipt = Some x" and "err = None" for x
      using 1 r that Cons.prems(4) by (auto simp: vouched_def mined_event_def receipt_event_def)
    then show ?case
      using 1(1) Cons.prems(2,3) unfolding r prod.case
      by (auto simp: wp_simps K_def intro!: next_hash split: option.split)
  qed
qed

lemma K_getTxNonce:
  assumes "K sc m s" and "\<And>r s'. K sc m s' \<Longrightarrow> Q r s'"
  shows "wp (getTxNonce c from) Q s"
proof -
  have K: "K sc m s'" if "J s'" "later s s'" for s'
    using K_step [OF assms(1) that] by simp
  show ?thesis
    unfolding getTxNonce_def storage_S wp_simps
    by (rule J_by_sender [OF K_J [OF assms(1)]])
      (auto simp: wp_simps split: sum.splits intro!: assms(2) K J_quiet intro: later_trans)
qed

lemma K_reviewNonce:
  assumes "K sc m s"
  shows "wp (reviewNonceIfNeeded G c sc m) (ends J (K sc)) s"
proof -
  have "wp (st_Update (cl_storage c) m' None)
      (\<lambda>err. case err of Some e \<Rightarrow> ends J (K sc) (Inl (NonceUpdateFailed e)) | None \<Rightarrow> ends J (K sc) (Inr m')) s'"
    if "K sc m s'" and "Status m' = Status m" and "hist m' = hist m" for m' s'
    by (rule K_update [OF that(1,2)]) (use that(3) in \<open>auto split: option.split\<close>)
  then show ?thesis
    using assms unfolding reviewNonceIfNeeded_def reviewMonitoredTxNonce_def
    by (auto simp: wp_simps K_J intro!: K_getTxNonce [OF assms] split: sum.splits)
qed

lemma K_checkRetries:
  assumes "K sc m s"
  shows "wp (checkRetries c m) (ends J (K sc)) s"
  unfolding checkRetries_def
  by (auto simp: wp_simps assms status_defs intro!: J_update [OF K_J [OF assms]])

lemma K_reviewIfSent:
  assumes "K sc m s"
  shows "wp (reviewIfSent c m) (ends J (K sc)) s"
proof -
  have upd: "wp (st_Update (cl_storage c) m' None) Q s'"
    if "J s'" and "later s s'" and "Status m' = Status m" and "hist m' = hist m"
      and "\<And>r s''. J s'' \<Longrightarrow> K sc m' s'' \<Longrightarrow> Q r s''" for m' Q s'
    using that K_step [OF assms that(1,2)] by (intro K_update [of sc m s' m' Q]) auto
  show ?thesis
    using K_J [OF assms] assms unfolding reviewIfSent_def reviewMonitoredTx_def suggestedGasPrice_def Let_def
    by (auto simp: wp_simps intro!: J_quiet upd split: sum.splits option.splits)
      (blast intro: later_trans)+
qed

text \<open>From the signed transaction on, the hash is in the copy; then so is the receipt.\<close>

definition signed_K :: "MonitoredTx \<times> transaction \<Rightarrow> 's \<Rightarrow> bool" where
  "signed_K p s \<longleftrightarrow> K scan_start (fst p) s \<and> tx_Hash G (snd p) \<in> hist (fst p)"

definition receipt_K :: "MonitoredTx \<times> Receipt \<Rightarrow> 's \<Rightarrow> bool" where
  "receipt_K p s \<longleftrightarrow>
     J s \<and> Status (fst p) \<in> set monitored_statuses \<and> vouched (hist (fst p)) (snd p) s"

lemma scan_start_open [simp]: "\<not> confirmed scan_start"
  by (simp add: scan_start_def)

lemma K_unconfirmed: "K sc m s \<Longrightarrow> K scan_start m s"
  by (simp add: K_def)

lemma K_sign:
  assumes "K sc m s"
  shows "wp (signAndRecord G c m) (ends J signed_K) s"
  unfolding signAndRecord_def Let_def wp_simps
proof (rule J_quiet(7) [OF K_J [OF assms]], goal_cases)
  case (1 r s')
  have K: "K scan_start m s'"
    using K_unconfirmed [OF K_step [OF assms 1]] by simp
  have upd: "wp (st_Update (cl_storage c) m2 None)
      (\<lambda>err. case err of Some e \<Rightarrow> J | None \<Rightarrow> signed_K (m2, t)) s'"
    if "MonitoredTx_AddHistory G t m = Some (Inr m2)" for m2 t
  proof (rule K_update [OF K])
    show "Status m2 = Status m" and "hist m \<subseteq> hist m2"
      using that by (auto simp: hist_def elim!: AddHistory_Inr)
    have "tx_Hash G t \<in> hist m2"
      using that by (auto simp: hist_def elim!: AddHistory_Inr)
    then show "(case err of Some e \<Rightarrow> J | None \<Rightarrow> signed_K (m2, t)) s''"
      if "J s''" and "K scan_start m2 s''" for err s''
      using that by (simp add: signed_K_def split: option.split)
  qed
  have known: "signed_K (m, t) s'" if "MonitoredTx_AddHistory G t m = Some (Inl e)" for t e
    using that K by (simp add: signed_K_def AddHistory_Inl)
  show ?case
    using 1(1) by (auto simp: wp_simps upd known split: sum.split option.split)
qed

lemma K_send:
  assumes "signed_K p s"
  shows "wp (sendIfUnknown G c p) (ends J signed_K) s"
proof -
  obtain m t where p: "p = (m, t)" by (cases p)
  with assms have K: "K scan_start m s" and h: "tx_Hash G t \<in> hist m"
    by (simp_all add: signed_K_def)
  have same: "signed_K (m, t) s'" if "J s'" and "later s s'" for s'
    using K_step [OF K that] h by (simp add: signed_K_def)
  have sent: "wp (st_Update (cl_storage c) (m\<lparr>Status := MonitoredTxStatusSent\<rparr>) None)
      (\<lambda>err. case err of Some e \<Rightarrow> J | None \<Rightarrow> signed_K (m\<lparr>Status := MonitoredTxStatusSent\<rparr>, t)) s'"
    if "J s'" for s'
    by (rule J_update [OF that])
      (use monitored_not_confirmed [OF monitored_simps(2)] h in
        \<open>auto simp: signed_K_def K_def split: option.split\<close>)
  show ?thesis
    unfolding sendIfUnknown_def p prod.case Let_def wp_simps
    by (rule J_quiet(1) [OF K_J [OF K]])
      (auto simp: wp_simps intro!: J_quiet(3) sent same split: option.split; blast intro: later_trans)
qed

lemma K_wait:
  assumes "signed_K p s"
  shows "wp (waitMined G c p) (ends J receipt_K) s"
proof -
  obtain m t where p: "p = (m, t)" by (cases p)
  with assms have K: "K scan_start m s" and h: "tx_Hash G t \<in> hist m"
    by (simp_all add: signed_K_def)
  have got: "receipt_K (m, x) s'" if "J s'" and "receipt_event (tx_Hash G t) (Some x, None) \<subseteq> seen s'" for x s'
    using that K h by (auto simp: receipt_K_def K_def vouched_def receipt_event_def)
  show ?thesis
    unfolding waitMined_def p prod.case wp_simps
    by (rule J_quiet(2) [OF K_J [OF K]])
      (auto simp: wp_simps intro!: J_receipt got split: sum.split option.split)
qed

lemma K_obtain:
  assumes "K sc m s"
  shows "wp (obtainReceipt G c sc m) (ends J receipt_K) s"
proof (cases "confirmed sc")
  case True
  with assms show ?thesis
    by (simp add: obtainReceipt_def wp_simps receipt_K_def K_def)
next
  case False
  then show ?thesis
    unfolding obtainReceipt_def
    by (simp, intro wp_and_then_ends [OF K_reviewIfSent [OF assms]] wp_and_then_ends [OF K_sign]
        wp_and_then_ends [OF K_send] K_wait)
qed

lemma K_settle:
  assumes "receipt_K p s"
  shows "wp (settleOutcome c p) (\<lambda>r. J) s"
proof -
  obtain m x where p: "p = (m, x)" by (cases p)
  with assms have J: "J s" and v: "vouched (hist m) x s"
    by (simp_all add: receipt_K_def)
  have failed: "wp (st_Update (cl_storage c) (m\<lparr>Status := MonitoredTxStatusFailed, BlockNumber := b\<rparr>) None)
      (\<lambda>err. case err of Some e \<Rightarrow> J | None \<Rightarrow> J) s'" if "J s'" for b s'
    by (rule J_update [OF that]) (auto simp: status_defs split: option.split)
  have confirm: "wp (st_Update (cl_storage c)
        (m\<lparr>Status := MonitoredTxStatusConfirmed, BlockNumber := Some n\<rparr>) None)
      (\<lambda>err. case err of Some e \<Rightarrow> J | None \<Rightarrow> J) s'"
    if "J s'" and "later s s'" and "block_event (Inr b) \<subseteq> seen s'"
      and "rcpt_Status x = ReceiptStatusSuccessful" and "rcpt_BlockNumber x = Some n"
      and "\<not> sb_BlockNumber b < Uint64 n" for s' b n
  proof (rule J_update [OF that(1)])
    have "vouched (hist m) x s'"
      using vouched_mono [OF v subset_refl that(2)] .
    with that(3-) show "backing (seen s') (hist (m\<lparr>Status := MonitoredTxStatusConfirmed,
        BlockNumber := Some n\<rparr>)) (MonitoredTx_BlockNumberU64Ptr
        (m\<lparr>Status := MonitoredTxStatusConfirmed, BlockNumber := Some n\<rparr>))"
      by (auto simp: backing_def vouched_def block_event_def MonitoredTx_BlockNumberU64Ptr_def not_less)
  qed (auto split: option.split)
  show ?thesis
    unfolding settleOutcome_def p prod.case finalUpdate_def shouldContinueToMonitorThisTx_def Let_def
    by (auto simp: wp_simps J intro!: J_block [OF _ _] J_quiet(1,8) failed confirm
        split: option.split sum.split)
qed

theorem monitorTx_backed:
  assumes "J s" and "Status m \<in> set monitored_statuses"
  shows "wp (monitorTx G RT c m) (\<lambda>r. J) s"
proof -
  have phases: "wp (and_then (checkHistory c (range_by ks (map_keys (History m))) scan_start) (\<lambda>sc.
        and_then (reviewNonceIfNeeded G c sc m) (\<lambda>mTx.
        and_then (checkRetries c mTx) (\<lambda>mTx.
        obtainReceipt G c sc mTx)))) (ends J receipt_K) s'"
    if "J s'" for ks s'
    by (rule wp_and_then_ends [OF K_checkHistory [OF that, where m = m]])
      (use assms(2) in \<open>auto simp: hist_def intro!: wp_and_then_ends [OF K_reviewNonce]
        wp_and_then_ends [OF K_checkRetries] K_obtain\<close>)
  show ?thesis
    unfolding monitorTx_def wp_bind
    by (rule J_quiet(9) [OF assms(1)], rule wp_mono [OF phases], assumption)
      (auto simp: wp_simps ends_def K_settle split: sum.splits)
qed

lemma run_monitors_backed:
  "J s \<Longrightarrow> \<forall>m \<in> set ms. Status m \<in> set monitored_statuses \<Longrightarrow> wp (run_monitors G RT c ms) (\<lambda>r. J) s"
proof (induction ms arbitrary: s)
  case (Cons m ms)
  then show ?case
    unfolding run_monitors.simps wp_bind
    by (intro wp_mono [OF monitorTx_backed [of s m]]) (auto simp: wp_simps intro!: wp_mono [OF Cons.IH])
qed (simp add: wp_simps)

end

locale evidence_client = tx_client G S tbl c RT + evidence_worker G S tbl c RT seen
  for G :: geth and S :: "'s StorageInterface" and tbl :: "'s \<Rightarrow> row list"
    and c :: "'s Client" and RT :: "'s runtime" and seen :: "'s \<Rightarrow> event set" +
  assumes seen_ByStatus: "grows seen (st_GetByStatus S ow sts None)"
begin

theorem monitorTxs_backed:
  assumes "J s"
  shows "wp (monitorTxs G RT c) (\<lambda>r. J) s"
proof -
  have "wp (st_GetByStatus S None monitored_statuses None)
      (\<lambda>r s'. tbl s' = tbl s \<and> (\<forall>ms. r = Inr ms \<longrightarrow> (\<forall>m \<in> set ms. Status m \<in> set monitored_statuses))) s"
    by (rule wp_mono [OF by_status_found]) (auto simp: found_in_def)
  from wp_conj [OF this wp_grows [OF seen_ByStatus]] show ?thesis
    unfolding monitorTxs_def storage_S wp_bind
    by (rule wp_mono)
      (auto simp: wp_simps split: sum.split intro: assms J_grows [OF assms] simp: later_def
        intro!: J_quiet(9) wp_mono [OF run_monitors_backed])
qed

end

section \<open>The services on the log\<close>

definition seen_of :: "('w \<times> event set) sys \<Rightarrow> event set" where
  "seen_of s = snd (world s)"

lemma seen_of_update [simp]:
  "seen_of (s\<lparr>committed := t\<rparr>) = seen_of s"
  "seen_of (s\<lparr>open_txs := o'\<rparr>) = seen_of s"
  "seen_of (s\<lparr>next_tx := n\<rparr>) = seen_of s"
  by (simp_all add: seen_of_def)

lemma preserves_grows: "preserves f m \<Longrightarrow> grows f m"
  by (simp add: preserves_def grows_def)

lemma seen_quiet [preserves_intros]: "preserves seen_of (on_world (on_left m))"
  by (simp add: preserves_def on_world_def on_left_def seen_of_def split: prod.splits)

lemma seen_runtime [preserves_intros]:
  "preserves seen_of (on_world (rt_Now (log_runtime RT)))"
  "preserves seen_of (on_world (rt_range (log_runtime RT)))"
  "preserves seen_of (on_world (pg_fault (log_driver D)))"
  "preserves seen_of (on_world (pg_cut (log_driver D)))"
  "preserves seen_of (rt_range (lift_runtime (log_runtime RT)))"
  by (simp_all add: log_runtime_def log_driver_def lift_runtime_def seen_quiet)

lemma seen_try_write [preserves_intros]: "preserves seen_of (try_write c w)"
  by (rule preservesI, cases c) (auto simp: wp_try_write split: option.splits)

lemma seen_storage:
  "preserves seen_of (PostgresStorage_GetByStatus G (log_driver D) ow' sts dt)"
  "preserves seen_of (PostgresStorage_GetBySenderAndStatus G (log_driver D) a sts dt)"
  "preserves seen_of (PostgresStorage_Update G (log_runtime RT) (log_driver D) m dt)"
  unfolding PostgresStorage_GetByStatus_def PostgresStorage_GetBySenderAndStatus_def
    PostgresStorage_Update_def pg_exec_def pg_query_def Let_def
  by (intro preserves_intros)+

lemma wp_noting:
  "wp (on_world (noting ev m)) (\<lambda>r s'. seen_of s \<subseteq> seen_of s' \<and> ev r \<subseteq> seen_of s') s"
  by (auto simp: wp_run on_world_def noting_def log_events_def on_left_def seen_of_def split: prod.splits)

lemma grows_SendTx: "grows seen_of (on_world (em_SendTx (log_IEtherman G E) t))"
  by (auto simp: grows_def log_IEtherman_def on_world_def log_events_def on_left_def seen_of_def
      split: prod.splits)

interpretation ev: evidence_client G "NewPostgresStorage G (log_runtime RT) (log_driver D)" committed
    "services_etm G (log_runtime RT) (log_driver D) c (log_IEtherman G E)"
    "lift_runtime (log_runtime RT)" seen_of
  for G :: geth and RT :: "'w runtime" and D :: "'w pgdriver" and c :: Config and E :: "'w IEtherman"
proof unfold_locales
  show "grows seen_of (em_SendTx (cl_etherman (services_etm G (log_runtime RT) (log_driver D) c
      (log_IEtherman G E))) t)" for t
    using grows_SendTx by (simp add: lift_IEtherman_def)
qed (auto intro: preserves_grows simp: seen_storage seen_quiet seen_runtime lift_IEtherman_def
    log_IEtherman_def StateInterface_of_def wp_noting)

section \<open>Every activity keeps the rows backed\<close>

named_theorems grows_intros

lemma grows_ret [grows_intros]: "grows f (ret x)"
  by (simp add: grows_def)

lemma grows_bind [grows_intros]:
  "grows f m \<Longrightarrow> (\<And>x. grows f (g x)) \<Longrightarrow> grows f (State_Monad.bind m g)"
  by (simp add: grows_def split: prod.splits) (metis snd_conv subset_trans)

lemma grows_cases [grows_intros]:
  "grows f m \<Longrightarrow> (\<And>y. grows f (g y)) \<Longrightarrow> grows f (case x of None \<Rightarrow> m | Some y \<Rightarrow> g y)"
  "(\<And>a. grows f (h a)) \<Longrightarrow> (\<And>b. grows f (k b)) \<Longrightarrow>
     grows f (case y of Inl a \<Rightarrow> h a | Inr b \<Rightarrow> k b)"
  "(\<And>a b. grows f (l a b)) \<Longrightarrow> grows f (case z of (a, b) \<Rightarrow> l a b)"
  "grows f m \<Longrightarrow> grows f n \<Longrightarrow> grows f (if b then m else n)"
  by (simp_all split: option.split sum.split prod.split)

lemma seen_tx_control:
  "preserves seen_of (db_BeginStateTransaction (DB_of (log_driver D)))"
  "preserves seen_of (pgx_Rollback (pgx_of (log_driver D)) t)"
  "preserves seen_of (pgx_Commit (pgx_of (log_driver D)) t)"
proof -
  have fault: "wp (on_world (pg_fault (log_driver D))) Q s"
    if "\<And>x s'. seen_of s' = seen_of s \<Longrightarrow> open_txs s' = open_txs s \<Longrightarrow> Q x s'" for Q s
    by (rule wp_preserves [of "\<lambda>s. (seen_of s, open_txs s)"])
      (auto simp: preserves_def on_world_def log_driver_def on_left_def seen_of_def that split: prod.splits)
  show "preserves seen_of (db_BeginStateTransaction (DB_of (log_driver D)))"
    "preserves seen_of (pgx_Rollback (pgx_of (log_driver D)) t)"
    "preserves seen_of (pgx_Commit (pgx_of (log_driver D)) t)"
    unfolding DB_of_fields DB_BeginStateTransaction_def pgx_of_fields Tx_Rollback_def Tx_Commit_def
      try_commit_def
    by (rule preservesI, auto simp: wp_simps close_tx_def intro!: fault split: option.splits fault.splits)+
qed

lemma seen_storage_tx:
  "preserves seen_of (PostgresStorage_Add G (log_runtime RT) (log_driver D) m dt)"
  "preserves seen_of (PostgresStorage_Get G (log_driver D) ow i dt)"
  unfolding PostgresStorage_Add_def PostgresStorage_Get_def pg_exec_def pg_query_row_def Let_def
  by (intro preserves_intros)+

lemma grows_noting: "grows seen_of (on_world (noting e m))"
  using wp_noting [of e m] by (auto simp: grows_def wp_run)

lemma grows_services [grows_intros]:
  "grows seen_of (em_GetTx (lift_IEtherman (log_IEtherman G E)) h)"
  "grows seen_of (em_GetTxReceipt (lift_IEtherman (log_IEtherman G E)) h)"
  "grows seen_of (em_PendingNonce (lift_IEtherman (log_IEtherman G E)) a)"
  "grows seen_of (em_SuggestedGasPrice (lift_IEtherman (log_IEtherman G E)))"
  "grows seen_of (em_EstimateGas (lift_IEtherman (log_IEtherman G E)) a to v dat)"
  "grows seen_of (em_GetRevertMessage (lift_IEtherman (log_IEtherman G E)) ot)"
  "grows seen_of (em_GetSequencerAddr (lift_IEtherman (log_IEtherman G E)) r)"
  "grows seen_of (em_BuildTrustedVerifyBatchesTxData (lift_IEtherman (log_IEtherman G E)) l n z r)"
  "grows seen_of (em_CallContract (lift_IEtherman (log_IEtherman G E)) msg b)"
  "grows seen_of (zk_BatchByNumber (zk_NewClient (lift_creator (log_creator Z)) u) num)"
  "grows seen_of (rt_range (lift_runtime (log_runtime RT)))"
  "grows seen_of (rt_count (lift_runtime (log_runtime RT)) nm ro)"
  by (auto intro!: grows_noting preserves_grows simp: lift_IEtherman_def log_IEtherman_def
      lift_creator_def log_creator_def lift_runtime_def log_runtime_def seen_quiet)

lemmas grows_db [grows_intros] = seen_tx_control [THEN preserves_grows]
  seen_storage_tx [THEN preserves_grows] seen_storage [THEN preserves_grows]

lemma grows_result_txs [grows_intros]:
  "grows seen_of (result_txs (services_etm G RT D c (log_IEtherman G E)) hs txs)"
proof (induction hs arbitrary: txs)
  case (Cons h hs)
  show ?case
    unfolding result_txs.simps services_etm_fields by (intro grows_intros Cons)
qed (simp add: grows_intros)

lemma grows_endpoints:
  "grows seen_of (serve_SendTx (log_deployment d) stx)"
  "grows seen_of (serve_GetTxStatus (log_deployment d) h)"
  unfolding serve_SendTx_def serve_GetTxStatus_def the_endpoints_def log_deployment_def deployment.simps
    InteropEndpoints_SendTx_def SendTx_settle_def rpc_fail_def InteropEndpoints_GetTxStatus_def
    services_endpoints_fields Executor_CheckTx_def Executor_Verify_def Executor_verifyZKP_def
    Executor_verifySignature_def Executor_Execute_def Executor_Settle_def Executor_GetTxStatus_def
    services_executor_fields EthTxManager_of_def IEthTxManager.simps Client_Add_def Client_Result_def
    buildResult_def getTxNonce_def suggestedGasPrice_def services_etm_fields storage_fields Let_def
  by (intro grows_intros)+

definition log_backed :: "'w deployment \<Rightarrow> ('w \<times> event set) sys \<Rightarrow> bool" where
  "log_backed d s \<longleftrightarrow> wf_sys s \<and> backed (dp_geth d) (seen_of s) (committed s)"

lemma backed_outcome:
  assumes "SendTx_outcome G c addr stx t r t'" and "backed G L t"
  shows "backed G L t'"
proof -
  have "backed G L (t @ [row_of G ks cr u m])" if "certificate_mtx G c addr stx m" for ks cr u m
    using that assms(2) by (auto simp: backed_def certificate_mtx_def new_mtx_def status_defs)
  with assms show ?thesis
    by (auto simp: SendTx_outcome_def settled_def split: option.splits)
qed

lemma wp_perform_backed:
  assumes G: "geth_ok (dp_geth d)" and s: "log_backed d s"
  shows "wp (perform (log_deployment d) a) (\<lambda>u. log_backed d) s"
proof (cases a)
  case Monitor_cycle
  have wf: "wp (serve_cycle (log_deployment d)) (\<lambda>r s'. wf_sys s') s"
    by (rule wp_serve_cycle) (use G s in \<open>simp_all add: log_backed_def\<close>)
  have "wp (serve_cycle (log_deployment d)) (\<lambda>r s'. backed (dp_geth d) (seen_of s') (committed s')) s"
    unfolding serve_cycle_def the_etm_def log_deployment_def deployment.simps
    by (rule wp_mono [OF ev.monitorTxs_backed]) (use G s in \<open>simp_all add: log_backed_def ev.J_def\<close>)
  from wp_conj [OF wf this] show ?thesis
    unfolding Monitor_cycle perform.simps wp_bind
    by (rule wp_mono) (simp add: wp_simps log_backed_def)
next
  case (Rpc_SendTx stx)
  have "wp (serve_SendTx (log_deployment d) stx)
      (\<lambda>r s'. wf_sys s' \<and> backed (dp_geth d) (seen_of s) (committed s')) s"
    by (rule wp_serve_SendTx) (use s backed_outcome in \<open>auto simp: log_backed_def\<close>)
  from wp_conj [OF this wp_grows [OF grows_endpoints(1)]] show ?thesis
    unfolding Rpc_SendTx perform.simps wp_bind
    by (rule wp_mono) (auto simp: wp_simps log_backed_def intro: backed_mono)
next
  case (Rpc_GetTxStatus h)
  have "wp (serve_GetTxStatus (log_deployment d) h) (\<lambda>r s'. wf_sys s' \<and> committed s' = committed s) s"
    by (rule wp_serve_GetTxStatus) (use s in \<open>simp_all add: log_backed_def\<close>)
  from wp_conj [OF this wp_grows [OF grows_endpoints(2)]] show ?thesis
    unfolding Rpc_GetTxStatus perform.simps wp_bind
    by (rule wp_mono) (use s in \<open>auto simp: wp_simps log_backed_def intro: backed_mono\<close>)
qed

lemma wp_perform_all_backed:
  assumes "geth_ok (dp_geth d)" and "log_backed d s"
  shows "wp (perform_all (log_deployment d) as) (\<lambda>u. log_backed d) s"
  using assms(2)
proof (induction as arbitrary: s)
  case Nil
  then show ?case by (simp add: wp_simps)
next
  case (Cons a as)
  show ?case
    unfolding perform_all.simps wp_bind
    by (rule wp_mono [OF wp_perform_backed [OF assms(1) Cons.prems]]) (rule Cons.IH)
qed

end
