(* ===== verification/Decisions.thy ===== *)
theory Decisions
  imports Reference
begin

text \<open>
  The decisions of the transaction manager, one by one: the gas price, the scan of the history, the
  retry limit, the loop of \<open>Start\<close>, the results by hash, and what one run of \<open>monitorTx\<close> may touch.
\<close>

section \<open>Gas price\<close>

lemma round_even_le:
  assumes "a < 2 ^ (k + n)"
  shows "round_even k a \<le> 2 ^ n"
proof -
  from assms have "a div 2 ^ k < 2 ^ n"
    by (simp add: power_add less_mult_imp_div_less mult.commute)
  then show ?thesis
    by (auto simp: round_even_def Let_def)
qed

lemma Float_value_round53:
  assumes "0 \<le> m" and "m \<le> 2 ^ 53"
  shows "Float_Int (round53 (m, int k)) = m * 2 ^ k"
proof (cases "m = 2 ^ 53")
  case True
  have "round53 (2 ^ 53, int k) = (2 ^ 52, int k + 1)"
    by (simp add: round53_def Let_def) (simp add: bitlen.simps round_even_def)
  with True show ?thesis
    by (simp add: Float_Int_def nat_add_distrib)
next
  case False
  with assms show ?thesis
    by (simp add: round53_small Float_Int_def)
qed

text \<open>Through \<open>big.Float\<close> and back, with a margin factor of 1.\<close>

lemma Float_round_trip:
  assumes "0 \<le> p"
  shows "\<bar>Float_Int (Float_Mul (Float_SetInt p) (1, 0)) - p\<bar> * 2 ^ 53 \<le> p"
    and "p < 2 ^ 53 \<Longrightarrow> Float_Int (Float_Mul (Float_SetInt p) (1, 0)) = p"
proof -
  define a where "a = nat p"
  define k where "k = bitlen a - 53"
  have p: "p = int a"
    using assms by (simp add: a_def)
  show exact: "Float_Int (Float_Mul (Float_SetInt p) (1, 0)) = p" if "p < 2 ^ 53"
    using that assms by (simp add: Float_SetInt_def Float_Mul_def round53_small Float_Int_def)
  show "\<bar>Float_Int (Float_Mul (Float_SetInt p) (1, 0)) - p\<bar> * 2 ^ 53 \<le> p"
  proof (cases "bitlen a \<le> 53")
    case True
    then have "(2::nat) ^ bitlen a \<le> 2 ^ 53"
      by (intro power_increasing) simp_all
    with bitlen_bounds [of a] have "a < 2 ^ 53"
      by (meson order_less_le_trans)
    with p exact assms show ?thesis by simp
  next
    case False
    then have len: "bitlen a = k + 53" and "0 < a"
      by (auto simp: k_def bitlen.simps [of a] split: if_splits)
    with bitlen_bounds [of a] have a: "a < 2 ^ (k + 53)" "2 ^ (k + 52) \<le> a"
      by (simp_all add: add.commute)
    have "Float_SetInt p = (int (round_even k a), int k)"
      using False \<open>0 < a\<close> by (simp add: Float_SetInt_def round53_def Let_def p k_def)
    moreover have "int (round_even k a) \<le> 2 ^ 53"
      using round_even_le [OF a(1)] by (metis of_nat_le_iff of_nat_numeral of_nat_power)
    ultimately have "Float_Int (Float_Mul (Float_SetInt p) (1, 0)) = int (round_even k a) * 2 ^ k"
      by (simp add: Float_Mul_def Float_value_round53)
    with round_even_error [of k a] p
    have "\<bar>Float_Int (Float_Mul (Float_SetInt p) (1, 0)) - p\<bar> * 2 * 2 ^ 52 \<le> 2 ^ k * 2 ^ 52"
      by (intro mult_right_mono) simp_all
    also have "\<dots> \<le> p"
      using a(2) p by (metis of_nat_le_iff of_nat_numeral of_nat_power power_add)
    finally show ?thesis by simp
  qed
qed



section \<open>The history\<close>

text \<open>What the network says of a hash: mined with success, mined and failed, or not mined.\<close>

definition mined_as :: "bool \<Rightarrow> (bool \<times> Receipt option \<times> goerr option) \<Rightarrow> bool" where
  "mined_as good a \<longleftrightarrow>
     (case a of (mined, receipt, err) \<Rightarrow> err = None \<and> mined \<and>
        (\<exists>r. receipt = Some r \<and> (rcpt_Status r = ReceiptStatusSuccessful) = good))"

definition not_mined :: "(bool \<times> Receipt option \<times> goerr option) \<Rightarrow> bool" where
  "not_mined a \<longleftrightarrow> (case a of (mined, receipt, err) \<Rightarrow> err = None \<and> \<not> mined)"

definition answers :: "'s Client \<Rightarrow> (hash \<Rightarrow> bool \<times> Receipt option \<times> goerr option) \<Rightarrow> bool" where
  "answers c ans \<longleftrightarrow>
     (\<forall>h s. run_state (em_CheckTxWasMined (cl_etherman c) h) s = (ans h, s)) \<and>
     (\<forall>h. fst (ans h) \<longrightarrow> fst (snd (ans h)) \<noteq> None)"

definition verdict ::
    "(hash \<Rightarrow> bool \<times> Receipt option \<times> goerr option) \<Rightarrow> hash set \<Rightarrow> scan \<Rightarrow> scan \<Rightarrow> bool" where
  "verdict ans H sc sc' \<longleftrightarrow>
     (confirmed sc' \<longleftrightarrow> (\<exists>h \<in> H. mined_as True (ans h))) \<and>
     (confirmed sc' \<longrightarrow> rcpt_Status (lastReceiptChecked sc') = ReceiptStatusSuccessful \<and>
        (\<exists>h \<in> H. ans h = (True, Some (lastReceiptChecked sc'), None))) \<and>
     (\<not> confirmed sc' \<longrightarrow>
        (hasFailedReceipts sc' \<longleftrightarrow> hasFailedReceipts sc \<or> (\<exists>h \<in> H. mined_as False (ans h))) \<and>
        (allHistoryTxsWereMined sc' \<longleftrightarrow> allHistoryTxsWereMined sc \<and> \<not> (\<exists>h \<in> H. not_mined (ans h))))"

lemma checkHistory_from:
  assumes "answers c ans" and "\<not> confirmed sc"
  shows "\<exists>sc'. run_state (checkHistory c hs sc) s = (Inr sc', s) \<and> verdict ans (set hs) sc sc'"
  using assms(2)
proof (induction hs arbitrary: sc)
  case Nil
  then show ?case by (simp add: verdict_def)
next
  case (Cons h hs)
  obtain mined receipt err where a: "ans h = (mined, receipt, err)"
    by (cases "ans h")
  have run: "run_state (em_CheckTxWasMined (cl_etherman c) h) s = ((mined, receipt, err), s)"
    using assms(1) a by (simp add: answers_def)
  have total: "mined \<Longrightarrow> receipt \<noteq> None"
    using assms(1) a unfolding answers_def by (metis fst_conv snd_conv)
  have step: "\<exists>sc'. run_state (checkHistory c (h # hs) sc) s = (Inr sc', s) \<and> verdict ans (set (h # hs)) sc sc'"
    if "run_state (checkHistory c (h # hs) sc) s = run_state (checkHistory c hs sc1) s"
      and "\<not> confirmed sc1" and "\<And>sc'. verdict ans (set hs) sc1 sc' \<Longrightarrow> verdict ans (insert h (set hs)) sc sc'"
    for sc1
    using Cons.IH [OF that(2)] that(1,3) by auto
  consider (error) e where "err = Some e" | (pending) "err = None" "\<not> mined"
    | (good) r where "err = None" "mined" "receipt = Some r" "rcpt_Status r = ReceiptStatusSuccessful"
    | (bad) r where "err = None" "mined" "receipt = Some r" "rcpt_Status r \<noteq> ReceiptStatusSuccessful"
    using total by blast
  then show ?case
  proof cases
    case error
    with Cons.prems run a show ?thesis
      by (intro step [of sc]) (simp_all add: verdict_def mined_as_def not_mined_def)
  next
    case pending
    with Cons.prems run a show ?thesis
      by (intro step [of "sc\<lparr>allHistoryTxsWereMined := False\<rparr>"])
        (simp_all add: verdict_def mined_as_def not_mined_def)
  next
    case good
    with run a show ?thesis
      by (simp add: verdict_def mined_as_def not_mined_def)
  next
    case bad
    with Cons.prems run a show ?thesis
      by (intro step [of "sc\<lparr>lastReceiptChecked := r, confirmed := False, hasFailedReceipts := True\<rparr>"])
        (simp_all add: verdict_def mined_as_def not_mined_def)
  qed
qed

text \<open>C28. The scan of the history decides by the set of hashes alone, whatever the order in which
  \<open>range\<close> visits the map: \<open>confirmed\<close> means that some hash has a successful receipt, and it is that
  receipt; otherwise \<open>hasFailedReceipts\<close> and \<open>allHistoryTxsWereMined\<close> say that some hash failed and
  that none is pending. A hash whose lookup ends with an error counts neither as failed nor as
  pending.\<close>

theorem checkHistory_verdict:
  assumes "answers c ans"
  shows "\<exists>sc. run_state (checkHistory c hs scan_start) s = (Inr sc, s) \<and>
    (confirmed sc \<longleftrightarrow> (\<exists>h \<in> set hs. mined_as True (ans h))) \<and>
    (confirmed sc \<longrightarrow> rcpt_Status (lastReceiptChecked sc) = ReceiptStatusSuccessful \<and>
       (\<exists>h \<in> set hs. ans h = (True, Some (lastReceiptChecked sc), None))) \<and>
    (\<not> confirmed sc \<longrightarrow>
       (hasFailedReceipts sc \<longleftrightarrow> (\<exists>h \<in> set hs. mined_as False (ans h))) \<and>
       (allHistoryTxsWereMined sc \<longleftrightarrow> \<not> (\<exists>h \<in> set hs. not_mined (ans h))))"
  using checkHistory_from [OF assms, of scan_start hs s] by (simp add: verdict_def scan_start_def)


definition ref_client :: "unit sys Client" where
  "ref_client = the_etm ref_deployment"

lemma ref_client_CheckTx [simp]:
  "run_state (em_CheckTxWasMined (cl_etherman ref_client) h) s = ((False, None, None), s)"
  by (simp add: ref_client_def the_etm_def ref_deployment_def lift_IEtherman_def ref_etherman_def on_world_def)

lemma checkHistory_verdict_witness:
  "\<exists>sc. run_state (checkHistory ref_client [1, 2] scan_start) (ref_sys ()) = (Inr sc, ref_sys ()) \<and>
     \<not> confirmed sc \<and> \<not> allHistoryTxsWereMined sc"
proof -
  have "answers ref_client (\<lambda>h. (False, None, None))"
    by (simp add: answers_def)
  from checkHistory_verdict [OF this, of "[1, 2]" "ref_sys ()"] show ?thesis
    by (auto simp: mined_as_def not_mined_def)
qed

section \<open>The retry limit\<close>

text \<open>C29. At the retry limit nothing else matters: even when the scan of the history has found a
  successful receipt, the run ends with the status \<open>failed\<close> written to the row of the transaction.\<close>

theorem confirmed_at_retry_limit:
  assumes "run_state (rt_range RT) s = (ks, s1)"
    and "run_state (checkHistory c (range_by ks (map_keys (History mTx))) scan_start) s1 = (Inr sc, s2)"
    and "confirmed sc" and "NumRetries mTx \<ge> MaxRetries (cl_cfg c)"
  shows "run_state (monitorTx G RT c mTx) s =
    (case run_state (st_Update (cl_storage c) (mTx\<lparr>Status := MonitoredTxStatusFailed\<rparr>) None) s2 of
       (err, s3) \<Rightarrow> (RetriesExceeded err, s3))"
  using assms
  by (simp add: monitorTx_def and_then_def reviewNonceIfNeeded_def checkRetries_def split: prod.splits)

text \<open>The reference client on a network where every hash is mined with success.\<close>

definition all_mined_client :: "unit sys Client" where
  "all_mined_client =
     ref_client\<lparr>cl_etherman := (cl_etherman ref_client)\<lparr>em_CheckTxWasMined :=
       (\<lambda>h. ret (True, Some \<lparr>rcpt_Status = ReceiptStatusSuccessful, rcpt_TxHash = h,
                            rcpt_BlockNumber = Some 4\<rparr>, None))\<rparr>\<rparr>"

lemma confirmed_at_retry_limit_witness:
  "\<exists>err s3. run_state (monitorTx ref_geth (lift_runtime ref_runtime) all_mined_client
     (sample_mtx\<lparr>NumRetries := 10\<rparr>)) (ref_sys ()) = (RetriesExceeded err, s3)"
proof -
  let ?m = "sample_mtx\<lparr>NumRetries := 10\<rparr>"
  let ?sc = "scan_start\<lparr>lastReceiptChecked := \<lparr>rcpt_Status = ReceiptStatusSuccessful, rcpt_TxHash = 5,
     rcpt_BlockNumber = Some 4\<rparr>, confirmed := True\<rparr>"
  have range: "run_state (rt_range (lift_runtime ref_runtime)) (ref_sys ()) = ([], ref_sys ())"
    by (simp add: lift_runtime_def ref_runtime_def on_world_def ref_sys_def)
  have scan: "run_state (checkHistory all_mined_client (range_by [] (map_keys (History ?m))) scan_start)
      (ref_sys ()) = (Inr ?sc, ref_sys ())"
    by (simp add: all_mined_client_def sample_mtx_def map_keys_def)
  have "MaxRetries (cl_cfg all_mined_client) \<le> NumRetries ?m"
    by (simp add: all_mined_client_def ref_client_def the_etm_def ref_deployment_def DefaultValues_def)
  with confirmed_at_retry_limit [OF range scan] show ?thesis
    by (simp add: split_beta)
qed

section \<open>The loop of Start\<close>

text \<open>C30. \<open>Start\<close> returns exactly when its context is cancelled, having run one cycle for each
  monitoring period that elapsed before.\<close>

theorem Client_Start_returns:
  "run_state (Client_Start G RT c ss) s =
     (ContextDone \<in> set ss,
      ((\<lambda>s. snd (run_state (monitorTxs G RT c) s)) ^^ length (takeWhile (\<lambda>x. x = PeriodElapsed) ss)) s)"
  by (induction ss arbitrary: s rule: Client_Start.induct)
    (simp_all add: split_beta funpow_Suc_right del: funpow.simps(2))

section \<open>Results\<close>

lemma result_txs_keys:
  "fst (run_state (result_txs c hs txs) s) = Inr r \<Longrightarrow>
     set (map fst r) = set (map fst txs) \<union> set hs \<and> (distinct (map fst txs) \<longrightarrow> distinct (map fst r))"
proof (induction hs arbitrary: txs s)
  case (Cons h hs)
  have keys: "set (map fst (AList.update h x txs)) = insert h (set (map fst txs))" for x
    by (induction txs) auto
  from Cons.prems obtain x s' where "fst (run_state (result_txs c hs (AList.update h x txs)) s') = Inr r"
    by (auto split: prod.splits if_splits)
  from Cons.IH [OF this] show ?case
    unfolding keys by (auto simp: distinct_update)
qed simp

text \<open>C31. A result names the transaction and its status, and has exactly one entry for every hash of
  the history.\<close>

theorem buildResult_complete:
  assumes "fst (run_state (buildResult RT c mTx) s) = Inr x"
  shows "res_ID x = ID mTx \<and> res_Status x = Status mTx \<and>
    wf_map (res_Txs x) \<and> set (map_keys (res_Txs x)) = hist mTx"
proof -
  from assms obtain ks s' txs
    where "fst (run_state (result_txs c (MonitoredTx_HistoryHashSlice ks mTx) []) s') = Inr txs"
      and "x = \<lparr>res_ID = ID mTx, res_Status = Status mTx, res_Txs = Some txs\<rparr>"
    by (auto simp: buildResult_def Let_def split: prod.splits sum.splits) (metis fst_conv)
  with result_txs_keys [OF this(1)] show ?thesis
    by (simp add: wf_map_def map_keys_def set_HistoryHashSlice)
qed

lemma buildResult_complete_witness:
  "\<exists>x. fst (run_state (buildResult (lift_runtime ref_runtime) ref_client sample_mtx) (ref_sys ())) = Inr x \<and>
     set (map_keys (res_Txs x)) = {5}"
proof -
  have "\<exists>x. fst (run_state (buildResult (lift_runtime ref_runtime) ref_client sample_mtx) (ref_sys ())) = Inr x"
    by (simp add: buildResult_def MonitoredTx_HistoryHashSlice_def sample_mtx_def map_keys_def Let_def
        lift_runtime_def ref_runtime_def on_world_def ref_sys_def ref_client_def the_etm_def
        ref_deployment_def lift_IEtherman_def ref_etherman_def ref_not_found_def)
  then obtain x where x:
    "fst (run_state (buildResult (lift_runtime ref_runtime) ref_client sample_mtx) (ref_sys ())) = Inr x"
    by blast
  with buildResult_complete [OF x] show ?thesis
    by (simp add: sample_mtx_def hist_def map_keys_def)
qed

section \<open>What one run of monitorTx may touch\<close>

text \<open>C32. A run of \<open>monitorTx\<close> on the transaction of a row writes no other row, adds and removes none,
  and the row it writes evolves along the status machine.\<close>

theorem monitorTx_own_row:
  assumes G: "geth_ok (dp_geth d)" and r: "lookup (committed s) (mtx_key m) = Some r"
    and m: "scanMtx (dp_geth d) r = Inr m" and st: "Status m \<in> set monitored_statuses"
  shows "wp (monitorTx (dp_geth d) (lift_runtime (dp_runtime d)) (the_etm d) m)
    (\<lambda>x s'. keys (committed s') = keys (committed s) \<and>
       (\<forall>k. k \<noteq> mtx_key m \<longrightarrow> lookup (committed s') k = lookup (committed s) k) \<and>
       (\<exists>r'. lookup (committed s') (mtx_key m) = Some r' \<and> row_evolves (dp_geth d) r r')) s"
proof -
  let ?I = "\<lambda>t. only_row (mtx_key m) (committed s) t \<and> rows_evolve (dp_geth d) (committed s) t"
  have I: "stable_under (dp_geth d) m ?I"
    by (rule stable_conj [OF stable_only_row stable_rows_evolve [OF G r m]])
  show ?thesis
    unfolding the_etm_def
    by (rule etm.monitorTx_inv [OF I st]) (use r in \<open>auto simp: only_row_def rows_evolve_def\<close>)
qed

lemma monitorTx_own_row_witness:
  "\<exists>m. wp (monitorTx ref_geth (lift_runtime ref_runtime) ref_client m)
     (\<lambda>x s'. keys (committed s') = [(Owner sample_mtx, ID sample_mtx)])
     (ref_sys ()\<lparr>committed := [row_of ref_geth [] 0 0 sample_mtx]\<rparr>)"
proof -
  let ?r = "row_of ref_geth [] 0 0 sample_mtx"
  let ?s = "ref_sys ()\<lparr>committed := [?r]\<rparr>"
  obtain m where m: "scanMtx ref_geth ?r = Inr m"
    using scanMtx_row_of [OF geth_ok_ref_geth storable_sample] by blast
  have key: "mtx_key m = row_key ?r"
    using scanMtx_fields(1) [OF m] .
  then have "lookup (committed ?s) (mtx_key m) = Some ?r"
    by (simp add: lookup_def row_of_def)
  moreover have "Status m \<in> set monitored_statuses"
    using scanMtx_fields(2) [OF m] by (simp add: sample_mtx_def)
  ultimately have "wp (monitorTx ref_geth (lift_runtime ref_runtime) ref_client m)
     (\<lambda>x s'. keys (committed s') = keys (committed ?s)) ?s"
    using monitorTx_own_row [of ref_deployment ?s m ?r] m
    unfolding ref_client_def [symmetric]
    by (auto simp: ref_deployment_def elim!: wp_mono)
  then show ?thesis
    by (auto simp: keys_def)
qed

end
