(* ===== verification/Typing.thy ===== *)
theory Typing
  imports Reference
begin

text \<open>
  The text columns of the table are well formed: every row is the row of some monitored
  transaction, so its addresses and hashes are printed addresses and hashes, its data is
  hexadecimal text, and it can be read back.
\<close>

definition typed_row :: "geth \<Rightarrow> row \<Rightarrow> bool" where
  "typed_row G r \<longleftrightarrow> (\<exists>ks c u m. r = row_of G ks c u m)"

definition typed_rows :: "geth \<Rightarrow> row list \<Rightarrow> bool" where
  "typed_rows G t \<longleftrightarrow> (\<forall>r \<in> set t. typed_row G r)"

definition readable :: "geth \<Rightarrow> row list \<Rightarrow> bool" where
  "readable G t \<longleftrightarrow> (\<forall>r \<in> set t. \<exists>m. scanMtx G r = Inr m)"

lemma typed_row_of [simp]: "typed_row G (row_of G ks c u m)"
  by (auto simp: typed_row_def)

lemma typed_row_created [simp]: "typed_row G ((row_of G ks c u m)\<lparr>c_created_at := x\<rparr>)"
proof -
  have "(row_of G ks c u m)\<lparr>c_created_at := x\<rparr> = row_of G ks x u m"
    by (simp add: row_of_def)
  then show ?thesis by simp
qed

lemma scanMtx_typed: "typed_row G r \<Longrightarrow> \<exists>m. scanMtx G r = Inr m"
proof -
  have "c_data (row_of G ks c u m) = MonitoredTx_DataStringPtr m" for ks c u m
    by (simp add: row_of_def)
  then show "typed_row G r \<Longrightarrow> ?thesis"
    by (auto simp: typed_row_def scanMtx_def)
qed

lemma typed_readable: "typed_rows G t \<Longrightarrow> readable G t"
  using scanMtx_typed by (auto simp: typed_rows_def readable_def)

lemma stable_typed: "stable_under G m (typed_rows G)"
  by (auto simp: stable_under_def typed_rows_def)

lemma typed_outcome:
  "SendTx_outcome G c addr stx t r t' \<Longrightarrow> typed_rows G t \<Longrightarrow> typed_rows G t'"
  by (auto simp: SendTx_outcome_def settled_def typed_rows_def split: option.splits)

lemma wp_perform_typed:
  assumes "geth_ok (dp_geth d)" and wf: "wf_sys s" and t: "typed_rows (dp_geth d) (committed s)"
  shows "wp (perform d a) (\<lambda>u s'. wf_sys s' \<and> typed_rows (dp_geth d) (committed s')) s"
proof -
  have wf': "wp (perform d a) (\<lambda>u s'. wf_sys s') s"
    by (rule wp_perform [OF assms(1,2)])
  have "wp (perform d a) (\<lambda>u s'. typed_rows (dp_geth d) (committed s')) s"
  proof (cases a)
    case Monitor_cycle
    show ?thesis
      unfolding Monitor_cycle perform.simps wp_bind serve_cycle_def the_etm_def
      by (rule etm.monitorTxs_stable [where I = "typed_rows (dp_geth d)"])
        (simp_all add: stable_typed t wp_simps)
  next
    case (Rpc_SendTx stx)
    then show ?thesis
      using t typed_outcome by (auto simp: wp_simps intro!: wp_serve_SendTx [OF wf])
  next
    case (Rpc_GetTxStatus h)
    then show ?thesis
      using t by (auto simp: wp_simps intro!: wp_serve_GetTxStatus [OF wf])
  qed
  from wp_conj [OF wf' this] show ?thesis .
qed

text \<open>C36. Whatever the service does, in any order, every row stays the row of some monitored
  transaction: its columns have the text forms the code writes, and the code can read it back.\<close>

theorem rows_stay_typed:
  assumes "geth_ok (dp_geth d)" and "wf_sys s" and "typed_rows (dp_geth d) (committed s)"
  shows "wp (perform_all d as)
    (\<lambda>u s'. typed_rows (dp_geth d) (committed s') \<and> readable (dp_geth d) (committed s')) s"
proof -
  have "wp (perform_all d as) (\<lambda>u s'. wf_sys s' \<and> typed_rows (dp_geth d) (committed s')) s"
    using assms(2,3)
  proof (induction as arbitrary: s)
    case Nil
    then show ?case by (simp add: wp_simps)
  next
    case (Cons a as)
    show ?case
      unfolding perform_all.simps wp_bind
      by (rule wp_mono [OF wp_perform_typed [OF assms(1) Cons.prems]]) (simp add: Cons.IH)
  qed
  then show ?thesis
    by (rule wp_mono) (simp add: typed_readable)
qed

lemma rows_stay_typed_witness:
  "wp (perform_all ref_deployment [Rpc_SendTx ref_stx, Monitor_cycle, Rpc_GetTxStatus 6])
    (\<lambda>u s'. readable ref_geth (committed s')) (ref_sys ())"
  by (rule wp_mono [OF rows_stay_typed]) (simp_all add: typed_rows_def, simp add: ref_sys_def)

end
