(* ===== verification/Nonces.thy ===== *)
theory Nonces
  imports Typing
begin

text \<open>
  Which nonce a new transaction gets: one more than the highest nonce of the sender's committed
  rows that are still \<open>created\<close>, else the pending nonce of the network. The table is read outside
  the transaction of the caller, so two callers that have not committed yet get the same nonce.
\<close>

section \<open>The nonces in use\<close>

definition created_nonces :: "geth \<Rightarrow> address \<Rightarrow> row list \<Rightarrow> u64 list" where
  "created_nonces G from t =
     map (\<lambda>r. c_nonce r)
       (filter (\<lambda>r. c_from_addr r = addr_String G from \<and> c_status r = MonitoredTxStatusCreated) t)"

definition free_nonce :: "geth \<Rightarrow> address \<Rightarrow> row list \<Rightarrow> u64" where
  "free_nonce G from t = Max (set (created_nonces G from t)) + 1"

lemma highest_nonce_Max: "highest_nonce n ms = Max (insert n (set (map (\<lambda>m. Nonce m) ms)))"
proof (induction n ms rule: highest_nonce.induct)
  case (2 n m ms)
  have "Max (insert n (insert (Nonce m) X)) = Max (insert (max (Nonce m) n) X)" if "finite X" for X
    using that by (cases "X = {}") (simp_all add: max.assoc max.left_commute max.commute)
  with 2 show ?case
    by (simp add: max_def)
qed simp

lemma scan_rows_readable:
  assumes "\<forall>r \<in> set rs. \<exists>m. scanMtx G r = Inr m"
  shows "\<exists>ms. scan_rows G rs = Inr ms \<and> map (\<lambda>m. Nonce m) ms = map (\<lambda>r. c_nonce r) rs"
  using assms by (induction rs) (auto dest: scanMtx_fields(3))

lemma wp_created_rows:
  assumes "works None D" and "readable G (committed s)"
    and Q: "\<And>ms s'. db_part s' = db_part s \<Longrightarrow>
      set (map (\<lambda>m. Nonce m) ms) = set (created_nonces G from (committed s)) \<Longrightarrow> Q (Inr ms) s'"
  shows "wp (PostgresStorage_GetBySenderAndStatus G D from [MonitoredTxStatusCreated] None) Q s"
proof -
  let ?rs = "sort_key c_created_at
    (filter (\<lambda>r. c_from_addr r = addr_String G from \<and> c_status r = MonitoredTxStatusCreated) (committed s))"
  have "\<forall>r \<in> set ?rs. \<exists>m. scanMtx G r = Inr m"
    using assms(2) by (auto simp: readable_def)
  then obtain ms where ms: "scan_rows G ?rs = Inr ms" "map (\<lambda>m. Nonce m) ms = map (\<lambda>r. c_nonce r) ?rs"
    using scan_rows_readable by blast
  have "set (map (\<lambda>m. Nonce m) ms) = set (created_nonces G from (committed s))"
    unfolding ms(2) by (simp add: created_nonces_def)
  with ms(1) show ?thesis
    unfolding PostgresStorage_GetBySenderAndStatus_def pg_query_def Let_def wp_simps dbConn_simps
    by (intro wp_fault_works [OF assms(1)])
      (auto simp: wp_simps collect_rows_def intro!: wp_cut_works [OF assms(1)] Q)
qed

text \<open>C33. Over a connection that works and a table that can be read, the nonce for a sender is one more
  than the highest nonce among its committed rows with status \<open>created\<close>; without such a row it is the
  answer of the network for the pending nonce. Rows that only an open transaction has written do
  not count.\<close>

theorem getTxNonce_free:
  assumes "works None D" and "readable G (committed s)"
  shows "wp (getTxNonce (services_etm G RT D c E) from)
    (\<lambda>r s'. db_part s' = db_part s \<and>
       (if created_nonces G from (committed s) \<noteq> []
        then r = Inr (free_nonce G from (committed s))
        else \<exists>w. r = (case fst (run_state (em_PendingNonce E from) w) of
               Inl err \<Rightarrow> Inl (Wrapf ''failed to get pending nonce: '' err [])
             | Inr nonce \<Rightarrow> Inr nonce))) s"
proof -
  have free: "highest_nonce 0 ms + 1 = free_nonce G from (committed s)"
    if "set (map (\<lambda>m. Nonce m) ms) = set (created_nonces G from (committed s))" and "ms \<noteq> []" for ms
  proof -
    have "Max (insert 0 (set (map (\<lambda>m. Nonce m) ms))) = max 0 (Max (set (map (\<lambda>m. Nonce m) ms)))"
      using that(2) by (intro Max_insert) simp_all
    then show ?thesis
      by (simp add: highest_nonce_Max free_nonce_def that(1) [symmetric])
  qed
  have none: "ms = [] \<longleftrightarrow> created_nonces G from (committed s) = []"
    if "set (map (\<lambda>m. Nonce m) ms) = set (created_nonces G from (committed s))" for ms
    using that by (metis map_is_Nil_conv set_empty)
  show ?thesis
    unfolding getTxNonce_def services_etm_fields storage_fields wp_simps
  proof (rule wp_created_rows [OF assms], goal_cases)
    case (1 ms s')
    show ?case
    proof (cases "ms = []")
      case True
      then show ?thesis
        using 1 none [OF 1(2)]
        by (auto simp: wp_simps lift_IEtherman_def wp_run on_world_def split: prod.split sum.split)
          (metis db_part_world fst_conv sum.case)+
    next
      case False
      then show ?thesis
        using 1(1) none [OF 1(2)] free [OF 1(2)] by (simp add: wp_simps)
    qed
  qed
qed

text \<open>A committed row of the reference sender, and a table with it.\<close>

definition ref_row :: row where
  "ref_row = row_of ref_geth [] 0 0 sample_mtx"

lemma ref_row_fields [simp]:
  "c_from_addr ref_row = addr_String ref_geth 7" "c_status ref_row = MonitoredTxStatusCreated"
  "c_nonce ref_row = 3"
  by (simp_all add: ref_row_def row_of_def sample_mtx_def)

lemma readable_ref_row [simp]: "readable ref_geth [ref_row]"
  using scanMtx_row_of [OF geth_ok_ref_geth storable_sample, of "[]" 0 0]
  by (auto simp: readable_def ref_row_def)

lemma created_ref_row [simp]: "created_nonces ref_geth 7 [ref_row] = [3]"
  by (simp add: created_nonces_def)

lemma works_ref_driver [simp]: "works None ref_driver"
  by (simp add: works_def ref_driver_def)

lemma getTxNonce_free_witness:
  "wp (getTxNonce (services_etm ref_geth ref_runtime ref_driver DefaultValues ref_etherman) 7)
     (\<lambda>r s'. r = Inr 4) (ref_sys ()\<lparr>committed := [ref_row]\<rparr>)"
  by (rule wp_mono [OF getTxNonce_free]) (simp_all add: free_nonce_def)

section \<open>Two transactions at once\<close>

lemma wp_Add_free_nonce:
  assumes "works None D" and "readable G (committed s)" and "created_nonces G from (committed s) \<noteq> []"
    and "open_txs s t = Some ws"
  shows "wp (Client_Add (services_etm G RT D c E) ow i from to value data gasOffset (Some t))
    (\<lambda>r s'. committed s' = committed s \<and> (\<forall>u. u \<noteq> t \<longrightarrow> open_txs s' u = open_txs s u) \<and>
       (r = None \<longrightarrow> (\<exists>row. open_txs s' t = Some (ws @ [Insert row]) \<and>
          row_key row = (ow, i) \<and> c_nonce row = free_nonce G from (committed s)))) s"
proof (rule wp_Client_Add_nonce [OF assms(4), where P = "\<lambda>n. n = free_nonce G from (committed s)"])
  show "wp (getTxNonce (services_etm G RT D c E) from)
      (\<lambda>r s'. db_part s' = db_part s \<and> (\<forall>n. r = Inr n \<longrightarrow> n = free_nonce G from (committed s))) s"
    by (rule wp_mono [OF getTxNonce_free [OF assms(1,2)]]) (use assms(3) in auto)
qed (auto simp: new_mtx_def row_of_def)

text \<open>C34. Two \<open>Add\<close> calls for one sender, each in a transaction that is not committed when the other
  runs, give both rows the same nonce, whenever the sender has a committed row with status
  \<open>created\<close>.\<close>

theorem concurrent_Adds_same_nonce:
  assumes "works None D" and "readable G (committed s)" and "created_nonces G from (committed s) \<noteq> []"
    and "open_txs s t = Some ws" and "open_txs s u = Some vs" and "t \<noteq> u"
  shows "wp (do { e \<leftarrow> Client_Add (services_etm G RT D c E) ow i from to value data gasOffset (Some t);
                  e' \<leftarrow> Client_Add (services_etm G RT D c E) ow j from to' value' data' gasOffset' (Some u);
                  ret (e, e') })
    (\<lambda>(e, e') s'. e = None \<and> e' = None \<longrightarrow>
       (\<exists>row row'. open_txs s' t = Some (ws @ [Insert row]) \<and> open_txs s' u = Some (vs @ [Insert row']) \<and>
          row_key row = (ow, i) \<and> row_key row' = (ow, j) \<and> c_nonce row = c_nonce row')) s"
  unfolding wp_bind
proof (rule wp_mono [OF wp_Add_free_nonce [OF assms(1-4)]], goal_cases)
  case (1 e s1)
  then have s1: "committed s1 = committed s" "open_txs s1 u = Some vs"
    using assms(5,6) by auto
  show ?case
    by (rule wp_mono [OF wp_Add_free_nonce [of D G s1 "from" u vs]])
      (use 1 s1 assms in \<open>auto simp: wp_simps\<close>)
qed

definition ref_two_open :: "unit sys" where
  "ref_two_open = \<lparr>world = (), committed = [ref_row], open_txs = [0 \<mapsto> [], 1 \<mapsto> []], next_tx = 2\<rparr>"

definition ref_two_Adds :: "(unit sys, goerr option \<times> goerr option) state" where
  "ref_two_Adds =
     do { e \<leftarrow> Client_Add (services_etm ref_geth ref_runtime ref_driver DefaultValues ref_etherman)
            ''interop'' ''a'' 7 None None None 0 (Some 0);
          e' \<leftarrow> Client_Add (services_etm ref_geth ref_runtime ref_driver DefaultValues ref_etherman)
            ''interop'' ''b'' 7 None None None 0 (Some 1);
          ret (e, e') }"

lemma ref_two_Adds_succeed: "fst (run_state ref_two_Adds ref_two_open) = (None, None)"
proof -
  obtain m where "scanMtx ref_geth ref_row = Inr m"
    using readable_ref_row by (auto simp: readable_def)
  then show ?thesis
    by (simp add: ref_two_Adds_def Client_Add_def getTxNonce_def suggestedGasPrice_def
      PostgresStorage_GetBySenderAndStatus_def PostgresStorage_Add_def pg_query_def pg_exec_def
      try_write_def collect_rows_def Let_def dbConn_simps on_world_def lift_IEtherman_def
      ref_etherman_def ref_driver_def ref_runtime_def ref_two_open_def keys_def)
     (simp add: ref_row_def row_of_def sample_mtx_def)
qed

lemma concurrent_Adds_same_nonce_witness:
  "\<exists>row row' s'. run_state ref_two_Adds ref_two_open = ((None, None), s') \<and>
     open_txs s' 0 = Some [Insert row] \<and> open_txs s' 1 = Some [Insert row'] \<and> c_nonce row = c_nonce row'"
proof -
  obtain s' where run: "run_state ref_two_Adds ref_two_open = ((None, None), s')"
    using ref_two_Adds_succeed by (metis prod.collapse)
  have "wp ref_two_Adds (\<lambda>(e, e') s'. e = None \<and> e' = None \<longrightarrow>
       (\<exists>row row'. open_txs s' 0 = Some [Insert row] \<and> open_txs s' 1 = Some [Insert row'] \<and>
          c_nonce row = c_nonce row')) ref_two_open"
    unfolding ref_two_Adds_def
    by (rule wp_mono [OF concurrent_Adds_same_nonce [where ws = "[]" and vs = "[]"]])
      (auto simp: ref_two_open_def)
  from wpD [OF this run] run show ?thesis by auto
qed

end
