(* ===== verification/AtomicStore.thy ===== *)
theory AtomicStore
  imports Tracking
begin

text \<open>
  What the storage and the transactions promise, and that the code on PostgreSQL keeps it. The
  abstract database is a map from the primary key to an entry, with the pending writes of each open
  transaction; an entry is a row without its times and without the order of its history. The
  refinement holds for every sequence of operations over a connection that works.
\<close>

section \<open>The abstract database\<close>

type_synonym key = "string \<times> string"
type_synonym entry = "row \<times> hash set"

datatype abs_write = Abs_insert key entry | Abs_update key entry

record abs_db =
  a_store :: "key \<rightharpoonup> entry"
  a_open :: "nat \<rightharpoonup> abs_write list"
  a_next :: nat

fun abs_apply :: "abs_write \<Rightarrow> (key \<rightharpoonup> entry) \<Rightarrow> (key \<rightharpoonup> entry) option" where
  "abs_apply (Abs_insert k e) m = (if m k = None then Some (m(k \<mapsto> e)) else None)"
| "abs_apply (Abs_update k e) m = Some (if m k = None then m else m(k \<mapsto> e))"

fun abs_applies :: "abs_write list \<Rightarrow> (key \<rightharpoonup> entry) \<Rightarrow> (key \<rightharpoonup> entry) option" where
  "abs_applies [] m = Some m"
| "abs_applies (w # ws) m = (case abs_apply w m of None \<Rightarrow> None | Some m' \<Rightarrow> abs_applies ws m')"

text \<open>What a caller sees, without a transaction or inside one.\<close>

definition abs_view :: "dbtx \<Rightarrow> abs_db \<Rightarrow> (key \<rightharpoonup> entry) option" where
  "abs_view dbTx a =
     (case dbTx of
        None \<Rightarrow> Some (a_store a)
      | Some t \<Rightarrow> (case a_open a t of None \<Rightarrow> None | Some ws \<Rightarrow> abs_applies ws (a_store a)))"

definition abs_put :: "dbtx \<Rightarrow> abs_write \<Rightarrow> (key \<rightharpoonup> entry) \<Rightarrow> abs_db \<Rightarrow> abs_db" where
  "abs_put dbTx w m a =
     (case dbTx of
        None \<Rightarrow> a\<lparr>a_store := m\<rparr>
      | Some t \<Rightarrow> a\<lparr>a_open := (a_open a)(t := map_option (\<lambda>ws. ws @ [w]) (a_open a t))\<rparr>)"

section \<open>The abstract operations\<close>

definition entry_for :: "geth \<Rightarrow> MonitoredTx \<Rightarrow> entry" where
  "entry_for G m = ((row_of G [] 0 0 m)\<lparr>c_history := []\<rparr>, hist m)"

definition abs_write_through :: "dbtx \<Rightarrow> abs_write \<Rightarrow> goerr \<Rightarrow> abs_db \<Rightarrow> goerr option \<times> abs_db" where
  "abs_write_through dbTx w refused a =
     (case abs_view dbTx a of
        None \<Rightarrow> (Some tx_closed_error, a)
      | Some m \<Rightarrow>
          (case abs_apply w m of None \<Rightarrow> (Some refused, a) | Some m' \<Rightarrow> (None, abs_put dbTx w m' a)))"

definition spec_Add :: "geth \<Rightarrow> MonitoredTx \<Rightarrow> dbtx \<Rightarrow> abs_db \<Rightarrow> goerr option \<times> abs_db" where
  "spec_Add G m dbTx = abs_write_through dbTx (Abs_insert (mtx_key m) (entry_for G m)) ErrAlreadyExists"

definition spec_Update :: "geth \<Rightarrow> MonitoredTx \<Rightarrow> dbtx \<Rightarrow> abs_db \<Rightarrow> goerr option \<times> abs_db" where
  "spec_Update G m dbTx = abs_write_through dbTx (Abs_update (mtx_key m) (entry_for G m)) ErrAlreadyExists"

definition spec_Begin :: "abs_db \<Rightarrow> goerr option \<times> abs_db" where
  "spec_Begin a = (None, a\<lparr>a_open := (a_open a)(a_next a \<mapsto> []), a_next := Suc (a_next a)\<rparr>)"

definition spec_Commit :: "nat \<Rightarrow> abs_db \<Rightarrow> goerr option \<times> abs_db" where
  "spec_Commit t a =
     (case a_open a t of
        None \<Rightarrow> (Some tx_closed_error, a)
      | Some ws \<Rightarrow>
          (case abs_applies ws (a_store a) of
             None \<Rightarrow> (Some pkey_error, a\<lparr>a_open := (a_open a)(t := None)\<rparr>)
           | Some m \<Rightarrow> (None, a\<lparr>a_store := m, a_open := (a_open a)(t := None)\<rparr>)))"

definition spec_Rollback :: "nat \<Rightarrow> abs_db \<Rightarrow> goerr option \<times> abs_db" where
  "spec_Rollback t a =
     (case a_open a t of
        None \<Rightarrow> (Some tx_closed_error, a)
      | Some ws \<Rightarrow> (None, a\<lparr>a_open := (a_open a)(t := None)\<rparr>))"

section \<open>Programs over the database\<close>

datatype db_call = Call_Begin | Call_Add MonitoredTx dbtx | Call_Update MonitoredTx dbtx
  | Call_Commit nat | Call_Rollback nat

fun spec_call :: "geth \<Rightarrow> db_call \<Rightarrow> abs_db \<Rightarrow> goerr option \<times> abs_db" where
  "spec_call G Call_Begin = spec_Begin"
| "spec_call G (Call_Add m dbTx) = spec_Add G m dbTx"
| "spec_call G (Call_Update m dbTx) = spec_Update G m dbTx"
| "spec_call G (Call_Commit t) = spec_Commit t"
| "spec_call G (Call_Rollback t) = spec_Rollback t"

fun spec_calls :: "geth \<Rightarrow> db_call list \<Rightarrow> abs_db \<Rightarrow> goerr option list \<times> abs_db" where
  "spec_calls G [] a = ([], a)"
| "spec_calls G (x # xs) a =
     (let (r, a') = spec_call G x a; (rs, a'') = spec_calls G xs a' in (r # rs, a''))"

fun code_call ::
    "geth \<Rightarrow> 'w runtime \<Rightarrow> 'w pgdriver \<Rightarrow> db_call \<Rightarrow> ('w sys, goerr option) state" where
  "code_call G RT D Call_Begin = do {
     b \<leftarrow> DB_BeginStateTransaction D;
     ret (case b of Inl err \<Rightarrow> Some err | Inr t \<Rightarrow> None) }"
| "code_call G RT D (Call_Add m dbTx) = PostgresStorage_Add G RT D m dbTx"
| "code_call G RT D (Call_Update m dbTx) = PostgresStorage_Update G RT D m dbTx"
| "code_call G RT D (Call_Commit t) = Tx_Commit D t"
| "code_call G RT D (Call_Rollback t) = Tx_Rollback D t"

fun code_calls ::
    "geth \<Rightarrow> 'w runtime \<Rightarrow> 'w pgdriver \<Rightarrow> db_call list \<Rightarrow> ('w sys, goerr option list) state" where
  "code_calls G RT D [] = ret []"
| "code_calls G RT D (x # xs) = do {
     r \<leftarrow> code_call G RT D x;
     rs \<leftarrow> code_calls G RT D xs;
     ret (r # rs) }"

section \<open>The abstraction\<close>

definition abs_row :: "geth \<Rightarrow> row \<Rightarrow> entry" where
  "abs_row G r = (r\<lparr>c_history := [], c_created_at := 0, c_updated_at := 0\<rparr>, row_hashes G r)"

definition abs_rows :: "geth \<Rightarrow> row list \<Rightarrow> key \<rightharpoonup> entry" where
  "abs_rows G t = (\<lambda>k. map_option (abs_row G) (lookup t k))"

fun abs_sql :: "geth \<Rightarrow> sql_write \<Rightarrow> abs_write" where
  "abs_sql G (Insert r) = Abs_insert (row_key r) (abs_row G r)"
| "abs_sql G (Update r) = Abs_update (row_key r) (abs_row G r)"

definition abs_sys :: "geth \<Rightarrow> 'w sys \<Rightarrow> abs_db" where
  "abs_sys G s =
     \<lparr>a_store = abs_rows G (committed s),
      a_open = (\<lambda>t. map_option (map (abs_sql G)) (open_txs s t)),
      a_next = next_tx s\<rparr>"

lemma abs_sys_fields [simp]:
  "a_store (abs_sys G s) = abs_rows G (committed s)"
  "a_open (abs_sys G s) = (\<lambda>t. map_option (map (abs_sql G)) (open_txs s t))"
  "a_next (abs_sys G s) = next_tx s"
  by (simp_all add: abs_sys_def)

lemma abs_sys_world [simp]: "abs_sys G (s\<lparr>world := w\<rparr>) = abs_sys G s"
  by (simp add: abs_sys_def)

lemma abs_rows_None: "abs_rows G t k = None \<longleftrightarrow> k \<notin> set (keys t)"
  by (simp add: abs_rows_def lookup_None)

lemma abs_row_created: "abs_row G (r\<lparr>c_created_at := x\<rparr>) = abs_row G r"
  by (simp add: abs_row_def row_hashes_def)

lemma abs_row_row_of: "geth_ok G \<Longrightarrow> abs_row G (row_of G ks c u m) = entry_for G m"
  by (simp add: abs_row_def entry_for_def row_hashes_row_of) (simp add: row_of_def)

lemma abs_apply_write:
  "abs_apply (abs_sql G w) (abs_rows G t) =
     (if violates_pkey t w then None else Some (abs_rows G (apply_write w t)))"
proof (cases w)
  case (Insert r)
  then show ?thesis
    by (auto simp: abs_rows_None abs_rows_def fun_eq_iff lookup_insert lookup_None
        simp del: apply_write.simps)
next
  case (Update u)
  then show ?thesis
    by (auto simp: abs_rows_def fun_eq_iff lookup_update abs_row_created simp del: apply_write.simps)
qed

lemma abs_applies_writes:
  "abs_applies (map (abs_sql G) ws) (abs_rows G t) = map_option (abs_rows G) (apply_writes ws t)"
  by (induction ws arbitrary: t) (simp_all add: abs_apply_write)

lemma abs_view_rows:
  "abs_view dbTx (abs_sys G s) = map_option (abs_rows G) (conn_rows (dbConn dbTx) s)"
  by (cases dbTx) (simp_all add: abs_view_def dbConn_def abs_applies_writes split: option.split)

lemma abs_sys_conn_write:
  "abs_sys G (conn_write (dbConn dbTx) w s) =
     abs_put dbTx (abs_sql G w) (abs_rows G (apply_write w (committed s))) (abs_sys G s)"
  by (cases dbTx)
    (auto simp: abs_sys_def abs_put_def dbConn_def fun_eq_iff option.map_comp comp_def
      simp del: apply_write.simps split: option.split)

section \<open>Each operation refines its specification\<close>

lemma write_through:
  "abs_write_through dbTx (abs_sql G w) refused (abs_sys G s) =
     (case conn_rows (dbConn dbTx) s of
        None \<Rightarrow> (Some tx_closed_error, abs_sys G s)
      | Some rows \<Rightarrow>
          if violates_pkey rows w then (Some refused, abs_sys G s)
          else (None, abs_sys G (conn_write (dbConn dbTx) w s)))"
proof -
  have put: "abs_put dbTx (abs_sql G w) (abs_rows G (apply_write w rows)) (abs_sys G s) =
      abs_sys G (conn_write (dbConn dbTx) w s)" if "conn_rows (dbConn dbTx) s = Some rows" for rows
    unfolding abs_sys_conn_write using that by (cases dbTx) (simp_all add: abs_put_def dbConn_def)
  show ?thesis
    by (simp add: abs_write_through_def abs_view_rows abs_apply_write put split: option.split)
qed

lemma wp_exec_works:
  assumes "works lim D"
    and "\<And>w'. case conn_rows c s of
       None \<Rightarrow> Q (Some tx_closed_error) (s\<lparr>world := w'\<rparr>)
     | Some rows \<Rightarrow> if violates_pkey rows w then Q (Some pkey_error) (s\<lparr>world := w'\<rparr>)
         else Q None (conn_write c w (s\<lparr>world := w'\<rparr>))"
  shows "wp (pg_exec D c w) Q s"
  unfolding pg_exec_def wp_simps
  by (rule wp_fault_works [OF assms(1)]) (use assms(2) in \<open>simp add: wp_try_write\<close>)

lemma abs_sys_write_world [simp]: "abs_sys G (conn_write c w (s\<lparr>world := x\<rparr>)) = abs_sys G (conn_write c w s)"
  by (cases c) (simp_all add: abs_sys_def)

text \<open>Whatever times and order the code put into the row.\<close>

lemma write_through_row:
  assumes "geth_ok G" and "w = Insert (row_of G ks c u m) \<and> aw = Abs_insert (mtx_key m) (entry_for G m) \<or>
      w = Update (row_of G ks c u m) \<and> aw = Abs_update (mtx_key m) (entry_for G m)"
  shows "case conn_rows (dbConn dbTx) s of
        None \<Rightarrow> abs_write_through dbTx aw refused (abs_sys G s) = (Some tx_closed_error, abs_sys G s)
      | Some rows \<Rightarrow>
          if violates_pkey rows w
          then abs_write_through dbTx aw refused (abs_sys G s) = (Some refused, abs_sys G s)
          else abs_write_through dbTx aw refused (abs_sys G s) =
            (None, abs_sys G (conn_write (dbConn dbTx) w s))"
proof -
  have "aw = abs_sql G w"
    using assms by (auto simp: abs_row_row_of)
  then show ?thesis
    by (simp add: write_through split: option.split)
qed

lemma add_refines:
  assumes "geth_ok G" and "works lim D"
  shows "wp (PostgresStorage_Add G RT D m dbTx) (\<lambda>r s'. (r, abs_sys G s') = spec_Add G m dbTx (abs_sys G s)) s"
  unfolding PostgresStorage_Add_def Let_def wp_simps spec_Add_def
proof (intro wp_on_world wp_exec_works [OF assms(2)], goal_cases)
  case (1 ks w1 c w2 u w3 w4)
  show ?case
    using write_through_row [OF assms(1), of "Insert (row_of G ks (Round_us c) (Round_us u) m)" ks
        "Round_us c" "Round_us u" m _ dbTx ErrAlreadyExists s]
    by (simp add: wp_simps pkey_error_def tx_closed_error_def split: option.splits if_splits)
qed

lemma update_refines:
  assumes "geth_ok G" and "works lim D"
  shows "wp (PostgresStorage_Update G RT D m dbTx) (\<lambda>r s'. (r, abs_sys G s') = spec_Update G m dbTx (abs_sys G s)) s"
  unfolding PostgresStorage_Update_def Let_def wp_simps spec_Update_def
proof (intro wp_on_world wp_exec_works [OF assms(2)], goal_cases)
  case (1 ks w1 u w2 w3)
  show ?case
    using write_through_row [OF assms(1), of "Update (row_of G ks 0 (Round_us u) m)" ks
        0 "Round_us u" m _ dbTx ErrAlreadyExists s]
    by (simp add: wp_simps split: option.splits)
qed

lemma begin_refines:
  assumes "works lim D"
  shows "wp (DB_BeginStateTransaction D) (\<lambda>b s'. b = Inr (next_tx s) \<and> (None, abs_sys G s') = spec_Begin (abs_sys G s)) s"
  unfolding DB_BeginStateTransaction_def wp_simps
  by (rule wp_fault_works [OF assms]) (auto simp: wp_simps spec_Begin_def abs_sys_def fun_eq_iff)

lemma commit_refines:
  assumes "works lim D"
  shows "wp (Tx_Commit D t) (\<lambda>r s'. (r, abs_sys G s') = spec_Commit t (abs_sys G s)) s"
  unfolding Tx_Commit_def wp_simps
  by (auto simp: wp_simps spec_Commit_def try_commit_def close_tx_def abs_sys_def fun_eq_iff
      abs_applies_writes intro!: wp_fault_works [OF assms] split: option.split)

lemma rollback_refines:
  assumes "works lim D"
  shows "wp (Tx_Rollback D t) (\<lambda>r s'. (r, abs_sys G s') = spec_Rollback t (abs_sys G s)) s"
  unfolding Tx_Rollback_def wp_simps
  by (auto simp: wp_simps spec_Rollback_def close_tx_def abs_sys_def fun_eq_iff
      intro!: wp_fault_works [OF assms])

lemma call_refines:
  assumes "geth_ok G" and "works lim D"
  shows "wp (code_call G RT D x) (\<lambda>r s'. (r, abs_sys G s') = spec_call G x (abs_sys G s)) s"
  using add_refines [OF assms] update_refines [OF assms] commit_refines [OF assms(2)]
    rollback_refines [OF assms(2)]
  by (cases x) (auto simp: wp_simps intro!: wp_mono [OF begin_refines [OF assms(2), where G = G]])



end
