(* ===== verification/Logger.thy ===== *)
theory Logger
  imports Config
begin

text \<open>
  \<open>log/log.go\<close> and \<open>version.go\<close>: the root logger of the process, made on demand, and the stack trace
  that the error functions append. The zap library is the parameter \<open>zap\<close>: a logger is a value of
  the type \<open>'l\<close>, writing a line is an effect on the rest \<open>'w\<close> of the world (a fatal line ends the
  process there). \<open>tracerr\<close> gives the frames of an error. The atomic pointer holds the root logger;
  \<open>None\<close> is nil.
\<close>

section \<open>The version\<close>

record version =
  Version :: string
  GitRev :: string
  GitBranch :: string
  BuildDate :: string

definition default_version :: version where
  "default_version =
     \<lparr>Version = ''v0.1.0'', GitRev = ''undefined'', GitBranch = ''undefined'',
      BuildDate = ''Fri, 17 Jun 1988 01:58:00 +0200''\<rparr>"

definition newline :: string where
  "newline = [CHR 0x0A]"

text \<open>The Go version, system and architecture are those of the runtime.\<close>

definition GetVersionInfo :: "version \<Rightarrow> string \<Rightarrow> string \<Rightarrow> string \<Rightarrow> string" where
  "GetVersionInfo v goversion goos goarch =
     ''Version:      '' @ Version v @ newline @
     ''Git revision: '' @ GitRev v @ newline @
     ''Git branch:   '' @ GitBranch v @ newline @
     ''Go version:   '' @ goversion @ newline @
     ''Built:        '' @ BuildDate v @ newline @
     ''OS/Arch:      '' @ goos @ ''/'' @ goarch @ newline"

text \<open>\<open>PrintVersion\<close> writes that text to a writer.\<close>

definition PrintVersion ::
    "(string \<Rightarrow> ('s, unit) state) \<Rightarrow> version \<Rightarrow> string \<Rightarrow> string \<Rightarrow> string \<Rightarrow> ('s, unit) state" where
  "PrintVersion write_to v goversion goos goarch = write_to (GetVersionInfo v goversion goos goarch)"

section \<open>zap and tracerr\<close>

datatype log_level = InfoLevel | WarnLevel | ErrorLevel | FatalLevel | DebugLevel

text \<open>An argument of a log function: an error, a string, or a value the logger formats itself.\<close>

datatype log_arg = Arg_error goerr | Arg_string string | Arg_value string

text \<open>\<open>zap.Config\<close>, of the fields the code sets.\<close>

record 'v ZapConfig =
  zc_Production :: bool
  zc_CapitalColorLevel :: bool
  zc_Level :: 'v
  zc_OutputPaths :: "string list"
  zc_InitialFields :: "(string \<times> string) list"

record frame =
  fr_Path :: string
  fr_Line :: nat
  fr_Func :: string

record ('l, 'v, 'w) zap =
  zap_UnmarshalLevel :: "string \<Rightarrow> goerr + 'v"
  zap_Build :: "'v ZapConfig \<Rightarrow> ('w, goerr + 'l) state"
  zap_Sync :: "'l \<Rightarrow> ('w, unit) state"
  zap_AddCallerSkip :: "int \<Rightarrow> 'l \<Rightarrow> 'l"
  zap_Sugar :: "'l \<Rightarrow> 'l"
  zap_With :: "log_arg list \<Rightarrow> 'l \<Rightarrow> 'l"
  zap_Log :: "'l \<Rightarrow> log_level \<Rightarrow> string option \<Rightarrow> log_arg list \<Rightarrow> ('w, unit) state"
  os_Getpid :: string
  tracerr_StackTrace :: "goerr \<Rightarrow> frame list"

record ('l, 'w) logsys =
  root_log :: "'l option"
  outside :: 'w

definition on_outside :: "('w, 'a) state \<Rightarrow> (('l, 'w) logsys, 'a) state" where
  "on_outside m = zoom outside (\<lambda>w s. s\<lparr>outside := w\<rparr>) m"

section \<open>Making and finding the root logger\<close>

definition EnvironmentProduction :: string where "EnvironmentProduction = ''production''"
definition EnvironmentDevelopment :: string where "EnvironmentDevelopment = ''development''"

definition newLogger :: "('l, 'v, 'w) zap \<Rightarrow> LogConfig \<Rightarrow> (('l, 'w) logsys, goerr + 'l) state" where
  "newLogger Z cfg =
     (case zap_UnmarshalLevel Z (log_Level cfg) of
        Inl err \<Rightarrow> ret (Inl (Errorf (''error on setting log level: '' @ Error err)))
      | Inr level \<Rightarrow> do {
          let production = (log_Environment cfg = EnvironmentProduction);
          let zapCfg = \<lparr>zc_Production = production, zc_CapitalColorLevel = \<not> production,
                        zc_Level = level, zc_OutputPaths = log_Outputs cfg,
                        zc_InitialFields = [(''version'', Version default_version), (''pid'', os_Getpid Z)]\<rparr>;
          r \<leftarrow> on_outside (zap_Build Z zapCfg);
          case r of
            Inl err \<Rightarrow> ret (Inl err)
          | Inr logger \<Rightarrow> do {
              let withOptions = zap_AddCallerSkip Z 2 logger;
              on_outside (zap_Sync Z logger);
              ret (Inr (zap_Sugar Z withOptions)) } })"

definition InitLogger :: "('l, 'v, 'w) zap \<Rightarrow> LogConfig \<Rightarrow> (('l, 'w) logsys, goerr option) state" where
  "InitLogger Z cfg = do {
     r \<leftarrow> newLogger Z cfg;
     case r of
       Inl err \<Rightarrow> ret (Some err)
     | Inr logger \<Rightarrow> do {
         s \<leftarrow> State_Monad.get;
         State_Monad.set (s\<lparr>root_log := Some logger\<rparr>);
         ret None } }"

text \<open>\<open>None\<close> is the panic when the default logger cannot be made.\<close>

definition getLogger :: "('l, 'v, 'w) zap \<Rightarrow> (('l, 'w) logsys, 'l option) state" where
  "getLogger Z = do {
     s \<leftarrow> State_Monad.get;
     case root_log s of
       Some l \<Rightarrow> ret (Some l)
     | None \<Rightarrow> do {
         r \<leftarrow> newLogger Z \<lparr>log_Environment = EnvironmentDevelopment, log_Level = ''debug'',
                log_Outputs = [''stderr'']\<rparr>;
         case r of
           Inl err \<Rightarrow> ret None
         | Inr zapLogger \<Rightarrow> do {
             s \<leftarrow> State_Monad.get;
             State_Monad.set (s\<lparr>root_log := Some zapLogger\<rparr>);
             s \<leftarrow> State_Monad.get;
             ret (root_log s) } } }"

section \<open>Stack traces\<close>

definition sprint_frame :: "frame \<Rightarrow> string" where
  "sprint_frame f = newline @ fr_Path f @ '':'' @ dec (fr_Line f) @ '' '' @ fr_Func f @ ''()''"

definition sprintStackTrace :: "frame list \<Rightarrow> string" where
  "sprintStackTrace st =
     (let st = (if length st > 0 then take (length st - 1) st else st)
      in concat (map sprint_frame st) @ newline)"

text \<open>The loop over the arguments: at the first error the trace is appended to all of them.\<close>

fun append_first_trace :: "('l, 'v, 'w) zap \<Rightarrow> log_arg list \<Rightarrow> log_arg list \<Rightarrow> log_arg list" where
  "append_first_trace Z args [] = args"
| "append_first_trace Z args (Arg_error err # rest) =
     args @ [Arg_string (sprintStackTrace (tracerr_StackTrace Z err))]"
| "append_first_trace Z args (a # rest) = append_first_trace Z args rest"

definition appendStackTraceMaybeArgs :: "('l, 'v, 'w) zap \<Rightarrow> log_arg list \<Rightarrow> log_arg list" where
  "appendStackTraceMaybeArgs Z args = append_first_trace Z args args"

section \<open>The log functions\<close>

text \<open>\<open>getLogger().Level(template, args...)\<close>; \<open>False\<close> when \<open>getLogger\<close> panicked.\<close>

definition log_at ::
    "('l, 'v, 'w) zap \<Rightarrow> log_level \<Rightarrow> string option \<Rightarrow> log_arg list \<Rightarrow> (('l, 'w) logsys, bool) state" where
  "log_at Z level template args = do {
     l \<leftarrow> getLogger Z;
     case l of
       None \<Rightarrow> ret False
     | Some l \<Rightarrow> do { on_outside (zap_Log Z l level template args); ret True } }"

definition Log_Info :: "('l, 'v, 'w) zap \<Rightarrow> log_arg list \<Rightarrow> (('l, 'w) logsys, bool) state" where
  "Log_Info Z args = log_at Z InfoLevel None args"

definition Log_Warn :: "('l, 'v, 'w) zap \<Rightarrow> log_arg list \<Rightarrow> (('l, 'w) logsys, bool) state" where
  "Log_Warn Z args = log_at Z WarnLevel None args"

definition Log_Error :: "('l, 'v, 'w) zap \<Rightarrow> log_arg list \<Rightarrow> (('l, 'w) logsys, bool) state" where
  "Log_Error Z args = log_at Z ErrorLevel None (appendStackTraceMaybeArgs Z args)"

definition Log_Fatal :: "('l, 'v, 'w) zap \<Rightarrow> log_arg list \<Rightarrow> (('l, 'w) logsys, bool) state" where
  "Log_Fatal Z args = log_at Z FatalLevel None (appendStackTraceMaybeArgs Z args)"

definition Log_Debugf ::
    "('l, 'v, 'w) zap \<Rightarrow> string \<Rightarrow> log_arg list \<Rightarrow> (('l, 'w) logsys, bool) state" where
  "Log_Debugf Z template args = log_at Z DebugLevel (Some template) args"

definition Log_Infof ::
    "('l, 'v, 'w) zap \<Rightarrow> string \<Rightarrow> log_arg list \<Rightarrow> (('l, 'w) logsys, bool) state" where
  "Log_Infof Z template args = log_at Z InfoLevel (Some template) args"

definition Log_Warnf ::
    "('l, 'v, 'w) zap \<Rightarrow> string \<Rightarrow> log_arg list \<Rightarrow> (('l, 'w) logsys, bool) state" where
  "Log_Warnf Z template args = log_at Z WarnLevel (Some template) args"

definition Log_Fatalf ::
    "('l, 'v, 'w) zap \<Rightarrow> string \<Rightarrow> log_arg list \<Rightarrow> (('l, 'w) logsys, bool) state" where
  "Log_Fatalf Z template args = log_at Z FatalLevel (Some template) (appendStackTraceMaybeArgs Z args)"

definition Log_Errorf ::
    "('l, 'v, 'w) zap \<Rightarrow> string \<Rightarrow> log_arg list \<Rightarrow> (('l, 'w) logsys, bool) state" where
  "Log_Errorf Z template args = log_at Z ErrorLevel (Some template) (appendStackTraceMaybeArgs Z args)"

definition WithFields :: "('l, 'v, 'w) zap \<Rightarrow> log_arg list \<Rightarrow> (('l, 'w) logsys, 'l option) state" where
  "WithFields Z keyValuePairs = do {
     l \<leftarrow> getLogger Z;
     case l of
       None \<Rightarrow> ret None
     | Some l \<Rightarrow> ret (Some (zap_AddCallerSkip Z (-1) (zap_With Z keyValuePairs l))) }"

section \<open>Properties\<close>

definition is_error_arg :: "log_arg \<Rightarrow> bool" where
  "is_error_arg a = (case a of Arg_error e \<Rightarrow> True | _ \<Rightarrow> False)"

lemma append_first_trace_spec:
  "append_first_trace Z args rest =
     (case find is_error_arg rest of
        Some (Arg_error e) \<Rightarrow> args @ [Arg_string (sprintStackTrace (tracerr_StackTrace Z e))]
      | _ \<Rightarrow> args)"
  by (induction Z args rest rule: append_first_trace.induct) (simp_all add: is_error_arg_def)

lemma root_log_outside: "wp (on_outside m) (\<lambda>r s'. root_log s' = root_log s) s"
  unfolding on_outside_def by (rule wp_zoom) simp

text \<open>One root logger: once a log function has run without a panic, or the logger has been
  initialised, every further \<open>getLogger\<close> returns the stored logger and builds nothing.\<close>

theorem getLogger_keeps:
  "wp (getLogger Z)
    (\<lambda>l s'. case l of
       None \<Rightarrow> root_log s = None \<and> root_log s' = None
     | Some x \<Rightarrow> root_log s' = Some x \<and> (root_log s = None \<or> s' = s) \<and>
         run_state (getLogger Z) s' = (Some x, s')) s"
proof -
  have again: "run_state (getLogger Z) s' = (Some x, s')" if "root_log s' = Some x" for x s'
    using that by (simp add: getLogger_def)
  have new: "wp (newLogger Z cfg) (\<lambda>r s'. root_log s' = root_log s) s" for cfg
    unfolding newLogger_def Let_def
    by (auto simp: wp_simps on_outside_def intro!: wp_zoom split: sum.split)
  show ?thesis
  proof (cases "root_log s")
    case (Some x)
    then show ?thesis by (simp add: wp_run again)
  next
    case None
    then show ?thesis
      unfolding getLogger_def wp_simps
      by (auto simp: wp_simps getLogger_def intro!: wp_mono [OF new] split: sum.split)
  qed
qed

end
