(* ===== verification/Load.thy ===== *)
theory Load
  imports Config HexText
begin

text \<open>
  \<open>Default\<close>, \<open>Load\<close> and \<open>NewKeyFromKeystore\<close> of the package \<open>config\<close>. The viper library, which merges
  TOML text, a file and the environment into a record, is the parameter \<open>viper\<close>; the text
  \<open>DefaultValues\<close> is represented by the record it denotes. The file system and the decryption of a
  key file are parameters too. The functions of \<open>path/filepath\<close> on Unix and of \<open>strings\<close> are
  defined. \<open>cli.Context\<close> is the value of the flag \<open>cfg\<close>.
\<close>

section \<open>path/filepath and strings\<close>

definition TrimSuffix :: "string \<Rightarrow> string \<Rightarrow> string" where
  "TrimSuffix s x =
     (if length x \<le> length s \<and> drop (length s - length x) s = x then take (length s - length x) s else s)"

text \<open>The part of a path after its last separator.\<close>

definition last_element :: "string \<Rightarrow> string" where
  "last_element path = rev (takeWhile (\<lambda>c. c \<noteq> CHR ''/'') (rev path))"

definition filepath_Split :: "string \<Rightarrow> string \<times> string" where
  "filepath_Split path =
     (let file = last_element path in (take (length path - length file) path, file))"

text \<open>The suffix from the last dot of the last element.\<close>

definition filepath_Ext :: "string \<Rightarrow> string" where
  "filepath_Ext path =
     (let file = last_element path
      in if CHR ''.'' \<in> set file
         then CHR ''.'' # rev (takeWhile (\<lambda>c. c \<noteq> CHR ''.'') (rev file)) else [])"

text \<open>\<open>Clean\<close>: the elements of the path, with \<open>.\<close> dropped and \<open>..\<close> resolved.\<close>

fun path_elements :: "string \<Rightarrow> string \<Rightarrow> string list" where
  "path_elements acc [] = [acc]"
| "path_elements acc (c # cs) =
     (if c = CHR ''/'' then acc # path_elements [] cs else path_elements (acc @ [c]) cs)"

fun clean_elements :: "bool \<Rightarrow> string list \<Rightarrow> string list \<Rightarrow> string list" where
  "clean_elements rooted kept [] = rev kept"
| "clean_elements rooted kept (e # es) =
     (if e = [] \<or> e = ''.'' then clean_elements rooted kept es
      else if e = ''..'' then
        (case kept of
           k # ks \<Rightarrow> if k = ''..'' then clean_elements rooted (e # kept) es else clean_elements rooted ks es
         | [] \<Rightarrow> clean_elements rooted (if rooted then [] else [e]) es)
      else clean_elements rooted (e # kept) es)"

fun join_elements :: "string list \<Rightarrow> string" where
  "join_elements [] = []"
| "join_elements [e] = e"
| "join_elements (e # es) = e @ ''/'' @ join_elements es"

definition filepath_Clean :: "string \<Rightarrow> string" where
  "filepath_Clean path =
     (let rooted = (take 1 path = ''/'');
          out = (if rooted then ''/'' else []) @ join_elements (clean_elements rooted [] (path_elements [] path))
      in if out = [] then ''.'' else out)"

section \<open>Default and Load\<close>

text \<open>\<open>var cfg Config\<close>\<close>

definition zero_Config :: Config where
  "zero_Config =
     \<lparr>cfg_FullNodeRPCs = Map.empty,
      cfg_RPC = \<lparr>rpc_Host = [], rpc_Port = 0, rpc_ReadTimeout = 0, rpc_WriteTimeout = 0,
                 rpc_MaxRequestsPerIPAndSecond = 0\<rparr>,
      cfg_ProofSigners = Map.empty,
      cfg_Log = \<lparr>log_Environment = [], log_Level = [], log_Outputs = []\<rparr>,
      cfg_DB = \<lparr>db_Name = [], db_User = [], db_Password = [], db_Host = [], db_Port = [],
                db_EnableLog = False, db_MaxConns = 0\<rparr>,
      cfg_EthTxManager =
        \<lparr>FrequencyToMonitorTxs = 0, WaitTxToBeMined = 0, PrivateKeys = [], ForcedGas = 0,
         GasPriceMarginFactor = (0, 0), MaxGasPriceLimit = 0, cfg_GasOffset = 0, KMSKeyName = [],
         KMSConnectionTimeout = 0, MaxRetries = 0\<rparr>,
      cfg_L1 = \<lparr>ChainID = 0, NodeURL = [], RollupManagerContract = 0\<rparr>,
      cfg_Telemetry = \<lparr>PrometheusAddr = []\<rparr>\<rparr>"

text \<open>
  The calls to viper. \<open>vp_Unmarshal\<close> takes the hooks by name and the record it fills, and returns
  it filled; \<open>vp_not_found\<close> tests the dynamic type \<open>ConfigFileNotFoundError\<close>.
\<close>

datatype decode_hook = TextUnmarshallerHook | StringToSliceHook string

record 's viper =
  vp_SetConfigType :: "string \<Rightarrow> ('s, unit) state"
  vp_ReadConfig :: "Config \<Rightarrow> ('s, goerr option) state"
  vp_AddConfigPath :: "string \<Rightarrow> ('s, unit) state"
  vp_SetConfigName :: "string \<Rightarrow> ('s, unit) state"
  vp_AutomaticEnv :: "('s, unit) state"
  vp_SetEnvKeyReplacer :: "string \<Rightarrow> string \<Rightarrow> ('s, unit) state"
  vp_SetEnvPrefix :: "string \<Rightarrow> ('s, unit) state"
  vp_ReadInConfig :: "('s, goerr option) state"
  vp_not_found :: "goerr \<Rightarrow> bool"
  vp_Unmarshal :: "decode_hook list \<Rightarrow> Config \<Rightarrow> ('s, Config \<times> goerr option) state"

definition Default :: "'s viper \<Rightarrow> ('s, goerr + Config) state" where
  "Default V = do {
     vp_SetConfigType V ''toml'';
     err \<leftarrow> vp_ReadConfig V DefaultValues;
     case err of
       Some err \<Rightarrow> ret (Inl err)
     | None \<Rightarrow> do {
         (cfg, err) \<leftarrow> vp_Unmarshal V [TextUnmarshallerHook] zero_Config;
         case err of Some err \<Rightarrow> ret (Inl err) | None \<Rightarrow> ret (Inr cfg) } }"

text \<open>Directory, name and type of a configuration file.\<close>

definition config_location :: "string \<Rightarrow> string \<times> string \<times> string" where
  "config_location configFilePath =
     (let (dirName, fileName) = filepath_Split configFilePath;
          fileExtension = TrimPrefix (filepath_Ext fileName) ''.'';
          fileNameWithoutExtension = TrimSuffix fileName (''.'' @ fileExtension)
      in (dirName, fileNameWithoutExtension, fileExtension))"

definition select_file :: "'s viper \<Rightarrow> string \<Rightarrow> ('s, unit) state" where
  "select_file V configFilePath =
     (case config_location configFilePath of
        (dirName, fileNameWithoutExtension, fileExtension) \<Rightarrow> do {
          vp_AddConfigPath V dirName;
          vp_SetConfigName V fileNameWithoutExtension;
          vp_SetConfigType V fileExtension })"

text \<open>\<open>Load\<close> returns the configuration also next to an error of the last step.\<close>

definition Load :: "'s viper \<Rightarrow> string \<Rightarrow> ('s, Config option \<times> goerr option) state" where
  "Load V configFilePath = do {
     r \<leftarrow> Default V;
     case r of
       Inl err \<Rightarrow> ret (None, Some err)
     | Inr cfg \<Rightarrow> do {
         (if configFilePath \<noteq> [] then select_file V configFilePath else ret ());
         vp_AutomaticEnv V;
         vp_SetEnvKeyReplacer V ''.'' ''_'';
         vp_SetEnvPrefix V ''DATA_NODE'';
         err \<leftarrow> vp_ReadInConfig V;
         let fatal = (case err of None \<Rightarrow> None | Some e \<Rightarrow> if vp_not_found V e then None else Some e);
         case fatal of
           Some err \<Rightarrow> ret (None, Some err)
         | None \<Rightarrow> do {
             (cfg, err) \<leftarrow> vp_Unmarshal V [TextUnmarshallerHook, StringToSliceHook '',''] cfg;
             ret (Some cfg, err) } } }"

section \<open>NewKeyFromKeystore\<close>

record 's keyfiles =
  os_ReadFile :: "string \<Rightarrow> ('s, goerr + byte list) state"
  keystore_DecryptKey :: "byte list \<Rightarrow> string \<Rightarrow> goerr + privkey"

text \<open>The key is a pointer: \<open>Inr None\<close> is nil without an error.\<close>

definition NewKeyFromKeystore ::
    "'s keyfiles \<Rightarrow> KeystoreFileConfig \<Rightarrow> ('s, goerr + privkey option) state" where
  "NewKeyFromKeystore F cfg =
     (if ks_Path cfg = [] \<and> ks_Password cfg = [] then ret (Inr None)
      else do {
        r \<leftarrow> os_ReadFile F (filepath_Clean (ks_Path cfg));
        case r of
          Inl err \<Rightarrow> ret (Inl err)
        | Inr keystoreEncrypted \<Rightarrow>
            (case keystore_DecryptKey F keystoreEncrypted (ks_Password cfg) of
               Inl err \<Rightarrow> ret (Inl err)
             | Inr key \<Rightarrow> ret (Inr (Some key))) })"

section \<open>Properties\<close>

lemma last_element_split: "path = rev (dropWhile (\<lambda>c. c \<noteq> CHR ''/'') (rev path)) @ last_element path"
  unfolding last_element_def rev_append [symmetric] takeWhile_dropWhile_id by simp

lemma filepath_Split_dir:
  "filepath_Split path = (rev (dropWhile (\<lambda>c. c \<noteq> CHR ''/'') (rev path)), last_element path)"
proof -
  let ?d = "rev (dropWhile (\<lambda>c. c \<noteq> CHR ''/'') (rev path))"
  have "take (length (?d @ last_element path) - length (last_element path)) (?d @ last_element path) = ?d"
    by simp
  then show ?thesis
    unfolding last_element_split [symmetric] by (simp add: filepath_Split_def Let_def)
qed

lemma no_separator: "CHR ''/'' \<notin> set (last_element path)"
  by (auto simp: last_element_def dest: set_takeWhileD)

lemma dir_ends:
  assumes "d = rev (dropWhile (\<lambda>c. c \<noteq> CHR ''/'') xs)"
  shows "d = [] \<or> last d = CHR ''/''"
proof (cases "dropWhile (\<lambda>c. c \<noteq> CHR ''/'') xs = []")
  case True
  with assms show ?thesis by simp
next
  case False
  from hd_dropWhile [OF this] False assms show ?thesis by (simp add: last_rev)
qed

lemma last_element_id:
  assumes "CHR ''/'' \<notin> set fl"
  shows "last_element fl = fl"
proof -
  have "takeWhile (\<lambda>c. c \<noteq> CHR ''/'') (rev fl) = rev fl"
    using assms by (intro takeWhile_eq_all_conv [THEN iffD2]) auto
  then show ?thesis unfolding last_element_def by (simp only: rev_rev_ident)
qed

text \<open>A file name is its name, then the dot and the extension when there is a dot.\<close>

lemma split_extension:
  assumes "CHR ''/'' \<notin> set fl"
  shows "let ext = TrimPrefix (filepath_Ext fl) ''.''; name = TrimSuffix fl (''.'' @ ext)
    in CHR ''.'' \<notin> set ext \<and> (if CHR ''.'' \<in> set fl then fl = name @ ''.'' @ ext else ext = [] \<and> fl = name)"
proof (cases "CHR ''.'' \<in> set fl")
  case True
  define ext where "ext = rev (takeWhile (\<lambda>c. c \<noteq> CHR ''.'') (rev fl))"
  have ext: "TrimPrefix (filepath_Ext fl) ''.'' = ext"
    using True by (simp add: filepath_Ext_def last_element_id [OF assms] ext_def TrimPrefix_def)
  have "dropWhile (\<lambda>c. c \<noteq> CHR ''.'') (rev fl) \<noteq> []"
    using True by (auto simp: dropWhile_eq_Nil_conv)
  then obtain d rest where d: "dropWhile (\<lambda>c. c \<noteq> CHR ''.'') (rev fl) = d # rest"
    by (cases "dropWhile (\<lambda>c. c \<noteq> CHR ''.'') (rev fl)") simp_all
  then have "d = CHR ''.''"
    using hd_dropWhile [of "\<lambda>c. c \<noteq> CHR ''.''" "rev fl"] by simp
  with d takeWhile_dropWhile_id [of "\<lambda>c. c \<noteq> CHR ''.''" "rev fl"]
  have "rev fl = rev ext @ CHR ''.'' # rest"
    by (simp add: ext_def)
  from arg_cong [OF this, of rev] have fl: "fl = rev rest @ ''.'' @ ext"
    by simp
  then have trim: "TrimSuffix fl (''.'' @ ext) = rev rest"
    by (simp add: TrimSuffix_def)
  have "CHR ''.'' \<notin> set ext"
    by (auto simp: ext_def dest: set_takeWhileD)
  with True fl show ?thesis
    unfolding Let_def ext trim by simp
next
  case False
  then have "TrimSuffix fl ''.'' = fl"
    by (auto simp: TrimSuffix_def) (metis in_set_dropD list.set_intros(1))
  with False show ?thesis
    by (simp add: filepath_Ext_def last_element_id [OF assms] TrimPrefix_def Let_def)
qed

text \<open>C40. The directory, name and type that \<open>Load\<close> gives to viper for a configuration file make up its
  path again: the directory is empty or ends with the separator, the type has no dot, and only a
  path without an extension has no dot between name and type.\<close>

theorem config_location_path:
  "case config_location path of (dir, name, ext) \<Rightarrow>
     (dir = [] \<or> last dir = CHR ''/'') \<and> CHR ''/'' \<notin> set (name @ ext) \<and> CHR ''.'' \<notin> set ext \<and>
     (path = dir @ name @ ''.'' @ ext \<or> path = dir @ name \<and> ext = [] \<and> CHR ''.'' \<notin> set name)"
proof -
  obtain dir fl where split: "filepath_Split path = (dir, fl)"
    by (cases "filepath_Split path")
  then have dir: "dir = rev (dropWhile (\<lambda>c. c \<noteq> CHR ''/'') (rev path))" and fl: "fl = last_element path"
    by (simp_all add: filepath_Split_dir)
  have path: "path = dir @ fl"
    unfolding dir fl by (rule last_element_split)
  have sep: "CHR ''/'' \<notin> set fl"
    unfolding fl by (rule no_separator)
  define ext where "ext = TrimPrefix (filepath_Ext fl) ''.''"
  define name where "name = TrimSuffix fl (''.'' @ ext)"
  have loc: "config_location path = (dir, name, ext)"
    by (simp add: config_location_def split name_def ext_def Let_def)
  have parts: "CHR ''.'' \<notin> set ext \<and>
      (if CHR ''.'' \<in> set fl then fl = name @ ''.'' @ ext else ext = [] \<and> fl = name)"
    using split_extension [OF sep] unfolding Let_def name_def ext_def .
  with sep have "CHR ''/'' \<notin> set (name @ ext)"
    by (cases "CHR ''.'' \<in> set fl") (auto split: if_splits)
  then show ?thesis
    unfolding loc prod.case using dir_ends [OF dir] path parts by (auto split: if_splits)
qed

end
