(* ===== verification/Startup.thy ===== *)
theory Startup
  imports Logger Load Server
begin

text \<open>
  \<open>cmd/main.go\<close>, \<open>network/network.go\<close> and \<open>db/migrations.go\<close>: how the process starts, what it runs,
  how it stops, and the health check. The state is that of the logger with the world \<open>'w\<close> outside;
  what the start calls outside the repository is the record \<open>host\<close>. A goroutine is started by
  \<open>hs_go\<close>; the services it runs are those of the theory System. Log lines are left out, except that
  \<open>setupLog\<close> makes the root logger.
\<close>

section \<open>Addresses and migrations\<close>

record tcpaddr =
  tcp_IP :: "string option"
  tcp_Port :: nat

definition AllInterfacesBinding :: string where
  "AllInterfacesBinding = ''0.0.0.0''"

datatype migration_direction = Up | Down

datatype os_signal = Interrupt | Kill | Other_signal nat

datatype goroutine =
    Server_Start Config address
  | EthTxManager_Start EthTxManagerConfig
  | Prometheus_ListenAndServe tcpaddr

datatype stoppable =
    EthTxManager_Stop | Server_Stop | Storage_Close | Prometheus_Close | MeterProvider_Shutdown

record 'w host =
  net_ResolveTCPAddr :: "string \<Rightarrow> ('w, goerr + tcpaddr) state"
  net_ParseIP :: "string \<Rightarrow> string option"
  migrate_Exec :: "migration_direction \<Rightarrow> ('w, goerr + nat) state"
  dbConf_NewSQLDB :: "DBConfig \<Rightarrow> ('w, goerr + unit) state"
  kms_NewKeyManagementClient :: "nat \<Rightarrow> ('w, goerr + unit) state"
  etherkeyms_NewManagedKey :: "string \<Rightarrow> ('w, goerr + address) state"
  NewEthereumTransactor :: "address \<Rightarrow> int \<Rightarrow> 'w TransactOpts"
  bind_NewKeyedTransactorWithChainID :: "privkey \<Rightarrow> int \<Rightarrow> goerr + 'w TransactOpts"
  ethclient_Dial :: "string \<Rightarrow> ('w, goerr + 'w IEthereumClient) state"
  ethclient_ChainID :: "('w, goerr + int) state"
  prometheus_New :: "('w, goerr option) state"
  hs_go :: "goroutine \<Rightarrow> ('w, unit) state"
  hs_stop :: "stoppable \<Rightarrow> ('w, unit) state"

definition ResolveAddr :: "'w host \<Rightarrow> string \<Rightarrow> string \<Rightarrow> ('w, goerr + tcpaddr) state" where
  "ResolveAddr H address defaultIp = do {
     r \<leftarrow> net_ResolveTCPAddr H address;
     case r of
       Inl err \<Rightarrow> ret (Inl (Wrapf (''failed to parse addr '' @ [CHR 0x27] @ address @ [CHR 0x27] @ '': '') err []))
     | Inr addr \<Rightarrow>
         ret (Inr (if tcp_IP addr = None then addr\<lparr>tcp_IP := net_ParseIP H defaultIp\<rparr> else addr)) }"

definition runMigrations :: "'w host \<Rightarrow> migration_direction \<Rightarrow> ('w, goerr option) state" where
  "runMigrations H direction = do {
     r \<leftarrow> migrate_Exec H direction;
     case r of Inl err \<Rightarrow> ret (Some err) | Inr nMigrations \<Rightarrow> ret None }"

definition RunMigrationsUp :: "'w host \<Rightarrow> ('w, goerr option) state" where
  "RunMigrationsUp H = runMigrations H Up"

definition RunMigrationsDown :: "'w host \<Rightarrow> ('w, goerr option) state" where
  "RunMigrationsDown H = runMigrations H Down"

text \<open>\<open>NewPostgresStorageWithCfg\<close> of the storage package opens its own pool.\<close>

definition NewPostgresStorageWithCfg ::
    "'w host \<Rightarrow> geth \<Rightarrow> 'w runtime \<Rightarrow> 'w pgdriver \<Rightarrow> DBConfig \<Rightarrow>
     ('w, goerr + 'w sys StorageInterface) state" where
  "NewPostgresStorageWithCfg H G RT D dbCfg = do {
     db \<leftarrow> dbConf_NewSQLDB H dbCfg;
     case db of Inl err \<Rightarrow> ret (Inl err) | Inr pool \<Rightarrow> ret (Inr (NewPostgresStorage G RT D)) }"

section \<open>The signing key\<close>

text \<open>How \<open>start\<close> can end: it returns an error, it panics, or the process exits or waits on.\<close>

datatype start_end = Returned goerr | Panic | Exited nat | Waiting

definition useKMSAuth ::
    "'w host \<Rightarrow> Config \<Rightarrow> ('w, start_end + 'w TransactOpts \<times> address) state" where
  "useKMSAuth H c = do {
     client \<leftarrow> kms_NewKeyManagementClient H (KMSConnectionTimeout (cfg_EthTxManager c));
     case client of
       Inl err \<Rightarrow> ret (Inl (Returned (Wrapf ''failed to create kms client: '' err [])))
     | Inr client \<Rightarrow> do {
         mk \<leftarrow> etherkeyms_NewManagedKey H (KMSKeyName (cfg_EthTxManager c));
         case mk of
           Inl err \<Rightarrow> ret (Inl (Returned (Wrapf ''failed to create managed key: '' err [])))
         | Inr mk \<Rightarrow> ret (Inr (NewEthereumTransactor H mk (ChainID (cfg_L1 c)), mk)) } }"

text \<open>\<open>PrivateKeys[0]\<close> panics on an empty slice, \<open>pk.PublicKey\<close> on a nil key.\<close>

definition useLocalAuth ::
    "geth \<Rightarrow> 'w keyfiles \<Rightarrow> 'w host \<Rightarrow> Config \<Rightarrow> ('w, start_end + 'w TransactOpts \<times> address) state" where
  "useLocalAuth G F H c =
     (case PrivateKeys (cfg_EthTxManager c) of
        [] \<Rightarrow> ret (Inl Panic)
      | key # other_keys \<Rightarrow> do {
          pk \<leftarrow> NewKeyFromKeystore F key;
          case pk of
            Inl err \<Rightarrow> ret (Inl (Returned (Wrapf ''failed to create private key from keystore: '' err [])))
          | Inr None \<Rightarrow> ret (Inl Panic)
          | Inr (Some pk) \<Rightarrow>
              (let addr = PubkeyToAddress G (PublicKey G pk)
               in case bind_NewKeyedTransactorWithChainID H pk (ChainID (cfg_L1 c)) of
                    Inl err \<Rightarrow> ret (Inl (Returned (Wrapf ''failed to create keyed transactor: '' err [])))
                  | Inr opts \<Rightarrow> ret (Inr (opts, addr))) })"

definition load_auth ::
    "geth \<Rightarrow> 'w keyfiles \<Rightarrow> 'w host \<Rightarrow> Config \<Rightarrow> ('w, start_end + 'w TransactOpts \<times> address) state" where
  "load_auth G F H c =
     (if KMSKeyName (cfg_EthTxManager c) \<noteq> [] then useKMSAuth H c
      else if length (PrivateKeys (cfg_EthTxManager c)) > 0 then useLocalAuth G F H c
      else ret (Inl (Returned (Errorf ''no private key found''))))"

section \<open>Stopping\<close>

fun run_cancels :: "('s, unit) state option list \<Rightarrow> ('s, unit) state" where
  "run_cancels [] = ret ()"
| "run_cancels (None # cs) = run_cancels cs"
| "run_cancels (Some cancel # cs) = do { u \<leftarrow> cancel; run_cancels cs }"

text \<open>\<open>signal.Notify(signals, os.Interrupt)\<close> delivers only interrupts to the channel.\<close>

definition signal_Notify :: "os_signal list \<Rightarrow> os_signal list" where
  "signal_Notify sigs = filter (\<lambda>sig. sig = Interrupt) sigs"

fun wait_loop :: "('s, unit) state option list \<Rightarrow> os_signal list \<Rightarrow> ('s, start_end) state" where
  "wait_loop cancelFuncs [] = ret Waiting"
| "wait_loop cancelFuncs (sig # sigs) =
     (if sig = Interrupt \<or> sig = Kill then do {
        u \<leftarrow> run_cancels cancelFuncs;
        ret (Exited 0) }
      else wait_loop cancelFuncs sigs)"

definition waitSignal :: "('s, unit) state option list \<Rightarrow> os_signal list \<Rightarrow> ('s, start_end) state" where
  "waitSignal cancelFuncs sigs = wait_loop cancelFuncs (signal_Notify sigs)"

definition runPrometheusServer ::
    "'w host \<Rightarrow> Config \<Rightarrow> ('w, goerr + ('w, unit) state option) state" where
  "runPrometheusServer H c =
     (if PrometheusAddr (cfg_Telemetry c) = [] then ret (Inr None)
      else do {
        r \<leftarrow> ResolveAddr H (PrometheusAddr (cfg_Telemetry c)) AllInterfacesBinding;
        case r of
          Inl err \<Rightarrow> ret (Inl err)
        | Inr addr \<Rightarrow> do {
            hs_go H (Prometheus_ListenAndServe addr);
            ret (Inr (Some (hs_stop H Prometheus_Close))) } })"

section \<open>start\<close>

definition setupLog :: "('l, 'v, 'w) zap \<Rightarrow> LogConfig \<Rightarrow> (('l, 'w) logsys, start_end + unit) state" where
  "setupLog Z c = do {
     err \<leftarrow> InitLogger Z c;
     case err of Some err \<Rightarrow> ret (Inl Panic) | None \<Rightarrow> ret (Inr ()) }"

definition createMeterProvider :: "'w host \<Rightarrow> ('w, goerr + unit) state" where
  "createMeterProvider H = do {
     err \<leftarrow> prometheus_New H;
     case err of Some err \<Rightarrow> ret (Inl err) | None \<Rightarrow> ret (Inr ()) }"

text \<open>A step that returns its error from \<open>start\<close>, the error changed by \<open>wrap\<close>.\<close>

definition attempt ::
    "(goerr \<Rightarrow> goerr) \<Rightarrow> ('w, goerr + 'a) state \<Rightarrow> (('l, 'w) logsys, start_end + 'a) state" where
  "attempt wrap m = do {
     r \<leftarrow> on_outside m;
     case r of Inl err \<Rightarrow> ret (Inl (Returned (wrap err))) | Inr x \<Rightarrow> ret (Inr x) }"

definition load_config :: "'w viper \<Rightarrow> string \<Rightarrow> ('w, start_end + Config) state" where
  "load_config V path = do {
     (c, err) \<leftarrow> Load V path;
     case err of Some err \<Rightarrow> ret (Inl Panic) | None \<Rightarrow> ret (Inr (the c)) }"

text \<open>The end of \<open>start\<close>: the goroutines, the Prometheus server and the wait for a signal.\<close>

definition run_services ::
    "'w host \<Rightarrow> os_signal list \<Rightarrow> Config \<Rightarrow> address \<Rightarrow> (('l, 'w) logsys, start_end) state" where
  "run_services H sigs c addr = on_outside (do {
     hs_go H (Server_Start c addr);
     hs_go H (EthTxManager_Start (cfg_EthTxManager c));
     r \<leftarrow> runPrometheusServer H c;
     case r of
       Inl err \<Rightarrow> ret (Returned err)
     | Inr closePrometheus \<Rightarrow>
         waitSignal [Some (hs_stop H EthTxManager_Stop), Some (hs_stop H Server_Stop),
           Some (hs_stop H Storage_Close), closePrometheus,
           Some (hs_stop H MeterProvider_Shutdown)] sigs })"

definition start ::
    "geth \<Rightarrow> ('l, 'v, 'w) zap \<Rightarrow> 'w viper \<Rightarrow> 'w keyfiles \<Rightarrow> 'w host \<Rightarrow> string \<Rightarrow> os_signal list \<Rightarrow>
     (('l, 'w) logsys, start_end) state" where
  "start G Z V F H cfgFile sigs = do {
     r \<leftarrow> and_then (on_outside (load_config V cfgFile)) (\<lambda>c.
          and_then (setupLog Z (cfg_Log c)) (\<lambda>u.
          and_then (attempt id (dbConf_NewSQLDB H (cfg_DB c))) (\<lambda>pg.
          and_then (attempt id (do {
              err \<leftarrow> RunMigrationsUp H;
              ret (case err of Some err \<Rightarrow> Inl err | None \<Rightarrow> Inr ()) })) (\<lambda>u.
          and_then (on_outside (load_auth G F H c)) (\<lambda>(opts, addr).
          and_then (attempt (\<lambda>err. Wrapf (''error connecting to '' @ NodeURL (cfg_L1 c) @ '': '') err [])
              (ethclient_Dial H (NodeURL (cfg_L1 c)))) (\<lambda>client.
          and_then (attempt (\<lambda>err. Wrapf ''error getting chain ID from l1 with address: '' err [])
              (ethclient_ChainID H)) (\<lambda>chain.
          and_then (attempt id (ret (Etherman_New client opts c))) (\<lambda>e.
          and_then (attempt id (createMeterProvider H)) (\<lambda>u.
          ret (Inr (c, addr)))))))))));
     case r of
       Inl stop \<Rightarrow> ret stop
     | Inr (c, addr) \<Rightarrow> run_services H sigs c addr }"

section \<open>The health check\<close>

text \<open>What the handler writes: a status line, or the body; a failed write of the body is only logged.\<close>

datatype health = InternalServerError | Healthy_written "goerr option"

definition healthHandler ::
    "'s IDB \<Rightarrow> 's pgxTx \<Rightarrow> (string \<Rightarrow> ('s, goerr option) state) \<Rightarrow> ('s, health) state" where
  "healthHandler storage P write_body = do {
     b \<leftarrow> db_BeginStateTransaction storage;
     case b of
       Inl err \<Rightarrow> ret InternalServerError
     | Inr dbtx \<Rightarrow> do {
         err \<leftarrow> pgx_Rollback P dbtx;
         case err of
           Some err \<Rightarrow> ret InternalServerError
         | None \<Rightarrow> do {
             err \<leftarrow> write_body ''Healthy'';
             ret (Healthy_written err) } } }"

section \<open>Properties\<close>

text \<open>C37. Shutdown: interrupts are the only signals that reach the loop, and on the first one every cancel
  function that is not nil runs exactly once, in the order of the list, before the process exits
  with status 0. Without an interrupt nothing is stopped.\<close>

theorem waitSignal_stops_all:
  "run_state (waitSignal cancelFuncs sigs) s =
     (if Interrupt \<in> set sigs
      then (Exited 0, fold (\<lambda>cancel s. snd (run_state cancel s)) (map the (filter (\<lambda>x. x \<noteq> None) cancelFuncs)) s)
      else (Waiting, s))"
proof -
  have cancels: "run_state (run_cancels cs) s =
      ((), fold (\<lambda>cancel s. snd (run_state cancel s)) (map the (filter (\<lambda>x. x \<noteq> None) cs)) s)" for cs s
    by (induction cs arbitrary: s rule: run_cancels.induct) (simp_all add: split_beta)
  have "signal_Notify sigs = [] \<longleftrightarrow> Interrupt \<notin> set sigs"
    by (auto simp: signal_Notify_def filter_empty_conv)
  moreover have "signal_Notify sigs = [] \<or> (\<exists>rest. signal_Notify sigs = Interrupt # rest)"
    by (induction sigs) (auto simp: signal_Notify_def)
  ultimately show ?thesis
    by (auto simp: waitSignal_def cancels)
qed

text \<open>C38. A configured key file without path and password is not reported as an error: \<open>NewKeyFromKeystore\<close>
  returns a nil key for it and no error, and the caller dereferences the key.\<close>

theorem empty_keystore_panics:
  assumes "KMSKeyName (cfg_EthTxManager c) = []"
    and "PrivateKeys (cfg_EthTxManager c) = \<lparr>ks_Path = [], ks_Password = []\<rparr> # other_keys"
  shows "run_state (load_auth G F H c) s = (Inl Panic, s)"
  using assms by (simp add: load_auth_def useLocalAuth_def NewKeyFromKeystore_def)

definition ref_keyfiles :: "unit keyfiles" where
  "ref_keyfiles = \<lparr>os_ReadFile = (\<lambda>p. ret (Inr [])), keystore_DecryptKey = (\<lambda>b p. Inr [1])\<rparr>"

definition ref_host :: "unit host" where
  "ref_host =
     \<lparr>net_ResolveTCPAddr = (\<lambda>a. ret (Inr \<lparr>tcp_IP = None, tcp_Port = 2223\<rparr>)), net_ParseIP = Some,
      migrate_Exec = (\<lambda>d. ret (Inr 2)), dbConf_NewSQLDB = (\<lambda>c. ret (Inr ())),
      kms_NewKeyManagementClient = (\<lambda>t. ret (Inr ())), etherkeyms_NewManagedKey = (\<lambda>k. ret (Inr 7)),
      NewEthereumTransactor = (\<lambda>a ch. \<lparr>auth_From = a, auth_Signer = (\<lambda>x t. ret (Inr t))\<rparr>),
      bind_NewKeyedTransactorWithChainID =
        (\<lambda>k ch. Inr \<lparr>auth_From = 7, auth_Signer = (\<lambda>x t. ret (Inr t))\<rparr>),
      ethclient_Dial = (\<lambda>u. ret (Inl (Errorf ''offline''))), ethclient_ChainID = ret (Inr 1337),
      prometheus_New = ret None, hs_go = (\<lambda>g. ret ()), hs_stop = (\<lambda>p. ret ())\<rparr>"

lemma empty_keystore_panics_witness:
  "run_state (load_auth ref_geth ref_keyfiles ref_host
     (DefaultValues\<lparr>cfg_EthTxManager := (cfg_EthTxManager DefaultValues)
        \<lparr>PrivateKeys := [\<lparr>ks_Path = [], ks_Password = []\<rparr>]\<rparr>\<rparr>)) () = (Inl Panic, ())"
  by (rule empty_keystore_panics) (simp_all add: DefaultValues_def)

text \<open>C39. The health check leaves the table and the open transactions as they were, whatever happens to
  its statements, and says \<open>Healthy\<close> when the database works and the body can be written.\<close>

theorem health_check_reads:
  assumes "wf_sys s"
  shows "wp (healthHandler (DB_of D) (pgx_of D) (\<lambda>body. on_world (W body)))
    (\<lambda>r s'. committed s' = committed s \<and> open_txs s' = open_txs s \<and>
       (works lim D \<longrightarrow> r \<noteq> InternalServerError)) s"
proof -
  have closed: "(open_txs s)(next_tx s := None) = open_txs s"
    using assms by (intro fun_upd_idem) (simp add: wf_sys_def)
  have "wp (healthHandler (DB_of D) (pgx_of D) (\<lambda>body. on_world (W body)))
      (\<lambda>r s'. committed s' = committed s \<and> open_txs s' = open_txs s) s"
    unfolding healthHandler_def DB_of_fields pgx_of_fields wp_simps
    by (rule wp_Begin) (auto simp: wp_simps closed dest!: db_part_eqD
        intro!: wp_Rollback wp_on_world split: option.splits)
  moreover have "wp (healthHandler (DB_of D) (pgx_of D) (\<lambda>body. on_world (W body)))
      (\<lambda>r s'. r \<noteq> InternalServerError) s" if "works lim D"
    unfolding healthHandler_def DB_of_fields pgx_of_fields DB_BeginStateTransaction_def Tx_Rollback_def
      wp_simps
    by (intro wp_fault_works [OF that])
      (auto simp: wp_simps intro!: wp_fault_works [OF that] wp_on_world [where m = "W ''Healthy''"])
  ultimately show ?thesis
    by (simp add: wp_run)
qed

lemma health_check_reads_witness:
  "wp (healthHandler (DB_of good_driver) (pgx_of good_driver) (\<lambda>body. on_world (ret None)))
    (\<lambda>r s'. r \<noteq> InternalServerError) empty_sys"
proof -
  have "wf_sys empty_sys"
    by (simp add: wf_sys_def empty_sys_def pkey_def keys_def)
  from health_check_reads [OF this, of good_driver "\<lambda>body. ret None" None] show ?thesis
    by (rule wp_mono) simp
qed

end
