(* ===== verification/Threads.thy ===== *)
theory Threads
  imports Service
begin

text \<open>
  The goroutines of the process as sequences of calls. Between two calls of an interface a
  goroutine touches nothing that others see, so it is a \<open>thread\<close>: its code, which is the
  definition of Monitor or Rpc itself, and the replies it has had so far. To find its next call the
  code is run on a \<open>tape\<close>, a state that hands out these replies in their order and stops at the
  first call that has none. Nothing here is specific to the table; Interleaving runs the threads
  on one shared state.
\<close>

section \<open>Calls and replies\<close>

datatype call =
    C_GetTx hash
  | C_GetTxReceipt hash
  | C_WaitTxToBeMined transaction nat
  | C_SendTx transaction
  | C_PendingNonce address
  | C_SuggestedGasPrice
  | C_EstimateGas address "address option" "int option" "byte list option"
  | C_CheckTxWasMined hash
  | C_SignTx address transaction
  | C_GetRevertMessage "transaction option"
  | C_GetSequencerAddr u32
  | C_BuildTrustedVerifyBatchesTxData u64 u64 ZKP u32
  | C_CallContract CallMsg "int option"
  | C_GetLastBlock dbtx
  | C_State_GetLastBlock dbtx
  | C_Add MonitoredTx dbtx
  | C_Get string string dbtx
  | C_GetByStatus "string option" "MonitoredTxStatus list" dbtx
  | C_GetBySenderAndStatus address "MonitoredTxStatus list" dbtx
  | C_Update MonitoredTx dbtx
  | C_BeginStateTransaction
  | C_Commit nat
  | C_Rollback nat
  | C_BatchByNumber string int
  | C_Now
  | C_range
  | C_count string "u32 option"

datatype reply =
    R_tx "transaction option \<times> bool \<times> goerr option"
  | R_receipt "Receipt option \<times> goerr option"
  | R_mined "bool \<times> Receipt option \<times> goerr option"
  | R_bool "goerr + bool"
  | R_err "goerr option"
  | R_u64 "goerr + u64"
  | R_int "goerr + int"
  | R_signed "goerr + transaction"
  | R_message "string \<times> goerr option"
  | R_address "goerr + address"
  | R_data "goerr + byte list"
  | R_result "byte list \<times> goerr option"
  | R_block "goerr + Block"
  | R_mtx "goerr + MonitoredTx"
  | R_mtxs "goerr + MonitoredTx list"
  | R_dbtx "goerr + nat"
  | R_batch "goerr + Batch option"
  | R_now nat
  | R_range "nat list"
  | R_none

text \<open>The value in a reply; what a call returns that will never be answered does not matter.\<close>

definition lost :: goerr where
  "lost = Errorf ''no reply''"

definition "un_tx r = (case r of R_tx x \<Rightarrow> x | _ \<Rightarrow> (None, False, Some lost))"
definition "un_receipt r = (case r of R_receipt x \<Rightarrow> x | _ \<Rightarrow> (None, Some lost))"
definition "un_mined r = (case r of R_mined x \<Rightarrow> x | _ \<Rightarrow> (False, None, Some lost))"
definition "un_bool r = (case r of R_bool x \<Rightarrow> x | _ \<Rightarrow> Inl lost)"
definition "un_err r = (case r of R_err x \<Rightarrow> x | _ \<Rightarrow> Some lost)"
definition "un_u64 r = (case r of R_u64 x \<Rightarrow> x | _ \<Rightarrow> Inl lost)"
definition "un_int r = (case r of R_int x \<Rightarrow> x | _ \<Rightarrow> Inl lost)"
definition "un_signed r = (case r of R_signed x \<Rightarrow> x | _ \<Rightarrow> Inl lost)"
definition "un_message r = (case r of R_message x \<Rightarrow> x | _ \<Rightarrow> ('''', Some lost))"
definition "un_address r = (case r of R_address x \<Rightarrow> x | _ \<Rightarrow> Inl lost)"
definition "un_data r = (case r of R_data x \<Rightarrow> x | _ \<Rightarrow> Inl lost)"
definition "un_result r = (case r of R_result x \<Rightarrow> x | _ \<Rightarrow> ([], Some lost))"
definition "un_block r = (case r of R_block x \<Rightarrow> x | _ \<Rightarrow> Inl lost)"
definition "un_mtx r = (case r of R_mtx x \<Rightarrow> x | _ \<Rightarrow> Inl lost)"
definition "un_mtxs r = (case r of R_mtxs x \<Rightarrow> x | _ \<Rightarrow> Inl lost)"
definition "un_dbtx r = (case r of R_dbtx x \<Rightarrow> x | _ \<Rightarrow> Inl lost)"
definition "un_batch r = (case r of R_batch x \<Rightarrow> x | _ \<Rightarrow> Inl lost)"
definition "un_now r = (case r of R_now x \<Rightarrow> x | _ \<Rightarrow> 0)"
definition "un_range r = (case r of R_range x \<Rightarrow> x | _ \<Rightarrow> [])"
definition un_none :: "reply \<Rightarrow> unit" where "un_none r = ()"

section \<open>The tape\<close>

text \<open>The replies still to come, the calls made with their replies, the newest first, and the call
  that waits.\<close>

record tape =
  replies :: "reply list"
  calls :: "(call \<times> reply) list"
  waiting :: "call option"

definition ask :: "call \<Rightarrow> (reply \<Rightarrow> 'a) \<Rightarrow> (tape, 'a) state" where
  "ask q un = State (\<lambda>s.
     if waiting s \<noteq> None then (un R_none, s)
     else (case replies s of
             [] \<Rightarrow> (un R_none, s\<lparr>waiting := Some q\<rparr>)
           | r # rs \<Rightarrow> (un r, s\<lparr>replies := rs, calls := (q, r) # calls s\<rparr>)))"

definition tape_etherman :: "tape IEtherman" where
  "tape_etherman =
     \<lparr>em_GetTx = (\<lambda>h. ask (C_GetTx h) un_tx),
      em_GetTxReceipt = (\<lambda>h. ask (C_GetTxReceipt h) un_receipt),
      em_WaitTxToBeMined = (\<lambda>t d. ask (C_WaitTxToBeMined t d) un_bool),
      em_SendTx = (\<lambda>t. ask (C_SendTx t) un_err),
      em_PendingNonce = (\<lambda>a. ask (C_PendingNonce a) un_u64),
      em_SuggestedGasPrice = ask C_SuggestedGasPrice un_int,
      em_EstimateGas = (\<lambda>a to v d. ask (C_EstimateGas a to v d) un_u64),
      em_CheckTxWasMined = (\<lambda>h. ask (C_CheckTxWasMined h) un_mined),
      em_SignTx = (\<lambda>a t. ask (C_SignTx a t) un_signed),
      em_GetRevertMessage = (\<lambda>t. ask (C_GetRevertMessage t) un_message),
      em_GetSequencerAddr = (\<lambda>r. ask (C_GetSequencerAddr r) un_address),
      em_BuildTrustedVerifyBatchesTxData =
        (\<lambda>l n z r. ask (C_BuildTrustedVerifyBatchesTxData l n z r) un_data),
      em_CallContract = (\<lambda>m b. ask (C_CallContract m b) un_result),
      em_GetLastBlock = (\<lambda>d. ask (C_GetLastBlock d) un_block)\<rparr>"

definition tape_storage :: "tape StorageInterface" where
  "tape_storage =
     \<lparr>st_Add = (\<lambda>m d. ask (C_Add m d) un_err),
      st_Get = (\<lambda>ow i d. ask (C_Get ow i d) un_mtx),
      st_GetByStatus = (\<lambda>ow sts d. ask (C_GetByStatus ow sts d) un_mtxs),
      st_GetBySenderAndStatus = (\<lambda>a sts d. ask (C_GetBySenderAndStatus a sts d) un_mtxs),
      st_Update = (\<lambda>m d. ask (C_Update m d) un_err)\<rparr>"

definition tape_state :: "tape StateInterface" where
  "tape_state = \<lparr>si_GetLastBlock = (\<lambda>d. ask (C_State_GetLastBlock d) un_block)\<rparr>"

definition tape_runtime :: "tape runtime" where
  "tape_runtime =
     \<lparr>rt_Now = ask C_Now un_now, rt_range = ask C_range un_range,
      rt_count = (\<lambda>n r. ask (C_count n r) un_none)\<rparr>"

definition tape_creator :: "tape IZkEVMClientClientCreator" where
  "tape_creator =
     \<lparr>zk_NewClient = (\<lambda>u. \<lparr>zk_BatchByNumber = (\<lambda>n. ask (C_BatchByNumber u n) un_batch)\<rparr>)\<rparr>"

definition tape_db :: "tape IDB" where
  "tape_db = \<lparr>db_BeginStateTransaction = ask C_BeginStateTransaction un_dbtx\<rparr>"

definition tape_pgx :: "tape pgxTx" where
  "tape_pgx = \<lparr>pgx_Commit = (\<lambda>t. ask (C_Commit t) un_err), pgx_Rollback = (\<lambda>t. ask (C_Rollback t) un_err)\<rparr>"

text \<open>The services of \<open>cmd/main.go\<close> on the tape.\<close>

definition tape_client :: "Config \<Rightarrow> tape Client" where
  "tape_client c = Client_New (cfg_EthTxManager c) tape_etherman tape_storage tape_state"

definition tape_executor :: "Config \<Rightarrow> address \<Rightarrow> tape Executor" where
  "tape_executor c addr =
     Executor_New tape_creator c addr tape_etherman (EthTxManager_of tape_runtime (tape_client c))"

definition tape_endpoints :: "Config \<Rightarrow> address \<Rightarrow> tape InteropEndpoints" where
  "tape_endpoints c addr = NewInteropEndpoints (tape_executor c addr) tape_db c"

section \<open>Threads\<close>

text \<open>A goroutine of \<open>monitorTxs\<close>, or one that serves a request.\<close>

datatype thread =
    Monitoring MonitoredTx
  | Serving_SendTx SignedTx
  | Serving_GetTxStatus hash

datatype outcome = Exit monitor_exit | Response "rpc_result \<times> rpc_error option"

fun body :: "'w deployment \<Rightarrow> thread \<Rightarrow> (tape, outcome) state" where
  "body d (Monitoring m) = do {
     x \<leftarrow> monitorTx (dp_geth d) tape_runtime (tape_client (dp_config d)) m;
     ret (Exit x) }"
| "body d (Serving_SendTx stx) = do {
     r \<leftarrow> InteropEndpoints_SendTx (dp_geth d) tape_runtime tape_pgx
            (tape_endpoints (dp_config d) (dp_addr d)) stx;
     ret (Response r) }"
| "body d (Serving_GetTxStatus h) = do {
     r \<leftarrow> InteropEndpoints_GetTxStatus (dp_geth d) tape_runtime tape_pgx
            (tape_endpoints (dp_config d) (dp_addr d)) h;
     ret (Response r) }"

definition blank :: "reply list \<Rightarrow> tape" where
  "blank rs = \<lparr>replies = rs, calls = [], waiting = None\<rparr>"

text \<open>The next call of a thread that has had the replies \<open>rs\<close>, or its outcome.\<close>

definition next_move :: "'w deployment \<Rightarrow> thread \<Rightarrow> reply list \<Rightarrow> call + outcome" where
  "next_move d th rs =
     (case run_state (body d th) (blank rs) of
        (x, s) \<Rightarrow> (case waiting s of Some q \<Rightarrow> Inl q | None \<Rightarrow> Inr x))"

text \<open>The calls it has made, the newest first.\<close>

definition calls_of :: "'w deployment \<Rightarrow> thread \<Rightarrow> reply list \<Rightarrow> (call \<times> reply) list" where
  "calls_of d th rs = calls (snd (run_state (body d th) (blank rs)))"

text \<open>A call on the services of the process.\<close>

definition replying :: "('a \<Rightarrow> reply) \<Rightarrow> ('s, 'a) state \<Rightarrow> ('s, reply) state" where
  "replying re m = do { x \<leftarrow> m; ret (re x) }"

fun serve_call :: "'w deployment \<Rightarrow> call \<Rightarrow> ('w sys, reply) state" where
  "serve_call d (C_GetTx h) = replying R_tx (em_GetTx (cl_etherman (the_etm d)) h)"
| "serve_call d (C_GetTxReceipt h) = replying R_receipt (em_GetTxReceipt (cl_etherman (the_etm d)) h)"
| "serve_call d (C_WaitTxToBeMined t n) = replying R_bool (em_WaitTxToBeMined (cl_etherman (the_etm d)) t n)"
| "serve_call d (C_SendTx t) = replying R_err (em_SendTx (cl_etherman (the_etm d)) t)"
| "serve_call d (C_PendingNonce a) = replying R_u64 (em_PendingNonce (cl_etherman (the_etm d)) a)"
| "serve_call d C_SuggestedGasPrice = replying R_int (em_SuggestedGasPrice (cl_etherman (the_etm d)))"
| "serve_call d (C_EstimateGas a to v dat) =
     replying R_u64 (em_EstimateGas (cl_etherman (the_etm d)) a to v dat)"
| "serve_call d (C_CheckTxWasMined h) = replying R_mined (em_CheckTxWasMined (cl_etherman (the_etm d)) h)"
| "serve_call d (C_SignTx a t) = replying R_signed (em_SignTx (cl_etherman (the_etm d)) a t)"
| "serve_call d (C_GetRevertMessage t) =
     replying R_message (em_GetRevertMessage (cl_etherman (the_etm d)) t)"
| "serve_call d (C_GetSequencerAddr r) =
     replying R_address (em_GetSequencerAddr (cl_etherman (the_etm d)) r)"
| "serve_call d (C_BuildTrustedVerifyBatchesTxData l n z r) =
     replying R_data (em_BuildTrustedVerifyBatchesTxData (cl_etherman (the_etm d)) l n z r)"
| "serve_call d (C_CallContract m b) = replying R_result (em_CallContract (cl_etherman (the_etm d)) m b)"
| "serve_call d (C_GetLastBlock dt) = replying R_block (em_GetLastBlock (cl_etherman (the_etm d)) dt)"
| "serve_call d (C_State_GetLastBlock dt) = replying R_block (si_GetLastBlock (cl_state (the_etm d)) dt)"
| "serve_call d (C_Add m dt) = replying R_err (st_Add (cl_storage (the_etm d)) m dt)"
| "serve_call d (C_Get ow i dt) = replying R_mtx (st_Get (cl_storage (the_etm d)) ow i dt)"
| "serve_call d (C_GetByStatus ow sts dt) =
     replying R_mtxs (st_GetByStatus (cl_storage (the_etm d)) ow sts dt)"
| "serve_call d (C_GetBySenderAndStatus a sts dt) =
     replying R_mtxs (st_GetBySenderAndStatus (cl_storage (the_etm d)) a sts dt)"
| "serve_call d (C_Update m dt) = replying R_err (st_Update (cl_storage (the_etm d)) m dt)"
| "serve_call d C_BeginStateTransaction =
     replying R_dbtx (db_BeginStateTransaction (DB_of (dp_driver d)))"
| "serve_call d (C_Commit t) = replying R_err (pgx_Commit (pgx_of (dp_driver d)) t)"
| "serve_call d (C_Rollback t) = replying R_err (pgx_Rollback (pgx_of (dp_driver d)) t)"
| "serve_call d (C_BatchByNumber u n) =
     replying R_batch (zk_BatchByNumber (zk_NewClient (lift_creator (dp_creator d)) u) n)"
| "serve_call d C_Now = replying R_now (rt_Now (lift_runtime (dp_runtime d)))"
| "serve_call d C_range = replying R_range (rt_range (lift_runtime (dp_runtime d)))"
| "serve_call d (C_count n r) = replying (\<lambda>_. R_none) (rt_count (lift_runtime (dp_runtime d)) n r)"

end
