(* ===== verification/Tapes.thy ===== *)
theory Tapes
  imports Threads Evidence
begin

text \<open>
  What holds of every thread, whatever its replies. \<open>well\<close>: a program on the tape stops at its
  first unanswered call, and one more reply makes it go on from there. The rest interprets the
  locales \<open>tracked_worker\<close> and \<open>evidence_worker\<close> on the tape of a monitoring thread, whose table is
  what its own updates make of the rows it started with.
\<close>

section \<open>Programs on a tape\<close>

definition on_tape :: "tape \<Rightarrow> reply list" where
  "on_tape s = rev (map snd (calls s)) @ replies s"

definition well :: "(tape, 'a) state \<Rightarrow> bool" where
  "well m \<longleftrightarrow>
     preserves on_tape m \<and>
     (\<forall>s. waiting s \<noteq> None \<longrightarrow> snd (run_state m s) = s) \<and>
     (\<forall>s x s'. waiting s = None \<longrightarrow> run_state m s = (x, s') \<longrightarrow>
        (replies s = [] \<longrightarrow> calls s' = calls s \<and> replies s' = []) \<and>
        (waiting s' = None \<longrightarrow>
           (\<forall>rs. run_state m (s\<lparr>replies := replies s @ rs\<rparr>) = (x, s'\<lparr>replies := replies s' @ rs\<rparr>))) \<and>
        (\<forall>q. waiting s' = Some q \<longrightarrow> replies s' = [] \<and>
           (\<forall>r y t. run_state m (s\<lparr>replies := replies s @ [r]\<rparr>) = (y, t) \<longrightarrow>
              calls t = (q, r) # calls s' \<and> replies t = [])))"

lemma well_frozen: "well m \<Longrightarrow> waiting s \<noteq> None \<Longrightarrow> run_state m s = (x, s') \<Longrightarrow> s' = s"
  unfolding well_def by (metis snd_conv)

lemma well_empty:
  "well m \<Longrightarrow> waiting s = None \<Longrightarrow> replies s = [] \<Longrightarrow> run_state m s = (x, s') \<Longrightarrow>
     calls s' = calls s \<and> replies s' = []"
  unfolding well_def by blast

lemma well_extend:
  "well m \<Longrightarrow> waiting s = None \<Longrightarrow> run_state m s = (x, s') \<Longrightarrow> waiting s' = None \<Longrightarrow>
     run_state m (s\<lparr>replies := replies s @ rs\<rparr>) = (x, s'\<lparr>replies := replies s' @ rs\<rparr>)"
  unfolding well_def by blast

lemma well_waits:
  "well m \<Longrightarrow> waiting s = None \<Longrightarrow> run_state m s = (x, s') \<Longrightarrow> waiting s' = Some q \<Longrightarrow>
     replies s' = []"
  unfolding well_def by blast

lemma well_resume:
  "well m \<Longrightarrow> waiting s = None \<Longrightarrow> run_state m s = (x, s') \<Longrightarrow> waiting s' = Some q \<Longrightarrow>
     run_state m (s\<lparr>replies := replies s @ [r]\<rparr>) = (y, t) \<Longrightarrow> calls t = (q, r) # calls s' \<and> replies t = []"
  unfolding well_def by blast

named_theorems well_intros

lemma well_on_tape: "well m \<Longrightarrow> preserves on_tape m"
  by (simp add: well_def)

lemma well_ret [well_intros]: "well (ret x)"
  by (simp add: well_def preserves_ret)

lemma well_ask [well_intros]: "well (ask q un)"
  unfolding well_def ask_def preserves_def on_tape_def by (auto split: list.splits)

lemma well_bind [well_intros]:
  assumes m: "well m" and f: "\<And>x. well (f x)"
  shows "well (State_Monad.bind m f)"
  unfolding well_def
proof (intro conjI allI impI)
  show "preserves on_tape (State_Monad.bind m f)"
    by (intro preserves_bind well_on_tape m f)
next
  fix s :: tape
  assume "waiting s \<noteq> None"
  then show "snd (run_state (State_Monad.bind m f) s) = s"
    using well_frozen [OF m] well_frozen [OF f] by (auto split: prod.split) (metis snd_conv surj_pair)
next
  fix s y s2
  assume s: "waiting s = None" and run: "run_state (State_Monad.bind m f) s = (y, s2)"
  obtain x s1 where m1: "run_state m s = (x, s1)" by fastforce
  with run have f1: "run_state (f x) s1 = (y, s2)" by simp
  show "calls s2 = calls s" and "replies s2 = []" if "replies s = []"
    using well_empty [OF m s that m1] well_frozen [OF f _ f1] well_empty [OF f _ _ f1] by fastforce+
  show "run_state (State_Monad.bind m f) (s\<lparr>replies := replies s @ rs\<rparr>) = (y, s2\<lparr>replies := replies s2 @ rs\<rparr>)"
    if "waiting s2 = None" for rs
  proof -
    have "waiting s1 = None"
      using well_frozen [OF f _ f1] that by fastforce
    with well_extend [OF m s m1] well_extend [OF f _ f1 that] show ?thesis by simp
  qed
  fix q
  assume q: "waiting s2 = Some q"
  show "replies s2 = []"
    by (cases "waiting s1") (use well_waits [OF m s m1] well_waits [OF f _ f1 q] well_frozen [OF f _ f1] q in auto)
  fix r z t
  assume resume: "run_state (State_Monad.bind m f) (s\<lparr>replies := replies s @ [r]\<rparr>) = (z, t)"
  obtain x' t1 where m2: "run_state m (s\<lparr>replies := replies s @ [r]\<rparr>) = (x', t1)" by fastforce
  with resume have f2: "run_state (f x') t1 = (z, t)" by simp
  have "calls t = (q, r) # calls s2 \<and> replies t = []"
  proof (cases "waiting s1")
    case None
    with well_extend [OF m s m1] m2 have "x' = x" and "t1 = s1\<lparr>replies := replies s1 @ [r]\<rparr>" by simp_all
    with well_resume [OF f None f1 q] f2 show ?thesis by blast
  next
    case (Some q')
    with well_frozen [OF f _ f1] q have s2: "s2 = s1" and "q' = q" by auto
    with well_resume [OF m s m1 Some m2] have t1: "calls t1 = (q, r) # calls s1" "replies t1 = []" by auto
    with well_frozen [OF f _ f2] well_empty [OF f _ _ f2] s2 show ?thesis
      by (cases "waiting t1") auto
  qed
  then show "calls t = (q, r) # calls s2" and "replies t = []" by simp_all
qed

lemma well_cases [well_intros]:
  "well a \<Longrightarrow> (\<And>y. well (b y)) \<Longrightarrow> well (case x of None \<Rightarrow> a | Some y \<Rightarrow> b y)"
  "(\<And>e. well (h e)) \<Longrightarrow> (\<And>v. well (k v)) \<Longrightarrow> well (case z of Inl e \<Rightarrow> h e | Inr v \<Rightarrow> k v)"
  "(\<And>u v. well (l u v)) \<Longrightarrow> well (case p of (u, v) \<Rightarrow> l u v)"
  "well m \<Longrightarrow> well n \<Longrightarrow> well (if c then m else n)"
  "(\<And>v. well (g v)) \<Longrightarrow> well (let v = w in g v)"
  by (simp_all add: Let_def split: option.split sum.split prod.split)

lemma well_and_then [well_intros]: "well m \<Longrightarrow> (\<And>x. well (f x)) \<Longrightarrow> well (and_then m f)"
  unfolding and_then_def by (intro well_intros)

lemmas tape_defs = tape_etherman_def tape_storage_def tape_state_def tape_runtime_def
  tape_creator_def tape_db_def tape_pgx_def

text \<open>Every interface of the tape asks.\<close>

lemma tape_asks [simp]:
  "em_GetTx tape_etherman h = ask (C_GetTx h) un_tx"
  "em_GetTxReceipt tape_etherman h = ask (C_GetTxReceipt h) un_receipt"
  "em_WaitTxToBeMined tape_etherman t n = ask (C_WaitTxToBeMined t n) un_bool"
  "em_SendTx tape_etherman t = ask (C_SendTx t) un_err"
  "em_PendingNonce tape_etherman a = ask (C_PendingNonce a) un_u64"
  "em_SuggestedGasPrice tape_etherman = ask C_SuggestedGasPrice un_int"
  "em_EstimateGas tape_etherman a to v dat = ask (C_EstimateGas a to v dat) un_u64"
  "em_CheckTxWasMined tape_etherman h = ask (C_CheckTxWasMined h) un_mined"
  "em_SignTx tape_etherman a t = ask (C_SignTx a t) un_signed"
  "em_GetRevertMessage tape_etherman ot = ask (C_GetRevertMessage ot) un_message"
  "em_GetSequencerAddr tape_etherman r = ask (C_GetSequencerAddr r) un_address"
  "em_BuildTrustedVerifyBatchesTxData tape_etherman l nb z r =
     ask (C_BuildTrustedVerifyBatchesTxData l nb z r) un_data"
  "em_CallContract tape_etherman msg b = ask (C_CallContract msg b) un_result"
  "em_GetLastBlock tape_etherman dt = ask (C_GetLastBlock dt) un_block"
  "st_Add tape_storage m dt = ask (C_Add m dt) un_err"
  "st_Get tape_storage ow i dt = ask (C_Get ow i dt) un_mtx"
  "st_GetByStatus tape_storage ow' sts dt = ask (C_GetByStatus ow' sts dt) un_mtxs"
  "st_GetBySenderAndStatus tape_storage a sts dt = ask (C_GetBySenderAndStatus a sts dt) un_mtxs"
  "st_Update tape_storage m dt = ask (C_Update m dt) un_err"
  "si_GetLastBlock tape_state dt = ask (C_State_GetLastBlock dt) un_block"
  "rt_Now tape_runtime = ask C_Now un_now"
  "rt_range tape_runtime = ask C_range un_range"
  "rt_count tape_runtime nm ro = ask (C_count nm ro) un_none"
  "zk_BatchByNumber (zk_NewClient tape_creator u) num = ask (C_BatchByNumber u num) un_batch"
  "db_BeginStateTransaction tape_db = ask C_BeginStateTransaction un_dbtx"
  "pgx_Commit tape_pgx tn = ask (C_Commit tn) un_err"
  "pgx_Rollback tape_pgx tn = ask (C_Rollback tn) un_err"
  by (simp_all add: tape_defs)

lemma tape_client_fields [simp]:
  "cl_cfg (tape_client c) = cfg_EthTxManager c" "cl_etherman (tape_client c) = tape_etherman"
  "cl_storage (tape_client c) = tape_storage" "cl_state (tape_client c) = tape_state"
  by (simp_all add: tape_client_def Client_New_def)

lemma tape_endpoints_fields [simp]:
  "ie_db (tape_endpoints c addr) = tape_db"
  "ex_etherman (ie_executor (tape_endpoints c addr)) = tape_etherman"
  "ex_ethTxMan (ie_executor (tape_endpoints c addr)) = EthTxManager_of tape_runtime (tape_client c)"
  "ZkEVMClientCreator (ie_executor (tape_endpoints c addr)) = tape_creator"
  "ex_config (ie_executor (tape_endpoints c addr)) = c"
  "interopAdminAddr (ie_executor (tape_endpoints c addr)) = addr"
  by (simp_all add: tape_endpoints_def NewInteropEndpoints_def tape_executor_def Executor_New_def)

lemmas monitor_defs = monitorTx_def reviewNonceIfNeeded_def reviewMonitoredTxNonce_def getTxNonce_def
  checkRetries_def obtainReceipt_def reviewIfSent_def reviewMonitoredTx_def suggestedGasPrice_def
  signAndRecord_def sendIfUnknown_def waitMined_def settleOutcome_def finalUpdate_def
  shouldContinueToMonitorThisTx_def Let_def

lemmas endpoint_defs = InteropEndpoints_SendTx_def SendTx_settle_def rpc_fail_def
  InteropEndpoints_GetTxStatus_def Executor_CheckTx_def Executor_Verify_def Executor_verifyZKP_def
  Executor_verifySignature_def Executor_Execute_def Executor_Settle_def Executor_GetTxStatus_def
  EthTxManager_of_def IEthTxManager.simps Client_Add_def Client_Result_def buildResult_def
  getTxNonce_def suggestedGasPrice_def Let_def

lemma well_checkHistory [well_intros]: "well (checkHistory (tape_client c) hs sc)"
proof (induction hs arbitrary: sc)
  case (Cons h hs)
  show ?case
    unfolding checkHistory.simps tape_client_fields tape_asks by (intro well_intros Cons)
qed (simp add: well_intros)

lemma well_result_txs [well_intros]: "well (result_txs (tape_client c) hs txs)"
proof (induction hs arbitrary: txs)
  case (Cons h hs)
  show ?case
    unfolding result_txs.simps tape_client_fields tape_asks by (intro well_intros Cons)
qed (simp add: well_intros)

lemma well_monitorTx: "well (monitorTx G tape_runtime (tape_client c) m)"
  unfolding monitor_defs tape_client_fields tape_asks by (intro well_intros)

lemma well_endpoints:
  "well (InteropEndpoints_SendTx G tape_runtime tape_pgx (tape_endpoints c addr) stx)"
  "well (InteropEndpoints_GetTxStatus G tape_runtime tape_pgx (tape_endpoints c addr) h)"
  unfolding endpoint_defs tape_endpoints_fields tape_client_fields tape_asks by (intro well_intros)+

lemma well_body: "well (body d th)"
  by (cases th) (auto intro!: well_intros well_monitorTx well_endpoints)

text \<open>The next call is the one that is made when its reply comes.\<close>

lemma next_call:
  assumes "next_move d th rs = Inl q"
  shows "calls_of d th (rs @ [r]) = (q, r) # calls_of d th rs"
proof -
  obtain x s' where run: "run_state (body d th) (blank rs) = (x, s')" by fastforce
  obtain y t where resume: "run_state (body d th) (blank (rs @ [r])) = (y, t)" by fastforce
  have "waiting s' = Some q"
    using assms run by (auto simp: next_move_def split: option.splits)
  moreover have "(blank rs)\<lparr>replies := replies (blank rs) @ [r]\<rparr> = blank (rs @ [r])"
    by (simp add: blank_def)
  ultimately show ?thesis
    using well_resume [OF well_body _ run, of q r y t] resume
    by (simp add: calls_of_def run) (simp add: blank_def)
qed


section \<open>Which calls a thread makes\<close>

text \<open>The calls that a program has made on a tape and that are not in \<open>ok\<close>.\<close>

definition strays :: "(call \<Rightarrow> bool) \<Rightarrow> tape \<Rightarrow> call set" where
  "strays ok s = {q \<in> fst ` set (calls s). \<not> ok q}"

lemma strays_ask: "ok q \<Longrightarrow> preserves (strays ok) (ask q un)"
  by (auto simp: preserves_def ask_def strays_def split: list.splits)

text \<open>A monitoring thread uses no transaction of the database: it reads by sender and updates. A
  thread that serves a request changes the table through a transaction only, and adds no row but
  that of a certificate that is registered and signed as configured.\<close>

fun monitor_call :: "call \<Rightarrow> bool" where
  "monitor_call (C_Update m dt) = (dt = None)"
| "monitor_call (C_GetBySenderAndStatus a sts dt) = (dt = None)"
| "monitor_call (C_GetByStatus ow sts dt) = False"
| "monitor_call (C_Get ow i dt) = False"
| "monitor_call (C_Add m dt) = False"
| "monitor_call C_BeginStateTransaction = False"
| "monitor_call (C_Commit t) = False"
| "monitor_call (C_Rollback t) = False"
| "monitor_call q = True"

definition accepted :: "'w deployment \<Rightarrow> SignedTx \<Rightarrow> bool" where
  "accepted d stx \<longleftrightarrow>
     rpc_registered (dp_config d) stx \<and> signed_as_configured (dp_geth d) (dp_config d) stx"

definition certified :: "'w deployment \<Rightarrow> MonitoredTx \<Rightarrow> bool" where
  "certified d m \<longleftrightarrow>
     (\<exists>stx. accepted d stx \<and> certificate_mtx (dp_geth d) (dp_config d) (dp_addr d) stx m)"

fun request_call :: "'w deployment \<Rightarrow> call \<Rightarrow> bool" where
  "request_call d (C_Add m dt) = (dt \<noteq> None \<and> certified d m)"
| "request_call d (C_GetBySenderAndStatus a sts dt) = (dt = None)"
| "request_call d (C_Get ow i dt) = (dt \<noteq> None)"
| "request_call d (C_Update m dt) = False"
| "request_call d (C_GetByStatus ow sts dt) = False"
| "request_call d (C_SendTx t) = False"
| "request_call d q = True"

lemma monitor_checkHistory: "preserves (strays monitor_call) (checkHistory (tape_client c) hs sc)"
proof (induction hs arbitrary: sc)
  case (Cons h hs)
  show ?case
    unfolding checkHistory.simps tape_client_fields tape_asks
    by (intro preserves_intros Cons strays_ask) simp
qed (simp add: preserves_intros)

lemma monitor_calls: "preserves (strays monitor_call) (monitorTx G tape_runtime (tape_client c) m)"
  unfolding monitor_defs tape_client_fields tape_asks
  by (intro preserves_intros monitor_checkHistory strays_ask; simp)

lemma request_result_txs: "preserves (strays (request_call d)) (result_txs (tape_client c) hs txs)"
proof (induction hs arbitrary: txs)
  case (Cons h hs)
  show ?case
    unfolding result_txs.simps tape_client_fields tape_asks
    by (intro preserves_intros Cons strays_ask; simp)
qed (simp add: preserves_intros)

lemma request_GetTxStatus:
  "preserves (strays (request_call d))
     (InteropEndpoints_GetTxStatus G tape_runtime tape_pgx (tape_endpoints c addr) h)"
  unfolding endpoint_defs tape_endpoints_fields tape_client_fields tape_asks
  by (intro preserves_intros request_result_txs strays_ask; simp)

text \<open>The checks of the executor come first, as on the services.\<close>

interpretation tape_exe: executor_env G tape_runtime "ie_executor (tape_endpoints c addr)" "strays (request_call d)"
  for G :: geth and c :: Config and addr :: address and d :: "'w deployment"
  by unfold_locales (simp_all add: strays_ask)

lemma request_settle:
  assumes "accepted d stx"
  shows "preserves (strays (request_call d)) (SendTx_settle (dp_geth d) tape_runtime tape_pgx
    (tape_endpoints (dp_config d) (dp_addr d)) stx t)"
proof -
  have cert: "certified d m" if "certificate_mtx (dp_geth d) (dp_config d) (dp_addr d) stx m" for m
    using assms that by (auto simp: certified_def)
  show ?thesis
    unfolding endpoint_defs tape_endpoints_fields tape_client_fields tape_asks
    by (intro preserves_intros strays_ask; simp)
      (rule cert, simp add: certificate_mtx_def new_mtx_def)
qed

lemma request_SendTx:
  "preserves (strays (request_call d)) (InteropEndpoints_SendTx (dp_geth d) tape_runtime tape_pgx
     (tape_endpoints (dp_config d) (dp_addr d)) stx)"
proof (rule preservesI)
  fix s
  let ?keeps = "\<lambda>r s'. strays (request_call d) s' = strays (request_call d) s"
  have fail: "wp (rpc_fail msg) ?keeps s'" if "strays (request_call d) s' = strays (request_call d) s" for msg s'
    using that by (simp add: rpc_fail_def wp_simps)
  have begin_settle: "wp (ask C_BeginStateTransaction un_dbtx) (\<lambda>b. case b of
       Inl err \<Rightarrow> wp (rpc_fail ''failed to begin dbTx'') ?keeps
     | Inr dbTx \<Rightarrow> wp (SendTx_settle (dp_geth d) tape_runtime tape_pgx
         (tape_endpoints (dp_config d) (dp_addr d)) stx dbTx) ?keeps) s'"
    if same: "strays (request_call d) s' = strays (request_call d) s" and "accepted d stx" for s'
    by (rule wp_preserves [OF strays_ask [where ok = "request_call d"]])
      (auto simp: rpc_fail_def wp_simps same intro!: wp_preserves [OF request_settle [OF that(2)]]
        split: sum.split)
  show "wp (InteropEndpoints_SendTx (dp_geth d) tape_runtime tape_pgx
     (tape_endpoints (dp_config d) (dp_addr d)) stx) ?keeps s"
    unfolding InteropEndpoints_SendTx_def tape_endpoints_fields tape_asks wp_simps
    by (rule wp_preserves [OF strays_ask [where ok = "request_call d"]], simp, rule tape_exe.wp_CheckTx [where d = d])
      (auto simp: fail wp_simps accepted_def
        intro!: tape_exe.wp_Verify [where d = d] tape_exe.wp_Execute [where d = d] begin_settle
        split: option.splits)
qed

fun is_monitoring :: "thread \<Rightarrow> bool" where
  "is_monitoring (Monitoring m) = True"
| "is_monitoring th = False"

definition thread_call :: "'w deployment \<Rightarrow> thread \<Rightarrow> call \<Rightarrow> bool" where
  "thread_call d th = (if is_monitoring th then monitor_call else request_call d)"

lemma body_calls: "preserves (strays (thread_call d th)) (body d th)"
  by (cases th)
    (simp_all add: thread_call_def preserves_bind preserves_ret monitor_calls request_SendTx request_GetTxStatus)

lemma next_call_ok:
  assumes "next_move d th rs = Inl q"
  shows "thread_call d th q"
proof -
  have "strays (thread_call d th) (snd (run_state (body d th) (blank (rs @ [R_none])))) = {}"
    using body_calls [of d th] by (simp add: preserves_def strays_def blank_def)
  moreover have "q \<in> fst ` set (calls_of d th (rs @ [R_none]))"
    by (simp add: next_call [OF assms])
  ultimately show ?thesis
    unfolding strays_def calls_of_def by blast
qed

section \<open>The table of a monitoring thread\<close>

text \<open>
  What an update did is not in its reply: one that failed may have taken effect, and the order of
  the history and the time in the row are not the thread's. \<open>\<Omega>\<close> says it, for the \<open>n\<close>-th
  call.
\<close>

type_synonym acks = "nat \<Rightarrow> (nat list \<times> nat) option"

fun effect :: "geth \<Rightarrow> (nat list \<times> nat) option \<Rightarrow> call \<Rightarrow> reply \<Rightarrow> row list \<Rightarrow> row list" where
  "effect G z (C_Update m None) r t =
     (case z of
        Some (ks, u) \<Rightarrow> apply_write (Update (row_of G ks 0 u m)) t
      | None \<Rightarrow> if un_err r = None then apply_write (Update (row_of G [] 0 0 m)) t else t)"
| "effect G z q r t = t"

fun rows_after :: "geth \<Rightarrow> acks \<Rightarrow> row list \<Rightarrow> (call \<times> reply) list \<Rightarrow> row list" where
  "rows_after G \<Omega> t0 [] = t0"
| "rows_after G \<Omega> t0 ((q, r) # l) = effect G (\<Omega> (length l)) q r (rows_after G \<Omega> t0 l)"

lemma rows_after_upd: "length l \<le> n \<Longrightarrow> rows_after G (\<Omega>(n := z)) t0 l = rows_after G \<Omega> t0 l"
  by (induction l) auto

fun sent_by :: "geth \<Rightarrow> call \<Rightarrow> hash set" where
  "sent_by G (C_SendTx t) = {tx_Hash G t}"
| "sent_by G q = {}"

fun seen_by :: "call \<Rightarrow> reply \<Rightarrow> event set" where
  "seen_by (C_GetTxReceipt h) r = receipt_event h (un_receipt r)"
| "seen_by (C_CheckTxWasMined h) r = mined_event h (un_mined r)"
| "seen_by (C_State_GetLastBlock dt) r = block_event (un_block r)"
| "seen_by q r = {}"

definition calls_sent :: "geth \<Rightarrow> (call \<times> reply) list \<Rightarrow> hash set" where
  "calls_sent G l = (\<Union>(q, r) \<in> set l. sent_by G q)"

definition calls_seen :: "(call \<times> reply) list \<Rightarrow> event set" where
  "calls_seen l = (\<Union>(q, r) \<in> set l. seen_by q r)"

lemma wp_ask:
  "\<lbrakk>waiting s \<noteq> None \<Longrightarrow> Q (un R_none) s;
    waiting s = None \<Longrightarrow> replies s = [] \<Longrightarrow> Q (un R_none) (s\<lparr>waiting := Some q\<rparr>);
    \<And>r rs. waiting s = None \<Longrightarrow> replies s = r # rs \<Longrightarrow>
      Q (un r) (s\<lparr>replies := rs, calls := (q, r) # calls s\<rparr>)\<rbrakk> \<Longrightarrow> wp (ask q un) Q s"
  by (auto simp: wp_run ask_def split: list.splits)

lemma un_R_none [simp]:
  "un_err R_none = Some lost" "un_receipt R_none = (None, Some lost)"
  "un_mined R_none = (False, None, Some lost)" "un_block R_none = Inl lost"
  by (simp_all add: un_err_def un_receipt_def un_mined_def un_block_def)

lemma no_events [simp]:
  "receipt_event h (None, e) = {}" "mined_event h (False, x, e') = {}" "block_event (Inl e'') = {}"
  by (simp_all add: receipt_event_def mined_event_def block_event_def)

abbreviation tape_table :: "geth \<Rightarrow> acks \<Rightarrow> row list \<Rightarrow> tape \<Rightarrow> row list" where
  "tape_table G \<Omega> t0 s \<equiv> rows_after G \<Omega> t0 (calls s)"


lemma effect_other: "(\<And>m. q \<noteq> C_Update m None) \<Longrightarrow> effect G z q r t = t"
  by (cases "(G, z, q, r, t)" rule: effect.cases) auto

lemma table_ask: "(\<And>m. q \<noteq> C_Update m None) \<Longrightarrow> preserves (tape_table G \<Omega> t0) (ask q un)"
  by (auto simp: preserves_def ask_def effect_other split: list.splits)

lemma update_ask:
  assumes "\<And>e s'. tape_table G \<Omega> t0 s' = tape_table G \<Omega> t0 s \<Longrightarrow> Q (Some e) s'"
    and "\<And>r ks u s'. tape_table G \<Omega> t0 s' = apply_write (Update (row_of G ks 0 u m)) (tape_table G \<Omega> t0 s) \<Longrightarrow> Q r s'"
  shows "wp (ask (C_Update m None) un_err) Q s"
proof (rule wp_ask)
  fix r rs
  let ?s = "s\<lparr>replies := rs, calls := (C_Update m None, r) # calls s\<rparr>"
  show "Q (un_err r) ?s"
  proof (cases "\<Omega> (length (calls s))")
    case None
    show ?thesis
    proof (cases "un_err r")
      case None': None
      show ?thesis by (rule assms(2) [of _ "[]" 0]) (simp add: None None' del: apply_write.simps)
    next
      case (Some e)
      then show ?thesis by (simp add: assms(1) None)
    qed
  next
    case (Some z)
    obtain ks u where "z = (ks, u)" by (cases z)
    then show ?thesis by (intro assms(2) [of _ ks u]) (simp add: Some del: apply_write.simps)
  qed
qed (simp_all add: assms(1))

lemma sent_ask: "sent_by G q = {} \<Longrightarrow> preserves (\<lambda>s. calls_sent G (calls s)) (ask q un)"
  by (auto simp: preserves_def ask_def calls_sent_def split: list.splits)

lemma send_ask:
  assumes "\<And>r s'. tape_table G \<Omega> t0 s' = tape_table G \<Omega> t0 s \<Longrightarrow>
      calls_sent G (calls s') \<subseteq> insert (tx_Hash G t) (calls_sent G (calls s)) \<Longrightarrow> Q r s'"
  shows "wp (ask (C_SendTx t) un_err) Q s"
  by (rule wp_ask) (auto intro!: assms simp: calls_sent_def)

lemma seen_ask:
  assumes "\<And>r. seen_by q r = ev (un r)" and "ev (un R_none) = {}"
  shows "wp (ask q un) (\<lambda>r s'. calls_seen (calls s) \<subseteq> calls_seen (calls s') \<and>
    ev r \<subseteq> calls_seen (calls s')) s"
  by (rule wp_ask) (auto simp: calls_seen_def assms)

lemma grows_ask: "grows (\<lambda>s. calls_seen (calls s)) (ask q un)"
  by (auto simp: grows_def ask_def calls_seen_def split: list.splits)

interpretation tape_tracked: tracked_worker G tape_storage "tape_table G \<Omega> t0" "tape_client c" tape_runtime
    "\<lambda>s. calls_sent G (calls s)"
  for G :: geth and \<Omega> :: acks and t0 :: "row list" and c :: Config
proof (unfold_locales, unfold tape_client_fields tape_asks, goal_cases)
  case (1 s Q m)
  then show ?case by (rule update_ask)
next
  case (29 s t Q)
  then show ?case by (rule send_ask)
qed (simp_all add: table_ask sent_ask)

interpretation tape_evidence: evidence_worker G tape_storage "tape_table G \<Omega> t0" "tape_client c" tape_runtime
    "\<lambda>s. calls_seen (calls s)"
  for G :: geth and \<Omega> :: acks and t0 :: "row list" and c :: Config
  by (unfold_locales, unfold tape_client_fields tape_asks) (auto intro: grows_ask seen_ask)


section \<open>What a monitoring thread does to its row\<close>

lemma calls_of_monitoring:
  assumes "wp (monitorTx (dp_geth d) tape_runtime (tape_client (dp_config d)) m) (\<lambda>r s. P (calls s)) (blank rs)"
  shows "P (calls_of d (Monitoring m) rs)"
  using assms by (simp add: wp_run calls_of_def split_beta)

lemma calls_blank [simp]: "calls (blank rs) = []" "calls_sent G [] = {}" "calls_seen [] = {}"
  by (simp_all add: blank_def calls_sent_def calls_seen_def)

text \<open>The thread of a transaction that was read from the row \<open>r0\<close>.\<close>

definition read_from :: "geth \<Rightarrow> row \<Rightarrow> MonitoredTx \<Rightarrow> bool" where
  "read_from G r0 m \<longleftrightarrow>
     (\<exists>m0. scanMtx G r0 = Inr m0 \<and> m = fixNumRetries m0 \<and> Status m0 \<in> set monitored_statuses)"

lemma read_from_key: "read_from G r0 m \<Longrightarrow> mtx_key m = row_key r0"
  by (auto simp: read_from_def fixNumRetries_def dest: scanMtx_fields(1))

lemma thread_rows_evolve:
  assumes "geth_ok (dp_geth d)" and "read_from (dp_geth d) r0 m"
  shows "rows_evolve (dp_geth d) [r0] (rows_after (dp_geth d) \<Omega> [r0] (calls_of d (Monitoring m) rs))"
proof (rule calls_of_monitoring)
  from assms(2) obtain m0 where m0: "scanMtx (dp_geth d) r0 = Inr m0" "m = fixNumRetries m0"
    "Status m0 \<in> set monitored_statuses"
    by (auto simp: read_from_def)
  have "lookup [r0] (mtx_key m0) = Some r0"
    using scanMtx_fields(1) [OF m0(1)] by (simp add: lookup_def)
  from stable_rows_evolve [OF assms(1) this m0(1)]
  have "stable_under (dp_geth d) m (rows_evolve (dp_geth d) [r0])"
    by (rule stable_under_evolves) (simp add: m0(2))
  then show "wp (monitorTx (dp_geth d) tape_runtime (tape_client (dp_config d)) m)
      (\<lambda>r s. rows_evolve (dp_geth d) [r0] (rows_after (dp_geth d) \<Omega> [r0] (calls s))) (blank rs)"
    by (rule tape_tracked.monitorTx_inv) (simp_all add: m0)
qed

lemma thread_sent_recorded:
  assumes "geth_ok (dp_geth d)" and "read_from (dp_geth d) r0 m"
  shows "calls_sent (dp_geth d) (calls_of d (Monitoring m) rs) \<subseteq>
    recorded (dp_geth d) (rows_after (dp_geth d) \<Omega> [r0] (calls_of d (Monitoring m) rs))"
proof (rule calls_of_monitoring)
  from assms(2) obtain m0 where m0: "scanMtx (dp_geth d) r0 = Inr m0" "m = fixNumRetries m0"
    "Status m0 \<in> set monitored_statuses"
    by (auto simp: read_from_def)
  have "tape_tracked.fresh_copy (dp_geth d) m [r0]"
    using tape_tracked.fresh_scanned [of "[r0]" r0 "dp_geth d" m0] m0
    by (simp add: pkey_def keys_def tape_tracked.fixNumRetries_fresh)
  then have traced: "traced (dp_geth d) {} m [r0]"
    by (rule tape_tracked.fresh_traced) simp
  show "wp (monitorTx (dp_geth d) tape_runtime (tape_client (dp_config d)) m)
      (\<lambda>r s. calls_sent (dp_geth d) (calls s) \<subseteq>
         recorded (dp_geth d) (rows_after (dp_geth d) \<Omega> [r0] (calls s))) (blank rs)"
    by (rule wp_mono [OF tape_tracked.monitorTx_tracked [OF assms(1), where \<Omega> = \<Omega> and ?t0.0 = "[r0]"]])
      (use traced m0 in \<open>simp_all add: tape_tracked.ended_def\<close>)
qed

lemma thread_backed:
  assumes "geth_ok (dp_geth d)" and "read_from (dp_geth d) r0 m"
  shows "backed (dp_geth d) (calls_seen (calls_of d (Monitoring m) rs))
    (rows_after (dp_geth d) \<Omega> [r0] (calls_of d (Monitoring m) rs))"
proof (rule calls_of_monitoring)
  from assms(2) obtain m0 where m0: "scanMtx (dp_geth d) r0 = Inr m0" "m = fixNumRetries m0"
    "Status m0 \<in> set monitored_statuses"
    by (auto simp: read_from_def)
  have "c_status r0 \<noteq> MonitoredTxStatusConfirmed"
    using m0(3) scanMtx_fields(2) [OF m0(1)] monitored_not_confirmed by auto
  then have "backed (dp_geth d) {} [r0]"
    by (simp add: backed_def)
  then show "wp (monitorTx (dp_geth d) tape_runtime (tape_client (dp_config d)) m)
      (\<lambda>r s. backed (dp_geth d) (calls_seen (calls s)) (rows_after (dp_geth d) \<Omega> [r0] (calls s))) (blank rs)"
    by (intro wp_mono [OF tape_evidence.monitorTx_backed [where \<Omega> = \<Omega> and ?t0.0 = "[r0]"]])
      (use assms(1) m0 in \<open>simp_all add: tape_evidence.J_def\<close>)
qed

text \<open>It updates no row but its own: another one in its table would show the update.\<close>

lemma thread_updates_own:
  assumes st: "Status m \<in> set monitored_statuses"
    and move: "next_move d (Monitoring m) rs = Inl (C_Update m1 None)"
  shows "mtx_key m1 = mtx_key m"
proof (rule ccontr)
  assume other: "mtx_key m1 \<noteq> mtx_key m"
  define G where "G = dp_geth d"
  define r1 where "r1 = row_of G [] 0 0 m1"
  define \<Omega> where "\<Omega> n = Some ([] :: nat list, 1 :: nat)" for n :: nat
  let ?l = "calls_of d (Monitoring m) rs"
  have only: "only_row (mtx_key m) [r1] (rows_after G \<Omega> [r1] (calls_of d (Monitoring m) rs'))" for rs'
    unfolding G_def
    by (rule calls_of_monitoring, rule tape_tracked.monitorTx_inv [OF stable_only_row st])
      (simp_all add: only_row_def)
  have "lookup (rows_after G \<Omega> [r1] ?l) (mtx_key m1) = Some r1"
    using only [of rs] other by (simp add: only_row_def lookup_def r1_def)
  then have "lookup (apply_write (Update (row_of G [] 0 1 m1)) (rows_after G \<Omega> [r1] ?l)) (mtx_key m1) =
      Some ((row_of G [] 0 1 m1)\<lparr>c_created_at := c_created_at r1\<rparr>)"
    by (simp add: lookup_update del: apply_write.simps)
  moreover have "lookup (apply_write (Update (row_of G [] 0 1 m1)) (rows_after G \<Omega> [r1] ?l)) (mtx_key m1) = Some r1"
    using only [of "rs @ [R_none]"] other
    by (simp add: next_call [OF move] only_row_def lookup_def r1_def \<Omega>_def del: apply_write.simps)
  ultimately have "(row_of G [] 0 1 m1)\<lparr>c_created_at := c_created_at r1\<rparr> = r1"
    by simp
  then have "c_updated_at ((row_of G [] 0 1 m1)\<lparr>c_created_at := c_created_at r1\<rparr>) = c_updated_at r1"
    by (rule arg_cong)
  then show False
    by (simp add: r1_def row_of_def)
qed

end
