(* ===== verification/Interleaving.thy ===== *)
theory Interleaving
  imports Tapes
begin

text \<open>
  The process as its goroutines run it: the monitoring threads of a cycle and the threads that serve
  requests make their calls in any interleaving, on one shared state. \<open>step\<close> is the transition
  relation of the process; the state is that of the system and the pool of threads. The invariants
  of the table hold in every state that is reached.
\<close>

declare split_paired_All [simp del] split_paired_Ex [simp del]

section \<open>The process\<close>

type_synonym pool = "(thread \<times> reply list) list"

definition spawn :: "goerr + MonitoredTx list \<Rightarrow> pool" where
  "spawn r = (case r of Inl e \<Rightarrow> [] | Inr ms \<Rightarrow> map (\<lambda>m. (Monitoring (fixNumRetries m), [])) ms)"

definition idle_monitor :: "pool \<Rightarrow> bool" where
  "idle_monitor ts = list_all (\<lambda>(th, rs). \<not> is_monitoring th) ts"

text \<open>
  \<open>monitorTxs\<close> starts its goroutines when those of the cycle before have ended (\<open>wg.Wait\<close>); a
  request starts one at any time; a goroutine makes its next call, or ends.
\<close>

inductive step :: "'w deployment \<Rightarrow> 'w sys \<times> pool \<Rightarrow> 'w sys \<times> pool \<Rightarrow> bool" for d where
  cycle:
    "idle_monitor ts \<Longrightarrow>
     run_state (serve_call d (C_GetByStatus None monitored_statuses None)) s = (r, s') \<Longrightarrow>
     step d (s, ts) (s', ts @ spawn (un_mtxs r))"
| request:
    "\<not> is_monitoring th \<Longrightarrow> step d (s, ts) (s, ts @ [(th, [])])"
| call:
    "next_move d th rs = Inl q \<Longrightarrow> run_state (serve_call d q) s = (r, s') \<Longrightarrow>
     step d (s, xs @ (th, rs) # ys) (s', xs @ (th, rs @ [r]) # ys)"
| finish:
    "next_move d th rs = Inr x \<Longrightarrow> step d (s, xs @ (th, rs) # ys) (s, xs @ ys)"

section \<open>What one call does to the database\<close>

text \<open>The rows that a request may add.\<close>

definition new_row :: "'w deployment \<Rightarrow> row \<Rightarrow> bool" where
  "new_row d r \<longleftrightarrow> (\<exists>m ks cr u. certified d m \<and> r = row_of (dp_geth d) ks cr u m)"

definition inserts_only :: "'w deployment \<Rightarrow> sql_write list \<Rightarrow> bool" where
  "inserts_only d ws \<longleftrightarrow> (\<forall>w \<in> set ws. \<exists>r. w = Insert r \<and> new_row d r)"

definition pending_new :: "'w deployment \<Rightarrow> 'w sys \<Rightarrow> bool" where
  "pending_new d s \<longleftrightarrow> (\<forall>t ws. open_txs s t = Some ws \<longrightarrow> inserts_only d ws)"

lemma new_row_created: "new_row d r \<Longrightarrow> c_status r = MonitoredTxStatusCreated"
  by (auto simp: new_row_def certified_def certificate_mtx_def new_mtx_def)

lemma apply_inserts:
  assumes "inserts_only d ws" and "apply_writes ws t = Some t'"
  shows "\<exists>new. t' = t @ new \<and> (\<forall>r \<in> set new. new_row d r)"
  using assms
proof (induction ws arbitrary: t)
  case (Cons w ws)
  then obtain r where w: "w = Insert r" "new_row d r"
    by (auto simp: inserts_only_def)
  with Cons obtain new where "t' = (t @ [r]) @ new" "\<forall>r \<in> set new. new_row d r"
    by (fastforce simp: inserts_only_def split: if_splits)
  with w(2) show ?case
    by (intro exI [of _ "r # new"]) simp
qed simp

lemma db_part_pending: "db_part s' = db_part s \<Longrightarrow> pending_new d s' = pending_new d s"
  by (simp add: db_part_def pending_new_def)

lemma wp_replying [wp_simps]: "wp (replying re m) Q = wp m (\<lambda>x. Q (re x))"
  by (simp add: replying_def wp_simps)

lemma preserves_replying [preserves_intros]: "preserves f m \<Longrightarrow> preserves f (replying re m)"
  unfolding replying_def by (intro preserves_intros)

lemma the_etm_fields [simp]:
  "cl_storage (the_etm d) = NewPostgresStorage (dp_geth d) (dp_runtime d) (dp_driver d)"
  "cl_etherman (the_etm d) = lift_IEtherman (dp_etherman d)"
  "cl_state (the_etm d) = StateInterface_of (lift_IEtherman (dp_etherman d))"
  by (simp_all add: the_etm_def)

lemma db_part_pg [preserves_intros]:
  "preserves db_part (pg_query D c p)" "preserves db_part (pg_query_row D c ow i)"
  unfolding pg_query_def pg_query_row_def Let_def
  by (intro preserves_intros preserves_on_world)+

lemma db_part_goerr [preserves_intros]:
  "preserves db_part (PostgresStorage_Get G D ow i dt)"
  "preserves db_part (PostgresStorage_GetByStatus G D ow' sts dt)"
  "preserves db_part (PostgresStorage_GetBySenderAndStatus G D a sts dt)"
  unfolding PostgresStorage_Get_def PostgresStorage_GetByStatus_def
    PostgresStorage_GetBySenderAndStatus_def Let_def
  by (intro preserves_intros preserves_on_world)+

text \<open>Every call but five leaves the database alone.\<close>

fun writing_call :: "call \<Rightarrow> bool" where
  "writing_call (C_Add m dt) = True"
| "writing_call (C_Update m dt) = True"
| "writing_call C_BeginStateTransaction = True"
| "writing_call (C_Commit t) = True"
| "writing_call (C_Rollback t) = True"
| "writing_call q = False"

lemma db_part_read: "\<not> writing_call q \<Longrightarrow> preserves db_part (serve_call d q)"
  by (cases q)
    (simp_all add: preserves_replying preserves_on_world db_part_goerr lift_IEtherman_def
      StateInterface_of_def lift_runtime_def lift_creator_def)

text \<open>What a call of a request does to the database: it adds new rows at most.\<close>

definition adds_new :: "'w deployment \<Rightarrow> 'w sys \<Rightarrow> 'w sys \<Rightarrow> bool" where
  "adds_new d s s' \<longleftrightarrow>
     (\<exists>new. committed s' = committed s @ new \<and> (\<forall>r \<in> set new. new_row d r)) \<and>
     pkey (committed s') \<and> pending_new d s'"

lemma adds_new_same:
  "pkey (committed s) \<Longrightarrow> committed s' = committed s \<Longrightarrow> pending_new d s' \<Longrightarrow> adds_new d s s'"
  by (simp add: adds_new_def)

lemma pending_new_upd:
  "pending_new d s \<Longrightarrow> open_txs s' = (open_txs s)(t := w) \<Longrightarrow> (\<And>ws. w = Some ws \<Longrightarrow> inserts_only d ws) \<Longrightarrow>
     pending_new d s'"
  by (auto simp: pending_new_def split: if_splits)

lemma adds_new_commit:
  assumes "pkey (committed s)" and "pending_new d s" and "open_txs s t = Some ws"
    and "committed s' = committed s \<or> apply_writes ws (committed s) = Some (committed s')"
    and "open_txs s' = (open_txs s)(t := None)"
  shows "adds_new d s s'"
proof -
  have "inserts_only d ws"
    using assms(2,3) by (auto simp: pending_new_def)
  with assms(1,4) have "\<exists>new. committed s' = committed s @ new \<and> (\<forall>r \<in> set new. new_row d r)"
    and "pkey (committed s')"
    by (auto dest: apply_inserts pkey_apply_writes)
  with pending_new_upd [OF assms(2,5)] show ?thesis
    by (simp add: adds_new_def)
qed

lemma request_call_adds:
  assumes pk: "pkey (committed s)" and new: "pending_new d s" and q: "request_call d q"
  shows "wp (serve_call d q) (\<lambda>r s'. adds_new d s s') s"
proof (cases "writing_call q")
  case False
  then show ?thesis
    by (intro wp_preserves [OF db_part_read])
      (use pk new in \<open>auto simp: db_part_def pending_new_def intro!: adds_new_same\<close>)
next
  case True
  then show ?thesis
  proof (cases q)
    case (C_Add m dt)
    with q obtain t where t: "dt = Some t" and m: "certified d m"
      by auto
    have row: "new_row d (row_of (dp_geth d) ks cr u m)" for ks cr u
      using m by (auto simp: new_row_def)
    have "pending_new d (conn_write (TxConn t) (Insert (row_of (dp_geth d) ks cr u m)) (s\<lparr>world := w\<rparr>))"
      for ks cr u w
      using new row by (auto simp: pending_new_def inserts_only_def)
    with pk new show ?thesis
      unfolding C_Add serve_call.simps wp_replying the_etm_fields storage_fields t
      by (intro wp_PostgresStorage_Add) (auto intro!: adds_new_same simp: pending_new_def)
  next
    case C_BeginStateTransaction
    show ?thesis
      unfolding C_BeginStateTransaction serve_call.simps wp_replying DB_of_fields
    proof (rule wp_Begin)
      show "adds_new d s s'" if "db_part s' = db_part s" for s'
        using db_part_eqD [OF that] db_part_pending [OF that] new by (intro adds_new_same [OF pk]) simp_all
      show "adds_new d s s'" if "committed s' = committed s" "open_txs s' = (open_txs s)(next_tx s := Some [])" for s'
        using that by (intro adds_new_same [OF pk] pending_new_upd [OF new]) (auto simp: inserts_only_def)
    qed
  next
    case (C_Commit t)
    show ?thesis
    proof (cases "open_txs s t")
      case None
      then show ?thesis
        unfolding C_Commit serve_call.simps wp_replying pgx_of_fields Tx_Commit_def
        by (simp add: wp_simps adds_new_same pk new)
    next
      case (Some ws)
      then show ?thesis
        unfolding C_Commit serve_call.simps wp_replying pgx_of_fields
        by (rule wp_Commit) (auto intro: adds_new_commit [OF pk new Some])
    qed
  next
    case (C_Rollback t)
    show ?thesis
    proof (cases "open_txs s t")
      case None
      then show ?thesis
        unfolding C_Rollback serve_call.simps wp_replying pgx_of_fields Tx_Rollback_def
        by (simp add: wp_simps adds_new_same pk new)
    next
      case (Some ws)
      then show ?thesis
        unfolding C_Rollback serve_call.simps wp_replying pgx_of_fields
        by (intro wp_Rollback) (auto intro!: adds_new_same [OF pk] pending_new_upd [OF new])
    qed
  qed (use q in simp_all)
qed

text \<open>What an update without a transaction does.\<close>

lemma update_call:
  assumes "\<And>e s'. committed s' = committed s \<Longrightarrow> open_txs s' = open_txs s \<Longrightarrow> Q (R_err (Some e)) s'"
    and "\<And>e ks u s'. committed s' = apply_write (Update (row_of (dp_geth d) ks 0 u m)) (committed s) \<Longrightarrow>
      open_txs s' = open_txs s \<Longrightarrow> Q (R_err e) s'"
  shows "wp (serve_call d (C_Update m None)) Q s"
  unfolding serve_call.simps wp_replying the_etm_fields storage_fields
  by (rule wp_PostgresStorage_Update) (rule assms; simp del: apply_write.simps)+


section \<open>The invariant of the process\<close>

fun mkeys :: "pool \<Rightarrow> (string \<times> string) list" where
  "mkeys [] = []"
| "mkeys ((th, rs) # ts) = (case th of Monitoring m \<Rightarrow> [mtx_key m] | _ \<Rightarrow> []) @ mkeys ts"

lemma mkeys_append [simp]: "mkeys (xs @ ys) = mkeys xs @ mkeys ys"
  by (induction xs rule: mkeys.induct) auto

lemma mkeys_idle: "idle_monitor ts \<Longrightarrow> mkeys ts = []"
  by (induction ts rule: mkeys.induct) (auto simp: idle_monitor_def split: thread.split)

lemma mkeys_spawn: "mkeys (map (\<lambda>m. (Monitoring (f m), [])) ms) = map (\<lambda>m. mtx_key (f m)) ms"
  by (induction ms) simp_all

lemma mkeys_mem: "(Monitoring m, rs) \<in> set ts \<Longrightarrow> mtx_key m \<in> set (mkeys ts)"
  by (induction ts rule: mkeys.induct) auto

text \<open>
  A monitoring thread and its row: \<open>b\<close> holds the row it was read from, and the row in the table is
  what its updates have made of it.
\<close>

definition thread_ok ::
    "'w deployment \<Rightarrow> (string \<times> string \<rightharpoonup> row) \<Rightarrow> 'w sys \<Rightarrow> MonitoredTx \<Rightarrow> reply list \<Rightarrow> bool" where
  "thread_ok d b s m rs \<longleftrightarrow>
     (\<exists>r0 r \<Omega>. b (mtx_key m) = Some r0 \<and> read_from (dp_geth d) r0 m \<and>
        lookup (committed s) (mtx_key m) = Some r \<and>
        rows_after (dp_geth d) \<Omega> [r0] (calls_of d (Monitoring m) rs) = [r])"

definition pool_ok :: "'w deployment \<Rightarrow> (string \<times> string \<rightharpoonup> row) \<Rightarrow> 'w sys \<Rightarrow> pool \<Rightarrow> bool" where
  "pool_ok d b s ts \<longleftrightarrow>
     pkey (committed s) \<and> pending_new d s \<and> distinct (mkeys ts) \<and> dom b = set (mkeys ts) \<and>
     (\<forall>m rs. (Monitoring m, rs) \<in> set ts \<longrightarrow> thread_ok d b s m rs)"

text \<open>The table with the rows that are being monitored as they were read.\<close>

definition view :: "(string \<times> string \<rightharpoonup> row) \<Rightarrow> 'w sys \<Rightarrow> (string \<times> string \<rightharpoonup> row)" where
  "view b s = lookup (committed s) ++ b"

lemma calls_of_Nil [simp]: "calls_of d th [] = []"
proof -
  obtain x s' where "run_state (body d th) (blank []) = (x, s')" by fastforce
  with well_empty [OF well_body _ _ this] show ?thesis
    by (simp add: calls_of_def) (simp add: blank_def)
qed

lemma thread_ok_frame:
  "thread_ok d b s m rs \<Longrightarrow> lookup (committed s') (mtx_key m) = lookup (committed s) (mtx_key m) \<Longrightarrow>
     b' (mtx_key m) = b (mtx_key m) \<Longrightarrow> thread_ok d b' s' m rs"
  by (simp add: thread_ok_def)

lemma pool_ok_other:
  assumes "pool_ok d b s (xs @ (Monitoring m, rs) # ys)" and "(Monitoring m', rs') \<in> set (xs @ ys)"
  shows "mtx_key m' \<noteq> mtx_key m"
  using assms mkeys_mem [of m' rs' xs] mkeys_mem [of m' rs' ys] by (auto simp: pool_ok_def)

lemma pool_ok_thread: "pool_ok d b s ts \<Longrightarrow> (Monitoring m, rs) \<in> set ts \<Longrightarrow> thread_ok d b s m rs"
  by (simp add: pool_ok_def)

lemma pool_ok_idle: "pool_ok d b s ts \<Longrightarrow> idle_monitor ts \<Longrightarrow> b = Map.empty"
  by (simp add: pool_ok_def mkeys_idle)

lemma fixNumRetries_key [simp]: "Owner (fixNumRetries m) = Owner m" "ID (fixNumRetries m) = ID m"
  by (simp_all add: fixNumRetries_def)

text \<open>A cycle starts.\<close>

lemma cycle_ok:
  assumes ok: "pool_ok d b s ts" and idle: "idle_monitor ts"
    and run: "run_state (serve_call d (C_GetByStatus None monitored_statuses None)) s = (r, s')"
  shows "\<exists>b'. pool_ok d b' s' (ts @ spawn (un_mtxs r)) \<and> view b' s' = view b s \<and> committed s' = committed s"
proof -
  let ?new = "spawn (un_mtxs r)"
  let ?b = "lookup (committed s) |` set (mkeys ?new)"
  have db: "db_part s' = db_part s"
    using preservesD [OF db_part_read run] by simp
  then have same: "committed s' = committed s" and pend: "pending_new d s'"
    using ok db_part_pending [OF db] by (auto simp: db_part_def pool_ok_def)
  have pk: "pkey (committed s)"
    using ok by (simp add: pool_ok_def)
  have "wp (serve_call d (C_GetByStatus None monitored_statuses None))
      (\<lambda>r s'. \<forall>ms. un_mtxs r = Inr ms \<longrightarrow> found_in (dp_geth d) (committed s) ms) s"
    unfolding serve_call.simps wp_replying the_etm_fields
    by (rule wp_mono [OF pg.by_status_found]) (simp add: un_mtxs_def)
  from wpD [OF this run] have found: "found_in (dp_geth d) (committed s) ms" if "un_mtxs r = Inr ms" for ms
    using that by simp
  have thread: "(\<exists>r0. lookup (committed s) (mtx_key m) = Some r0 \<and> read_from (dp_geth d) r0 m) \<and> rs = []"
    if "(Monitoring m, rs) \<in> set ?new" for m rs
  proof -
    from that obtain ms m0 where ms: "un_mtxs r = Inr ms" "m0 \<in> set ms" "m = fixNumRetries m0" "rs = []"
      by (cases "un_mtxs r") (auto simp: spawn_def)
    with found [OF ms(1)] obtain r0 where r0: "r0 \<in> set (committed s)" "scanMtx (dp_geth d) r0 = Inr m0"
      "Status m0 \<in> set monitored_statuses"
      by (auto simp: found_in_def)
    with lookup_pkey [OF pk r0(1)] scanMtx_fields(1) [OF r0(2)] ms show ?thesis
      by (auto simp: read_from_def fixNumRetries_def)
  qed
  have "distinct (mkeys ?new)"
    using found pk by (auto simp: spawn_def mkeys_spawn found_in_def split: sum.split)
  moreover have "set (mkeys ?new) \<subseteq> dom (lookup (committed s))"
  proof
    fix k assume "k \<in> set (mkeys ?new)"
    then obtain m rs where "(Monitoring m, rs) \<in> set ?new" "k = mtx_key m"
      by (cases "un_mtxs r") (force simp: spawn_def mkeys_spawn)+
    with thread show "k \<in> dom (lookup (committed s))" by blast
  qed
  moreover have "thread_ok d ?b s' m rs" if "(Monitoring m, rs) \<in> set (ts @ ?new)" for m rs
  proof -
    have "(Monitoring m, rs) \<in> set ?new"
      using that idle by (auto simp: idle_monitor_def list_all_iff)
    with thread mkeys_mem show ?thesis
      by (fastforce simp: thread_ok_def same)
  qed
  ultimately have "pool_ok d ?b s' (ts @ ?new)"
    using pk pend by (simp add: pool_ok_def mkeys_idle [OF idle] same Int_absorb1)
  moreover have "view ?b s' = view b s"
    using pool_ok_idle [OF ok idle]
    by (auto simp: view_def same map_add_def restrict_map_def fun_eq_iff split: option.split)
  ultimately show ?thesis
    using same by blast
qed

text \<open>A request arrives, or one of its calls is served.\<close>

lemma request_ok:
  "pool_ok d b s ts \<Longrightarrow> \<not> is_monitoring th \<Longrightarrow> pool_ok d b s (ts @ [(th, [])])"
  by (cases th) (auto simp: pool_ok_def)

lemma lookup_append: "lookup (t @ new) k = (case lookup t k of Some r \<Rightarrow> Some r | None \<Rightarrow> lookup new k)"
  by (induction t) (auto simp: lookup_def)

lemma request_call_ok:
  assumes ok: "pool_ok d b s (xs @ (th, rs) # ys)" and th: "\<not> is_monitoring th"
    and move: "next_move d th rs = Inl q" and run: "run_state (serve_call d q) s = (r, s')"
  shows "pool_ok d b s' (xs @ (th, rs @ [r]) # ys)" and "adds_new d s s'"
proof -
  have "request_call d q"
    using next_call_ok [OF move] th by (simp add: thread_call_def)
  with ok wpD [OF request_call_adds run] show adds: "adds_new d s s'"
    by (simp add: pool_ok_def)
  then obtain new where new: "committed s' = committed s @ new"
    by (auto simp: adds_new_def)
  have same: "lookup (committed s') (mtx_key m) = lookup (committed s) (mtx_key m)"
    if "thread_ok d b s m rs'" for m rs'
    using that by (auto simp: thread_ok_def new lookup_append)
  from ok adds th show "pool_ok d b s' (xs @ (th, rs @ [r]) # ys)"
    by (auto simp: pool_ok_def adds_new_def split: thread.split
        intro!: thread_ok_frame [OF _ same] elim: thread_ok_frame)
qed


text \<open>A monitoring thread makes a call: its own row follows its updates, the others stay.\<close>

lemma thread_ok_update:
  assumes m: "thread_ok d b s m rs" and move: "next_move d (Monitoring m) rs = Inl (C_Update m1 None)"
    and key: "mtx_key m1 = mtx_key m"
    and r: "committed s' = apply_write (Update (row_of (dp_geth d) ks 0 u m1)) (committed s)"
  shows "thread_ok d b s' m (rs @ [r])"
proof -
  let ?G = "dp_geth d" and ?l = "calls_of d (Monitoring m) rs"
  from m obtain r0 r1 \<Omega> where b: "b (mtx_key m) = Some r0" "read_from ?G r0 m"
    and l: "lookup (committed s) (mtx_key m) = Some r1" "rows_after ?G \<Omega> [r0] ?l = [r1]"
    by (auto simp: thread_ok_def)
  let ?r2 = "(row_of ?G ks 0 u m1)\<lparr>c_created_at := c_created_at r1\<rparr>"
  have "lookup (committed s') (mtx_key m) = Some ?r2"
    using l(1) key by (simp add: r lookup_update del: apply_write.simps)
  moreover have "rows_after ?G (\<Omega>(length ?l := Some (ks, u))) [r0] (calls_of d (Monitoring m) (rs @ [r])) = [?r2]"
    using l lookup_Some [OF l(1)] key by (simp add: next_call [OF move] rows_after_upd)
  ultimately show ?thesis
    using b unfolding thread_ok_def by blast
qed

lemma thread_ok_unchanged:
  assumes m: "thread_ok d b s m rs" and move: "next_move d (Monitoring m) rs = Inl q"
    and same: "committed s' = committed s"
    and q: "(\<forall>m1. q \<noteq> C_Update m1 None) \<or> (\<exists>e. un_err r = Some e)"
  shows "thread_ok d b s' m (rs @ [r])"
proof -
  let ?G = "dp_geth d" and ?l = "calls_of d (Monitoring m) rs"
  from m obtain r0 r1 \<Omega> where b: "b (mtx_key m) = Some r0" "read_from ?G r0 m"
    and l: "lookup (committed s) (mtx_key m) = Some r1" "rows_after ?G \<Omega> [r0] ?l = [r1]"
    by (auto simp: thread_ok_def)
  have "effect ?G None q r [r1] = [r1]"
    using q effect_other [of q ?G None r "[r1]"] by (cases "(?G, None :: (nat list \<times> nat) option, q, r, [r1])" rule: effect.cases) auto
  then have "rows_after ?G (\<Omega>(length ?l := None)) [r0] (calls_of d (Monitoring m) (rs @ [r])) = [r1]"
    using l by (simp add: next_call [OF move] rows_after_upd)
  with b l same show ?thesis
    unfolding thread_ok_def by auto
qed

lemma read_from_status: "read_from G r0 m \<Longrightarrow> Status m \<in> set monitored_statuses"
  by (auto simp: read_from_def)

lemma thread_ok_status: "thread_ok d b s m rs \<Longrightarrow> Status m \<in> set monitored_statuses"
  by (auto simp: thread_ok_def dest: read_from_status)

lemma pkey_update: "pkey t \<Longrightarrow> pkey (apply_write (Update u) t)"
  by (simp add: pkey_def del: apply_write.simps)

text \<open>The two outcomes of a monitoring thread's call.\<close>

lemma monitor_call_effect:
  assumes m: "thread_ok d b s m rs" and move: "next_move d (Monitoring m) rs = Inl q"
  shows "wp (serve_call d q) (\<lambda>r s'. thread_ok d b s' m (rs @ [r]) \<and> open_txs s' = open_txs s \<and>
    (committed s' = committed s \<or>
     (\<exists>u. row_key u = mtx_key m \<and> committed s' = apply_write (Update u) (committed s)))) s"
proof (cases "\<exists>m1 dt. q = C_Update m1 dt")
  case True
  then obtain m1 where q: "q = C_Update m1 None"
    using next_call_ok [OF move] by (auto simp: thread_call_def)
  have key: "mtx_key m1 = mtx_key m"
    using thread_updates_own [OF thread_ok_status [OF m]] move q by simp
  show ?thesis
    unfolding q
  proof (rule update_call, goal_cases)
    case (1 e s')
    then show ?case
      using thread_ok_unchanged [OF m move 1(1), of "R_err (Some e)"] by (simp add: un_err_def)
  next
    case (2 e ks u s')
    then show ?case
      using thread_ok_update [OF m move [unfolded q] key 2(1)] key
      by (metis row_key_row_of)
  qed
next
  case False
  then have "\<not> writing_call q"
    using next_call_ok [OF move] by (cases q) (auto simp: thread_call_def)
  then show ?thesis
    by (intro wp_preserves [OF db_part_read])
      (use False in \<open>auto simp: db_part_def intro!: thread_ok_unchanged [OF m move]\<close>)
qed

lemma monitor_call_ok:
  assumes ok: "pool_ok d b s (xs @ (Monitoring m, rs) # ys)"
    and move: "next_move d (Monitoring m) rs = Inl q" and run: "run_state (serve_call d q) s = (r, s')"
  shows "pool_ok d b s' (xs @ (Monitoring m, rs @ [r]) # ys)" and "view b s' = view b s"
    and "keys (committed s') = keys (committed s)"
proof -
  have m: "thread_ok d b s m rs"
    using ok by (simp add: pool_ok_def)
  from wpD [OF monitor_call_effect [OF m move] run]
  have m': "thread_ok d b s' m (rs @ [r])" and op: "open_txs s' = open_txs s"
    and tbl: "committed s' = committed s \<or>
      (\<exists>u. row_key u = mtx_key m \<and> committed s' = apply_write (Update u) (committed s))"
    by simp_all
  have other: "lookup (committed s') k = lookup (committed s) k" if "k \<noteq> mtx_key m" for k
    using tbl that by (auto simp: lookup_update simp del: apply_write.simps)
  have pk: "pkey (committed s')"
    using tbl pkey_update [of "committed s"] ok unfolding pool_ok_def by metis
  show "keys (committed s') = keys (committed s)"
    using tbl by (auto simp del: apply_write.simps)
  have "thread_ok d b s' m' rs'" if "(Monitoring m', rs') \<in> set (xs @ ys)" for m' rs'
    by (rule thread_ok_frame [OF pool_ok_thread [OF ok] other [OF pool_ok_other [OF ok that]]])
      (use that in auto)
  moreover have "pending_new d s'" and "distinct (mkeys (xs @ (Monitoring m, rs @ [r]) # ys))"
    and "dom b = set (mkeys (xs @ (Monitoring m, rs @ [r]) # ys))"
    using ok op by (simp_all add: pool_ok_def pending_new_def)
  ultimately show "pool_ok d b s' (xs @ (Monitoring m, rs @ [r]) # ys)"
    using m' pk unfolding pool_ok_def by auto
  have "mtx_key m \<in> dom b"
    using ok by (simp add: pool_ok_def)
  then obtain r0 where "b (mtx_key m) = Some r0" by blast
  then show "view b s' = view b s"
    using other by (intro ext) (metis view_def map_add_find_right map_add_def)
qed

text \<open>A thread ends; the row of a monitoring thread is the one its updates have made.\<close>

lemma request_end_ok:
  "pool_ok d b s (xs @ (th, rs) # ys) \<Longrightarrow> \<not> is_monitoring th \<Longrightarrow> pool_ok d b s (xs @ ys)"
  by (cases th) (auto simp: pool_ok_def)

lemma monitor_end_ok:
  assumes ok: "pool_ok d b s (xs @ (Monitoring m, rs) # ys)"
  shows "pool_ok d (b(mtx_key m := None)) s (xs @ ys)"
    and "view (b(mtx_key m := None)) s = (view b s)(mtx_key m := lookup (committed s) (mtx_key m))"
proof -
  have "thread_ok d (b(mtx_key m := None)) s m' rs'" if "(Monitoring m', rs') \<in> set (xs @ ys)" for m' rs'
    by (rule thread_ok_frame [OF pool_ok_thread [OF ok], where s' = s])
      (use that pool_ok_other [OF ok that] in auto)
  moreover have "mtx_key m \<notin> set (mkeys xs) \<union> set (mkeys ys)" and "distinct (mkeys (xs @ ys))"
    and "dom b = insert (mtx_key m) (set (mkeys (xs @ ys)))" and "pkey (committed s)" and "pending_new d s"
    using ok by (auto simp: pool_ok_def)
  ultimately show "pool_ok d (b(mtx_key m := None)) s (xs @ ys)"
    by (simp add: pool_ok_def)
  show "view (b(mtx_key m := None)) s = (view b s)(mtx_key m := lookup (committed s) (mtx_key m))"
    by (rule ext) (simp add: view_def map_add_def)
qed

end
