(* ===== verification/Concurrency.thy ===== *)
theory Concurrency
  imports Interleaving
begin

text \<open>
  What holds in every state that the interleaved process reaches. The locale \<open>observed\<close> adds to a
  deployment what has been sent and what the network has reported, and shows the three invariants:
  the table only grows and evolves, every hash sent is recorded, every new confirmation has its
  receipt. It is interpreted on the deployment with the ghost log, and, for the table alone, on
  any deployment.
\<close>

section \<open>The invariant\<close>

definition pool_sent :: "'w deployment \<Rightarrow> pool \<Rightarrow> hash set" where
  "pool_sent d ts = (\<Union>(th, rs) \<in> set ts. calls_sent (dp_geth d) (calls_of d th rs))"

definition pool_seen :: "'w deployment \<Rightarrow> pool \<Rightarrow> event set" where
  "pool_seen d ts = (\<Union>(th, rs) \<in> set ts. calls_seen (calls_of d th rs))"

definition hashes_of :: "geth \<Rightarrow> ('k \<rightharpoonup> row) \<Rightarrow> hash set" where
  "hashes_of G v = (\<Union>r \<in> ran v. row_hashes G r)"

definition justified :: "geth \<Rightarrow> row list \<Rightarrow> event set \<Rightarrow> (string \<times> string \<rightharpoonup> row) \<Rightarrow> bool" where
  "justified G t0 L v \<longleftrightarrow>
     (\<forall>k r. v k = Some r \<longrightarrow> c_status r = MonitoredTxStatusConfirmed \<longrightarrow>
        lookup t0 k = Some r \<or> backing L (row_hashes G r) (c_block_num r))"

definition evolved :: "geth \<Rightarrow> row list \<Rightarrow> (string \<times> string \<rightharpoonup> row) \<Rightarrow> bool" where
  "evolved G t0 v \<longleftrightarrow>
     (\<forall>k r0. lookup t0 k = Some r0 \<longrightarrow> (\<exists>r. v k = Some r \<and> row_evolves G r0 r)) \<and>
     (live t0 \<longrightarrow> (\<forall>r \<in> ran v. c_status r \<in> live_statuses))"

definition originated :: "'w deployment \<Rightarrow> row list \<Rightarrow> (string \<times> string \<rightharpoonup> row) \<Rightarrow> bool" where
  "originated d t0 v \<longleftrightarrow>
     (\<forall>k r. v k = Some r \<longrightarrow> lookup t0 k = None \<longrightarrow>
        (\<exists>r0. new_row d r0 \<and> row_evolves (dp_geth d) r0 r))"

definition process_inv ::
    "'w deployment \<Rightarrow> row list \<Rightarrow> hash set \<Rightarrow> event set \<Rightarrow> (string \<times> string \<rightharpoonup> row) \<Rightarrow> 'w sys \<Rightarrow> pool \<Rightarrow> bool" where
  "process_inv d t0 X L b s ts \<longleftrightarrow>
     pool_ok d b s ts \<and> (\<exists>new. keys (committed s) = keys t0 @ new) \<and>
     evolved (dp_geth d) t0 (view b s) \<and> originated d t0 (view b s) \<and>
     X \<subseteq> hashes_of (dp_geth d) (view b s) \<union> pool_sent d ts \<and>
     justified (dp_geth d) t0 L (view b s) \<and> pool_seen d ts \<subseteq> L"

lemma pool_sent_mid:
  "pool_sent d (xs @ (th, rs) # ys) = calls_sent (dp_geth d) (calls_of d th rs) \<union> pool_sent d (xs @ ys)"
  "pool_seen d (xs @ (th, rs) # ys) = calls_seen (calls_of d th rs) \<union> pool_seen d (xs @ ys)"
  by (auto simp: pool_sent_def pool_seen_def)

lemma calls_Cons [simp]:
  "calls_sent G ((q, r) # l) = sent_by G q \<union> calls_sent G l"
  "calls_seen ((q, r) # l) = seen_by q r \<union> calls_seen l"
  by (simp_all add: calls_sent_def calls_seen_def)

lemma pool_fresh:
  "(\<And>th rs. (th, rs) \<in> set new \<Longrightarrow> rs = []) \<Longrightarrow> pool_sent d (ts @ new) = pool_sent d ts"
  "(\<And>th rs. (th, rs) \<in> set new \<Longrightarrow> rs = []) \<Longrightarrow> pool_seen d (ts @ new) = pool_seen d ts"
  by (fastforce simp: pool_sent_def pool_seen_def)+

lemma spawn_fresh: "(th, rs) \<in> set (spawn r) \<Longrightarrow> rs = []"
  by (auto simp: spawn_def split: sum.splits)

lemma pool_arrival:
  "pool_sent d (ts @ [(th, [])]) = pool_sent d ts" "pool_seen d (ts @ [(th, [])]) = pool_seen d ts"
  by (simp_all add: pool_sent_def pool_seen_def)

lemma hashes_ofI: "v k = Some r \<Longrightarrow> row_hashes G r \<subseteq> hashes_of G v"
  by (auto simp: hashes_of_def ran_def)

lemma mkeys_thread: "k \<in> set (mkeys ts) \<Longrightarrow> \<exists>m rs. (Monitoring m, rs) \<in> set ts \<and> k = mtx_key m"
  by (induction ts rule: mkeys.induct) (fastforce split: thread.splits)+

text \<open>A request sends nothing.\<close>

lemma request_sent:
  assumes "\<not> is_monitoring th"
  shows "calls_sent G (calls_of d th rs) = {}"
proof -
  have "strays (thread_call d th) (snd (run_state (body d th) (blank rs))) = {}"
    using body_calls [of d th] by (simp add: preserves_def strays_def blank_def)
  then have "request_call d q" if "(q, r) \<in> set (calls_of d th rs)" for q r
    using that assms by (force simp: strays_def calls_of_def thread_call_def)
  moreover have "sent_by G q = {}" if "request_call d q" for q
    using that by (cases q) simp_all
  ultimately show ?thesis
    by (auto simp: calls_sent_def)
qed

lemma justified_mono: "justified G t0 L v \<Longrightarrow> L \<subseteq> L' \<Longrightarrow> justified G t0 L' v"
  unfolding justified_def using backing_mono by blast

text \<open>New rows.\<close>

lemma view_adds:
  assumes "committed s' = committed s @ new"
  shows "view b s' k = (case view b s k of Some r \<Rightarrow> Some r | None \<Rightarrow> lookup new k)"
  by (simp add: view_def map_add_def assms lookup_append split: option.split)

lemma view_adds_new:
  assumes "committed s' = committed s @ new" and "\<forall>r \<in> set new. new_row d r"
    and "view b s' k = Some r"
  shows "view b s k = Some r \<or> new_row d r"
  using assms(2,3) view_adds [OF assms(1), of b k] by (auto split: option.splits dest: lookup_Some)

lemma new_row_status:
  "new_row d r \<Longrightarrow> c_status r \<in> live_statuses" "new_row d r \<Longrightarrow> c_status r \<noteq> MonitoredTxStatusConfirmed"
  by (auto dest: new_row_created simp: live_statuses_def status_defs)

lemma inv_adds:
  assumes s': "committed s' = committed s @ new" and rows: "\<forall>r \<in> set new. new_row d r"
  shows "evolved G t0 (view b s) \<Longrightarrow> evolved G t0 (view b s')"
    and "hashes_of G (view b s) \<subseteq> hashes_of G (view b s')"
    and "justified G t0 L (view b s) \<Longrightarrow> justified G t0 L (view b s')"
    and "originated d t0 (view b s) \<Longrightarrow> originated d t0 (view b s')"
proof -
  have keep: "view b s' k = Some r" if "view b s k = Some r" for k r
    using view_adds [OF s', of b k] that by simp
  note only = view_adds_new [OF s' rows, of b]
  show "hashes_of G (view b s) \<subseteq> hashes_of G (view b s')"
    using keep by (fastforce simp: hashes_of_def ran_def)
  show "evolved G t0 (view b s')" if "evolved G t0 (view b s)"
    using that keep only new_row_status(1) unfolding evolved_def ran_def by blast
  show "justified G t0 L (view b s')" if "justified G t0 L (view b s)"
    using that only new_row_status(2) unfolding justified_def by blast
  show "originated d t0 (view b s')" if "originated d t0 (view b s)"
    using that only row_evolves_refl unfolding originated_def by blast
qed

text \<open>A monitoring thread that ends hands its row over.\<close>

lemma thread_result:
  assumes G: "geth_ok (dp_geth d)" and m: "thread_ok d b s m rs"
  shows "\<exists>r0 r. b (mtx_key m) = Some r0 \<and> lookup (committed s) (mtx_key m) = Some r \<and>
    row_evolves (dp_geth d) r0 r \<and>
    calls_sent (dp_geth d) (calls_of d (Monitoring m) rs) \<subseteq> row_hashes (dp_geth d) r \<and>
    (c_status r = MonitoredTxStatusConfirmed \<longrightarrow>
       backing (calls_seen (calls_of d (Monitoring m) rs)) (row_hashes (dp_geth d) r) (c_block_num r))"
proof -
  let ?G = "dp_geth d" and ?l = "calls_of d (Monitoring m) rs"
  from m obtain r0 r \<Omega> where b: "b (mtx_key m) = Some r0" and read: "read_from ?G r0 m"
    and l: "lookup (committed s) (mtx_key m) = Some r" "rows_after ?G \<Omega> [r0] ?l = [r]"
    by (auto simp: thread_ok_def)
  note key = read_from_key [OF read]
  have "lookup [r0] (mtx_key m) = Some r0"
    using key by (simp add: lookup_def)
  with thread_rows_evolve [OF G read, of \<Omega> rs] l obtain r' where "lookup [r] (mtx_key m) = Some r'"
    and "row_evolves ?G r0 r'"
    unfolding rows_evolve_def by auto
  then have "row_evolves ?G r0 r"
    by (auto dest!: lookup_Some)
  with thread_sent_recorded [OF G read, of rs \<Omega>] thread_backed [OF G read, of rs \<Omega>] b l show ?thesis
    by (simp add: recorded_def backed_def)
qed

lemma inv_ends:
  assumes r0: "view b s k = Some r0" and ev: "row_evolves G r0 r"
  shows "evolved G t0 (view b s) \<Longrightarrow> evolved G t0 ((view b s)(k := Some r))"
    and "hashes_of G (view b s) \<union> row_hashes G r \<subseteq> hashes_of G ((view b s)(k := Some r))"
    and "G = dp_geth d \<Longrightarrow> originated d t0 (view b s) \<Longrightarrow> originated d t0 ((view b s)(k := Some r))"
proof -
  show "evolved G t0 ((view b s)(k := Some r))" if "evolved G t0 (view b s)"
  proof -
    have "c_status r \<in> live_statuses" if "live t0"
      using \<open>evolved G t0 (view b s)\<close> that r0 ev
      by (auto simp: evolved_def ran_def row_evolves_def intro: status_reach_live)
    moreover have "\<exists>r2. ((view b s)(k := Some r)) k' = Some r2 \<and> row_evolves G r1 r2"
      if "lookup t0 k' = Some r1" for k' r1
      using \<open>evolved G t0 (view b s)\<close> that r0 ev row_evolves_trans
      unfolding evolved_def by (cases "k' = k") fastforce+
    ultimately show ?thesis
      using that unfolding evolved_def ran_def by (auto split: if_splits)
  qed
  have "row_hashes G r0 \<subseteq> row_hashes G r"
    using ev by (simp add: row_evolves_def row_hashes_def)
  moreover have own: "row_hashes G r \<subseteq> hashes_of G ((view b s)(k := Some r))"
    by (rule hashes_ofI [of _ k]) simp
  ultimately have "row_hashes G r' \<subseteq> hashes_of G ((view b s)(k := Some r))"
    if "view b s k' = Some r'" for k' r'
    using that r0 hashes_ofI [of "(view b s)(k := Some r)" k' r' G] by (cases "k' = k") auto
  with own show "hashes_of G (view b s) \<union> row_hashes G r \<subseteq> hashes_of G ((view b s)(k := Some r))"
    unfolding hashes_of_def [of G "view b s"] ran_def by blast
  show "originated d t0 ((view b s)(k := Some r))" if "G = dp_geth d" and "originated d t0 (view b s)"
    using that r0 ev row_evolves_trans unfolding originated_def by (metis fun_upd_apply option.inject)
qed

section \<open>Observed deployments\<close>

locale observed =
  fixes d :: "'w deployment"
    and sent :: "'w sys \<Rightarrow> hash set"
    and seen :: "'w sys \<Rightarrow> event set"
  assumes sent_call: "run_state (serve_call d q) s = (r, s') \<Longrightarrow> sent s' \<subseteq> sent s \<union> sent_by (dp_geth d) q"
    and seen_call: "run_state (serve_call d q) s = (r, s') \<Longrightarrow> seen s \<union> seen_by q r \<subseteq> seen s'"
begin

abbreviation inv :: "row list \<Rightarrow> (string \<times> string \<rightharpoonup> row) \<Rightarrow> 'w sys \<Rightarrow> pool \<Rightarrow> bool" where
  "inv t0 b s ts \<equiv> process_inv d t0 (sent s) (seen s) b s ts"

lemma inv_cycle:
  assumes "inv t0 b s ts" and "idle_monitor ts"
    and run: "run_state (serve_call d (C_GetByStatus None monitored_statuses None)) s = (r, s')"
  shows "\<exists>b'. inv t0 b' s' (ts @ spawn (un_mtxs r))"
proof -
  have "pool_ok d b s ts"
    using assms(1) by (simp add: process_inv_def)
  from cycle_ok [OF this assms(2) run] obtain b' where ok: "pool_ok d b' s' (ts @ spawn (un_mtxs r))"
    and v: "view b' s' = view b s" and t: "committed s' = committed s"
    by blast
  have "sent s' \<subseteq> sent s" and "seen s \<subseteq> seen s'"
    using sent_call [OF run] seen_call [OF run] by simp_all
  with ok v t assms(1) have "inv t0 b' s' (ts @ spawn (un_mtxs r))"
    by (auto simp: process_inv_def pool_fresh spawn_fresh intro: justified_mono)
  then show ?thesis by blast
qed

lemma inv_request: "inv t0 b s ts \<Longrightarrow> \<not> is_monitoring th \<Longrightarrow> inv t0 b s (ts @ [(th, [])])"
  by (simp add: process_inv_def request_ok pool_arrival)

lemma inv_call:
  assumes inv: "inv t0 b s (xs @ (th, rs) # ys)" and move: "next_move d th rs = Inl q"
    and run: "run_state (serve_call d q) s = (r, s')"
  shows "inv t0 b s' (xs @ (th, rs @ [r]) # ys)"
proof -
  let ?ts = "xs @ (th, rs) # ys" and ?ts' = "xs @ (th, rs @ [r]) # ys"
  from inv have ok: "pool_ok d b s ?ts" and ev: "evolved (dp_geth d) t0 (view b s)"
    and O: "originated d t0 (view b s)"
    and X: "sent s \<subseteq> hashes_of (dp_geth d) (view b s) \<union> pool_sent d ?ts"
    and J: "justified (dp_geth d) t0 (seen s) (view b s)" and L: "pool_seen d ?ts \<subseteq> seen s"
    by (simp_all add: process_inv_def)
  from inv obtain old where old: "keys (committed s) = keys t0 @ old"
    by (auto simp: process_inv_def)
  note log = sent_call [OF run] seen_call [OF run]
  have pools: "pool_sent d ?ts' = sent_by (dp_geth d) q \<union> pool_sent d ?ts"
    "pool_seen d ?ts' = seen_by q r \<union> pool_seen d ?ts"
    by (simp_all add: pool_sent_mid next_call [OF move] Un_assoc)
  have J': "justified (dp_geth d) t0 (seen s') (view b s)"
    by (rule justified_mono [OF J]) (use log in blast)
  show ?thesis
  proof (cases "is_monitoring th")
    case True
    then obtain m where Monitoring: "th = Monitoring m"
      by (cases th) simp_all
    note mon = monitor_call_ok [OF ok [unfolded Monitoring] move [unfolded Monitoring] run, folded Monitoring]
    show ?thesis
      unfolding process_inv_def mon(2,3) pools
      using mon(1) old ev O X J' L log by blast
  next
    case False
    note req = request_call_ok [OF ok False move run]
    from req(2) obtain new where new: "committed s' = committed s @ new" "\<forall>r \<in> set new. new_row d r"
      by (auto simp: adds_new_def)
    note adds = inv_adds [OF new, where b = b]
    have "keys (committed s') = keys t0 @ (old @ keys new)"
      using old by (simp add: new keys_def)
    with req(1) adds(1) [OF ev] adds(2) adds(3) [OF J'] adds(4) [OF O] X L log show ?thesis
      unfolding process_inv_def pools by blast
  qed
qed

lemma inv_finish:
  assumes G: "geth_ok (dp_geth d)" and inv: "inv t0 b s (xs @ (th, rs) # ys)"
  shows "\<exists>b'. inv t0 b' s (xs @ ys)"
proof (cases "is_monitoring th")
  case False
  with inv have "inv t0 b s (xs @ ys)"
    by (auto simp: process_inv_def pool_sent_mid request_sent intro: request_end_ok)
  then show ?thesis by blast
next
  case True
  then obtain m where th: "th = Monitoring m"
    by (cases th) simp_all
  let ?G = "dp_geth d" and ?l = "calls_of d (Monitoring m) rs" and ?ts = "xs @ (Monitoring m, rs) # ys"
  from inv have ok: "pool_ok d b s ?ts" and ev: "evolved (dp_geth d) t0 (view b s)"
    and O: "originated d t0 (view b s)"
    and X: "sent s \<subseteq> hashes_of ?G (view b s) \<union> (calls_sent ?G ?l \<union> pool_sent d (xs @ ys))"
    and J: "justified ?G t0 (seen s) (view b s)"
    and L: "calls_seen ?l \<subseteq> seen s" "pool_seen d (xs @ ys) \<subseteq> seen s"
    and keys: "\<exists>new. keys (committed s) = keys t0 @ new"
    by (simp_all add: process_inv_def th pool_sent_mid)
  have "thread_ok d b s m rs"
    by (rule pool_ok_thread [OF ok]) simp
  from thread_result [OF G this] obtain r0 r where b: "b (mtx_key m) = Some r0"
    and r: "lookup (committed s) (mtx_key m) = Some r" and re: "row_evolves ?G r0 r"
    and sr: "calls_sent ?G ?l \<subseteq> row_hashes ?G r"
    and bk: "c_status r = MonitoredTxStatusConfirmed \<Longrightarrow> backing (calls_seen ?l) (row_hashes ?G r) (c_block_num r)"
    by blast
  have "view b s (mtx_key m) = Some r0"
    using b by (simp add: view_def)
  note ends = inv_ends [OF this re]
  have "justified ?G t0 (seen s) ((view b s)(mtx_key m := Some r))"
    using J bk L(1) backing_mono unfolding justified_def by (metis fun_upd_apply option.inject subset_refl)
  then have "inv t0 (b(mtx_key m := None)) s (xs @ ys)"
    unfolding process_inv_def monitor_end_ok(2) [OF ok] r
    using monitor_end_ok(1) [OF ok] keys ends(1) [OF ev] ends(2) ends(3) [OF refl O] X sr L(2) by blast
  then show ?thesis by blast
qed

text \<open>Along every interleaving.\<close>

lemma inv_step:
  assumes "geth_ok (dp_geth d)" and "step d p p'" and "\<exists>b. inv t0 b (fst p) (snd p)"
  shows "\<exists>b. inv t0 b (fst p') (snd p')"
  using assms(2,3)
proof (cases rule: step.cases)
  case (cycle ts s r s')
  with assms(3) inv_cycle show ?thesis by fastforce
next
  case (request th s ts)
  with assms(3) inv_request show ?thesis by fastforce
next
  case (call th rs q s r s' xs ys)
  with assms(3) inv_call show ?thesis by fastforce
next
  case (finish th rs x s xs ys)
  with assms(3) inv_finish [OF assms(1)] show ?thesis by fastforce
qed

lemma inv_reached:
  assumes "geth_ok (dp_geth d)" and "(step d)\<^sup>*\<^sup>* p p'" and "\<exists>b. inv t0 b (fst p) (snd p)"
  shows "\<exists>b. inv t0 b (fst p') (snd p')"
  using assms(2,3) by (induction rule: rtranclp_induct) (auto dest: inv_step [OF assms(1)])

lemma inv_start:
  assumes "pkey (committed s)" and "pending_new d s" and "sent s \<subseteq> recorded (dp_geth d) (committed s)"
  shows "inv (committed s) Map.empty s []"
proof -
  have "evolved (dp_geth d) (committed s) (lookup (committed s))"
    by (auto simp: evolved_def live_def ran_def dest!: lookup_Some)
  moreover have "recorded (dp_geth d) (committed s) \<subseteq> hashes_of (dp_geth d) (lookup (committed s))"
    using lookup_pkey [OF assms(1)] by (fastforce simp: recorded_def hashes_of_def ran_def)
  ultimately show ?thesis
    using assms by (auto simp: process_inv_def pool_ok_def view_def justified_def originated_def pool_sent_def pool_seen_def)
qed

lemma inv_run:
  assumes "geth_ok (dp_geth d)" and "pkey (committed s)" and "open_txs s = Map.empty"
    and "sent s \<subseteq> recorded (dp_geth d) (committed s)" and "(step d)\<^sup>*\<^sup>* (s, []) (s', ts)"
  shows "\<exists>b. inv (committed s) b s' ts"
proof -
  have "inv (committed s) Map.empty s []"
    by (rule inv_start) (use assms in \<open>simp_all add: pending_new_def\<close>)
  then show ?thesis
    using inv_reached [OF assms(1,5), of "committed s"] by auto
qed

text \<open>The table that is read in a reached state.\<close>

lemma current_row:
  assumes G: "geth_ok (dp_geth d)" and ok: "pool_ok d b s ts"
  shows "view b s k = Some r0 \<Longrightarrow> \<exists>r. lookup (committed s) k = Some r \<and> row_evolves (dp_geth d) r0 r"
    and "lookup (committed s) k = Some r \<Longrightarrow> \<exists>r0. view b s k = Some r0 \<and> row_evolves (dp_geth d) r0 r"
proof -
  have live: "\<exists>r0 r. b k = Some r0 \<and> lookup (committed s) k = Some r \<and> row_evolves (dp_geth d) r0 r"
    if "k \<in> dom b"
  proof -
    from that ok obtain m rs where "(Monitoring m, rs) \<in> set ts" and "k = mtx_key m"
      using mkeys_thread unfolding pool_ok_def by metis
    with pool_ok_thread [OF ok] have "thread_ok d b s m rs" and "k = mtx_key m"
      by simp_all
    with thread_result [OF G] show ?thesis by blast
  qed
  have dead: "view b s k = lookup (committed s) k" if "k \<notin> dom b"
    using that by (simp add: view_def map_add_dom_app_simps)
  have over: "view b s k = b k" if "k \<in> dom b"
    using that by (simp add: view_def map_add_dom_app_simps)
  show "\<exists>r. lookup (committed s) k = Some r \<and> row_evolves (dp_geth d) r0 r" if "view b s k = Some r0"
    using live dead over that row_evolves_refl by (cases "k \<in> dom b") fastforce+
  show "\<exists>r0. view b s k = Some r0 \<and> row_evolves (dp_geth d) r0 r" if "lookup (committed s) k = Some r"
    using live dead over that row_evolves_refl by (cases "k \<in> dom b") fastforce+
qed

lemma recorded_now:
  assumes G: "geth_ok (dp_geth d)" and inv: "inv t0 b s ts"
  shows "sent s \<subseteq> recorded (dp_geth d) (committed s)"
proof -
  have ok: "pool_ok d b s ts"
    and X: "sent s \<subseteq> hashes_of (dp_geth d) (view b s) \<union> pool_sent d ts"
    using inv by (simp_all add: process_inv_def)
  have in_table: "row_hashes (dp_geth d) r \<subseteq> recorded (dp_geth d) (committed s)"
    if "lookup (committed s) k = Some r" for k r
    using lookup_Some [OF that] by (auto simp: recorded_def)
  have "row_hashes (dp_geth d) r0 \<subseteq> recorded (dp_geth d) (committed s)" if "view b s k = Some r0" for k r0
    using current_row(1) [OF G ok that] in_table by (fastforce simp: row_evolves_def row_hashes_def)
  then have "hashes_of (dp_geth d) (view b s) \<subseteq> recorded (dp_geth d) (committed s)"
    unfolding hashes_of_def ran_def by blast
  moreover have "calls_sent (dp_geth d) (calls_of d th rs) \<subseteq> recorded (dp_geth d) (committed s)"
    if "(th, rs) \<in> set ts" for th rs
  proof (cases th)
    case (Monitoring m)
    with that thread_result [OF G pool_ok_thread [OF ok]] in_table show ?thesis by blast
  qed (simp_all add: request_sent)
  then have "pool_sent d ts \<subseteq> recorded (dp_geth d) (committed s)"
    unfolding pool_sent_def by blast
  ultimately show ?thesis
    using X by blast
qed

lemma grown_now:
  assumes G: "geth_ok (dp_geth d)" and inv: "inv t0 b s ts"
  shows "pkey (committed s) \<and> table_grows (dp_geth d) t0 (committed s)"
proof -
  have ok: "pool_ok d b s ts" and ev: "evolved (dp_geth d) t0 (view b s)"
    and keys: "\<exists>new. keys (committed s) = keys t0 @ new"
    using inv by (simp_all add: process_inv_def)
  have pk: "pkey (committed s)"
    using ok by (simp add: pool_ok_def)
  have "\<exists>r. lookup (committed s) k = Some r \<and> row_evolves (dp_geth d) r0 r" if "lookup t0 k = Some r0" for k r0
    using ev that current_row(1) [OF G ok] row_evolves_trans unfolding evolved_def by metis
  moreover have "live (committed s)" if "live t0"
    unfolding live_def
  proof
    fix r assume "r \<in> set (committed s)"
    from current_row(2) [OF G ok lookup_pkey [OF pk this]] obtain r0
      where "view b s (row_key r) = Some r0" and "row_evolves (dp_geth d) r0 r" by blast
    with ev that show "c_status r \<in> live_statuses"
      by (auto simp: evolved_def ran_def row_evolves_def intro: status_reach_live)
  qed
  ultimately show ?thesis
    using pk keys by (simp add: table_grows_def)
qed

lemma originated_now:
  assumes G: "geth_ok (dp_geth d)" and inv: "inv t0 b s ts"
    and r: "r \<in> set (committed s)" and key: "row_key r \<notin> set (keys t0)"
  shows "\<exists>r0. new_row d r0 \<and> row_evolves (dp_geth d) r0 r"
proof -
  have ok: "pool_ok d b s ts" and O: "originated d t0 (view b s)"
    using inv by (simp_all add: process_inv_def)
  from ok lookup_pkey [OF _ r] have "lookup (committed s) (row_key r) = Some r"
    by (simp add: pool_ok_def)
  from current_row(2) [OF G ok this] obtain r1
    where "view b s (row_key r) = Some r1" and r1: "row_evolves (dp_geth d) r1 r" by blast
  moreover have "lookup t0 (row_key r) = None"
    using key by (simp add: lookup_None)
  ultimately obtain r0 where "new_row d r0" and "row_evolves (dp_geth d) r0 r1"
    using O unfolding originated_def by blast
  with r1 row_evolves_trans show ?thesis by blast
qed

lemma confirmed_now:
  assumes G: "geth_ok (dp_geth d)" and inv: "inv t0 b s ts"
    and r: "r \<in> set (committed s)" and st: "c_status r = MonitoredTxStatusConfirmed"
  shows "r \<in> set t0 \<or> backing (seen s) (row_hashes (dp_geth d) r) (c_block_num r)"
proof (cases "row_key r \<in> dom b")
  case True
  have ok: "pool_ok d b s ts" and L: "pool_seen d ts \<subseteq> seen s"
    using inv by (simp_all add: process_inv_def)
  from True ok obtain m rs where m: "(Monitoring m, rs) \<in> set ts" "row_key r = mtx_key m"
    using mkeys_thread unfolding pool_ok_def by metis
  have "lookup (committed s) (mtx_key m) = Some r"
    using ok lookup_pkey [OF _ r] m(2) by (simp add: pool_ok_def)
  with thread_result [OF G pool_ok_thread [OF ok m(1)]] st
  have "backing (calls_seen (calls_of d (Monitoring m) rs)) (row_hashes (dp_geth d) r) (c_block_num r)"
    by auto
  moreover have "calls_seen (calls_of d (Monitoring m) rs) \<subseteq> seen s"
    using m(1) L unfolding pool_seen_def by blast
  ultimately show ?thesis
    using backing_mono by blast
next
  case False
  have "pkey (committed s)" and J: "justified (dp_geth d) t0 (seen s) (view b s)"
    using inv by (simp_all add: process_inv_def pool_ok_def)
  with False lookup_pkey [OF _ r] have "view b s (row_key r) = Some r"
    by (simp add: view_def map_add_dom_app_simps)
  with J st show ?thesis
    unfolding justified_def by (blast dest: lookup_Some)
qed

end

section \<open>The ghost log observes\<close>

lemma sent_serve_call:
  assumes "\<nexists>t. q = C_SendTx t"
  shows "preserves sent_of (serve_call (log_deployment d) q)"
  using assms
  by (cases q)
    (simp_all add: preserves_replying the_etm_def log_deployment_def sent_etherman sent_runtime
      sent_storage [simplified] sent_tx_control [simplified],
     simp_all add: preserves_replying lift_IEtherman_def log_IEtherman_def lift_runtime_def
      log_runtime_def sent_noting sent_quiet)

lemma seen_serve_call:
  "wp (serve_call (log_deployment d) q) (\<lambda>r s'. seen_of s \<union> seen_by q r \<subseteq> seen_of s') s"
proof (cases "\<exists>h dt. q = C_GetTxReceipt h \<or> q = C_CheckTxWasMined h \<or> q = C_State_GetLastBlock dt \<or> q = C_GetLastBlock dt")
  case True
  then show ?thesis
    by (auto simp: the_etm_def log_deployment_def lift_IEtherman_def log_IEtherman_def StateInterface_of_def
        wp_replying un_receipt_def un_mined_def un_block_def intro!: wp_mono [OF wp_noting])
next
  case False
  have "grows seen_of (serve_call (log_deployment d) q)"
    using False
    by (cases q)
      (simp_all add: replying_def the_etm_def log_deployment_def grows_bind grows_ret grows_services
        grows_db [simplified] grows_SendTx lift_IEtherman_def [of "log_IEtherman _ _"]
        lift_runtime_def [of "log_runtime _"] seen_runtime [THEN preserves_grows],
       simp_all add: log_IEtherman_def log_runtime_def seen_quiet [THEN preserves_grows] grows_bind grows_ret)
  moreover have "seen_by q r = {}" for r
    using False by (cases q) simp_all
  ultimately show ?thesis
    by (simp add: grows_def wp_run)
qed


interpretation logged: observed "log_deployment d" sent_of seen_of
  for d :: "'w deployment"
proof
  fix q s r s'
  assume run: "run_state (serve_call (log_deployment d) q) s = (r, s')"
  show "seen_of s \<union> seen_by q r \<subseteq> seen_of s'"
    by (rule wpD [OF seen_serve_call run])
  show "sent_of s' \<subseteq> sent_of s \<union> sent_by (dp_geth (log_deployment d)) q"
  proof (cases "\<exists>t. q = C_SendTx t")
    case True
    then obtain t where q: "q = C_SendTx t" ..
    have "wp (serve_call (log_deployment d) q) (\<lambda>r s'. sent_of s' \<subseteq> insert (tx_Hash (dp_geth d) t) (sent_of s)) s"
      unfolding q serve_call.simps wp_replying the_etm_fields log_deployment_def deployment.simps
      by (rule wp_logged_SendTx) simp
    from wpD [OF this run] q show ?thesis by simp
  next
    case False
    from preservesD [OF sent_serve_call [OF False] run] show ?thesis by simp
  qed
qed

text \<open>The reports of the network alone.\<close>

interpretation reported: observed "log_deployment d" "\<lambda>s. {}" seen_of
  for d :: "'w deployment"
  by unfold_locales (auto intro: wpD [OF seen_serve_call, THEN subsetD])

text \<open>Nothing is observed: the invariant of the table, for any deployment.\<close>

interpretation unlogged: observed d "\<lambda>s. {}" "\<lambda>s. UNIV"
  for d :: "'w deployment"
  by unfold_locales auto

end
