(* ===== verification/Scheduling.thy ===== *)
theory Scheduling
  imports Interleaving
begin

text \<open>
  How the threads are scheduled. A thread that is scheduled alone does what its code does when it is
  run in one piece: \<open>sim\<close> relates a program on the tape to the same program on the services. The
  transition relation as a function of the schedule is \<open>schedule\<close>. And a monitoring thread, like one
  that serves \<open>SendTx\<close>, makes a bounded number of calls, so that \<open>wg.Wait\<close> waits for no goroutine
  whose calls return.
\<close>

section \<open>Threads and the code they run\<close>

fun served :: "'w deployment \<Rightarrow> 'w sys \<Rightarrow> (call \<times> reply) list \<Rightarrow> 'w sys \<Rightarrow> bool" where
  "served d s [] s' = (s' = s)"
| "served d s ((q, r) # l) s' = (\<exists>s1. run_state (serve_call d q) s = (r, s1) \<and> served d s1 l s')"

lemma served_append: "served d s (l @ l') s' = (\<exists>s1. served d s l s1 \<and> served d s1 l' s')"
proof (induction l arbitrary: s)
  case (Cons p l)
  obtain q r where "p = (q, r)" by (cases p)
  then show ?case
    by (simp add: Cons) blast
qed simp

definition sim :: "'w deployment \<Rightarrow> (tape, 'a) state \<Rightarrow> ('w sys, 'a) state \<Rightarrow> bool" where
  "sim d mt ms \<longleftrightarrow>
     (\<forall>s x s'. run_state ms s = (x, s') \<longrightarrow>
        (\<exists>l. served d s l s' \<and>
          (\<forall>rs cs. run_state mt \<lparr>replies = map snd l @ rs, calls = cs, waiting = None\<rparr> =
             (x, \<lparr>replies = rs, calls = rev l @ cs, waiting = None\<rparr>))))"

named_theorems sim_intros

lemma sim_ret [sim_intros]: "sim d (ret x) (ret x)"
  by (auto simp: sim_def intro!: exI [of _ "[]"])

lemma sim_bind [sim_intros]:
  assumes m: "sim d mt ms" and f: "\<And>x. sim d (ft x) (fs x)"
  shows "sim d (State_Monad.bind mt ft) (State_Monad.bind ms fs)"
  unfolding sim_def
proof (intro allI impI)
  fix s y s'
  assume run: "run_state (State_Monad.bind ms fs) s = (y, s')"
  obtain x s1 where x: "run_state ms s = (x, s1)" by fastforce
  with run have y: "run_state (fs x) s1 = (y, s')" by simp
  from m x obtain l where l: "served d s l s1"
    "\<forall>rs cs. run_state mt \<lparr>replies = map snd l @ rs, calls = cs, waiting = None\<rparr> =
       (x, \<lparr>replies = rs, calls = rev l @ cs, waiting = None\<rparr>)"
    unfolding sim_def by blast
  from f [of x] y obtain l' where l': "served d s1 l' s'"
    "\<forall>rs cs. run_state (ft x) \<lparr>replies = map snd l' @ rs, calls = cs, waiting = None\<rparr> =
       (y, \<lparr>replies = rs, calls = rev l' @ cs, waiting = None\<rparr>)"
    unfolding sim_def by blast
  have "served d s (l @ l') s'"
    using l l' by (auto simp: served_append)
  with l(2) l'(2) show "\<exists>l. served d s l s' \<and>
      (\<forall>rs cs. run_state (State_Monad.bind mt ft) \<lparr>replies = map snd l @ rs, calls = cs, waiting = None\<rparr> =
         (y, \<lparr>replies = rs, calls = rev l @ cs, waiting = None\<rparr>))"
    by (intro exI [of _ "l @ l'"]) simp
qed

lemma sim_cases [sim_intros]:
  "sim d a a' \<Longrightarrow> (\<And>y. sim d (b y) (b' y)) \<Longrightarrow>
     sim d (case x of None \<Rightarrow> a | Some y \<Rightarrow> b y) (case x of None \<Rightarrow> a' | Some y \<Rightarrow> b' y)"
  "(\<And>e. sim d (h e) (h' e)) \<Longrightarrow> (\<And>v. sim d (k v) (k' v)) \<Longrightarrow>
     sim d (case z of Inl e \<Rightarrow> h e | Inr v \<Rightarrow> k v) (case z of Inl e \<Rightarrow> h' e | Inr v \<Rightarrow> k' v)"
  "(\<And>u v. sim d (l u v) (l' u v)) \<Longrightarrow>
     sim d (case p of (u, v) \<Rightarrow> l u v) (case p of (u, v) \<Rightarrow> l' u v)"
  "sim d m m' \<Longrightarrow> sim d n n' \<Longrightarrow> sim d (if c then m else n) (if c then m' else n')"
  "(\<And>v. sim d (g v) (g' v)) \<Longrightarrow> sim d (let v = w in g v) (let v = w in g' v)"
  by (simp_all add: Let_def split: option.split sum.split prod.split)

lemma sim_and_then [sim_intros]:
  "sim d m m' \<Longrightarrow> (\<And>x. sim d (f x) (f' x)) \<Longrightarrow> sim d (and_then m f) (and_then m' f')"
  unfolding and_then_def by (intro sim_intros)

lemma sim_ask:
  assumes q: "serve_call d q = replying re m" and re: "\<And>x. un (re x) = x"
  shows "sim d (ask q un) m"
  unfolding sim_def
proof (intro allI impI)
  fix s x s'
  assume "run_state m s = (x, s')"
  then have "served d s [(q, re x)] s'"
    by (simp add: q replying_def)
  then show "\<exists>l. served d s l s' \<and>
      (\<forall>rs cs. run_state (ask q un) \<lparr>replies = map snd l @ rs, calls = cs, waiting = None\<rparr> =
         (x, \<lparr>replies = rs, calls = rev l @ cs, waiting = None\<rparr>))"
    by (intro exI [of _ "[(q, re x)]"]) (simp add: ask_def re)
qed

lemmas un_defs = un_tx_def un_receipt_def un_mined_def un_bool_def un_err_def un_u64_def un_int_def
  un_signed_def un_message_def un_address_def un_data_def un_result_def un_block_def un_mtx_def
  un_mtxs_def un_dbtx_def un_batch_def un_now_def un_range_def un_none_def

lemma sim_asks [sim_intros]:
  "sim d (ask (C_GetTx h) un_tx) (em_GetTx (lift_IEtherman (dp_etherman d)) h)"
  "sim d (ask (C_GetTxReceipt h) un_receipt) (em_GetTxReceipt (lift_IEtherman (dp_etherman d)) h)"
  "sim d (ask (C_WaitTxToBeMined t n) un_bool) (em_WaitTxToBeMined (lift_IEtherman (dp_etherman d)) t n)"
  "sim d (ask (C_SendTx t) un_err) (em_SendTx (lift_IEtherman (dp_etherman d)) t)"
  "sim d (ask (C_PendingNonce a) un_u64) (em_PendingNonce (lift_IEtherman (dp_etherman d)) a)"
  "sim d (ask C_SuggestedGasPrice un_int) (em_SuggestedGasPrice (lift_IEtherman (dp_etherman d)))"
  "sim d (ask (C_EstimateGas a to v dat) un_u64)
     (em_EstimateGas (lift_IEtherman (dp_etherman d)) a to v dat)"
  "sim d (ask (C_CheckTxWasMined h) un_mined) (em_CheckTxWasMined (lift_IEtherman (dp_etherman d)) h)"
  "sim d (ask (C_SignTx a t) un_signed) (em_SignTx (lift_IEtherman (dp_etherman d)) a t)"
  "sim d (ask (C_GetRevertMessage ot) un_message)
     (em_GetRevertMessage (lift_IEtherman (dp_etherman d)) ot)"
  "sim d (ask (C_GetSequencerAddr rid) un_address)
     (em_GetSequencerAddr (lift_IEtherman (dp_etherman d)) rid)"
  "sim d (ask (C_BuildTrustedVerifyBatchesTxData lb nb z rid) un_data)
     (em_BuildTrustedVerifyBatchesTxData (lift_IEtherman (dp_etherman d)) lb nb z rid)"
  "sim d (ask (C_CallContract msg bn) un_result) (em_CallContract (lift_IEtherman (dp_etherman d)) msg bn)"
  "sim d (ask (C_State_GetLastBlock dt) un_block)
     (si_GetLastBlock (StateInterface_of (lift_IEtherman (dp_etherman d))) dt)"
  "sim d (ask (C_Add m dt) un_err)
     (PostgresStorage_Add (dp_geth d) (dp_runtime d) (dp_driver d) m dt)"
  "sim d (ask (C_Get ow i dt) un_mtx) (PostgresStorage_Get (dp_geth d) (dp_driver d) ow i dt)"
  "sim d (ask (C_GetBySenderAndStatus a sts dt) un_mtxs)
     (PostgresStorage_GetBySenderAndStatus (dp_geth d) (dp_driver d) a sts dt)"
  "sim d (ask (C_Update m dt) un_err)
     (PostgresStorage_Update (dp_geth d) (dp_runtime d) (dp_driver d) m dt)"
  "sim d (ask C_BeginStateTransaction un_dbtx) (DB_BeginStateTransaction (dp_driver d))"
  "sim d (ask (C_Commit tn) un_err) (Tx_Commit (dp_driver d) tn)"
  "sim d (ask (C_Rollback tn) un_err) (Tx_Rollback (dp_driver d) tn)"
  "sim d (ask (C_BatchByNumber u num) un_batch)
     (zk_BatchByNumber (zk_NewClient (lift_creator (dp_creator d)) u) num)"
  "sim d (ask C_range un_range) (rt_range (lift_runtime (dp_runtime d)))"
  "sim d (ask (C_count nm ro) un_none) (rt_count (lift_runtime (dp_runtime d)) nm ro)"
  by (rule sim_ask, simp only: serve_call.simps the_etm_fields storage_fields DB_of_fields pgx_of_fields,
      simp add: un_defs)+

lemma the_etm_cfg [simp]: "cl_cfg (the_etm d) = cfg_EthTxManager (dp_config d)"
  by (simp add: the_etm_def)

lemma sim_checkHistory [sim_intros]:
  "sim d (checkHistory (tape_client (dp_config d)) hs sc) (checkHistory (the_etm d) hs sc)"
proof (induction hs arbitrary: sc)
  case (Cons h hs)
  show ?case
    unfolding checkHistory.simps tape_client_fields tape_asks the_etm_fields by (intro sim_intros Cons)
qed (simp add: sim_intros)

lemma sim_result_txs [sim_intros]:
  "sim d (result_txs (tape_client (dp_config d)) hs txs) (result_txs (the_etm d) hs txs)"
proof (induction hs arbitrary: txs)
  case (Cons h hs)
  show ?case
    unfolding result_txs.simps tape_client_fields tape_asks the_etm_fields by (intro sim_intros Cons)
qed (simp add: sim_intros)

lemma sim_monitorTx:
  "sim d (monitorTx (dp_geth d) tape_runtime (tape_client (dp_config d)) m)
     (monitorTx (dp_geth d) (lift_runtime (dp_runtime d)) (the_etm d) m)"
  unfolding monitor_defs tape_client_fields tape_asks the_etm_fields the_etm_cfg storage_fields
  by (intro sim_intros)


lemma the_endpoints_fields [simp]:
  "ie_db (the_endpoints d) = DB_of (dp_driver d)"
  "ex_etherman (ie_executor (the_endpoints d)) = lift_IEtherman (dp_etherman d)"
  "ex_ethTxMan (ie_executor (the_endpoints d)) = EthTxManager_of (lift_runtime (dp_runtime d)) (the_etm d)"
  "ZkEVMClientCreator (ie_executor (the_endpoints d)) = lift_creator (dp_creator d)"
  "ex_config (ie_executor (the_endpoints d)) = dp_config d"
  "interopAdminAddr (ie_executor (the_endpoints d)) = dp_addr d"
  by (simp_all add: the_endpoints_def the_etm_def)

lemma tape_executor_fields [simp]:
  "ex_config (ie_executor (tape_endpoints c addr)) = c"
  "interopAdminAddr (ie_executor (tape_endpoints c addr)) = addr"
  by (simp_all add: tape_endpoints_def NewInteropEndpoints_def tape_executor_def Executor_New_def)

lemma sim_endpoints:
  "sim d (InteropEndpoints_SendTx (dp_geth d) tape_runtime tape_pgx
       (tape_endpoints (dp_config d) (dp_addr d)) stx) (serve_SendTx d stx)"
  "sim d (InteropEndpoints_GetTxStatus (dp_geth d) tape_runtime tape_pgx
       (tape_endpoints (dp_config d) (dp_addr d)) h) (serve_GetTxStatus d h)"
  unfolding serve_SendTx_def serve_GetTxStatus_def endpoint_defs tape_endpoints_fields
    tape_executor_fields tape_client_fields tape_asks the_endpoints_fields the_etm_fields the_etm_cfg
    storage_fields DB_of_fields pgx_of_fields
  by (intro sim_intros)+

section \<open>Scheduling one thread\<close>

text \<open>What the code of a thread is when it runs in one piece.\<close>

fun in_one_piece :: "'w deployment \<Rightarrow> thread \<Rightarrow> ('w sys, outcome) state" where
  "in_one_piece d (Monitoring m) = do {
     x \<leftarrow> monitorTx (dp_geth d) (lift_runtime (dp_runtime d)) (the_etm d) m;
     ret (Exit x) }"
| "in_one_piece d (Serving_SendTx stx) = do { r \<leftarrow> serve_SendTx d stx; ret (Response r) }"
| "in_one_piece d (Serving_GetTxStatus h) = do { r \<leftarrow> serve_GetTxStatus d h; ret (Response r) }"

lemma sim_body: "sim d (body d th) (in_one_piece d th)"
  by (cases th) (simp_all add: sim_bind sim_ret sim_monitorTx sim_endpoints)

text \<open>More replies only add calls.\<close>

lemma calls_of_extend: "\<exists>c. calls_of d th (rs @ rs') = c @ calls_of d th rs"
proof (induction rs' rule: rev_induct)
  case (snoc r rs')
  have "\<exists>c. calls_of d th (rs'' @ [r]) = c @ calls_of d th rs''" for rs''
  proof (cases "next_move d th rs''")
    case (Inl q)
    then show ?thesis by (simp add: next_call)
  next
    case (Inr x)
    obtain y s' where run: "run_state (body d th) (blank rs'') = (y, s')" by fastforce
    with Inr have "waiting s' = None"
      by (auto simp: next_move_def split: option.splits)
    from well_extend [OF well_body _ run this, of "[r]"] run show ?thesis
      by (simp add: calls_of_def) (simp add: blank_def)
  qed
  from this [of "rs @ rs'"] snoc show ?case by (metis append.assoc)
qed simp

lemma calls_of_replies:
  assumes "next_move d th rs = Inl q"
  shows "map snd (calls_of d th rs) = rev rs"
proof -
  obtain y s' where run: "run_state (body d th) (blank rs) = (y, s')" by fastforce
  with assms have "waiting s' = Some q"
    by (auto simp: next_move_def split: option.splits)
  from well_waits [OF well_body _ run this] have "replies s' = []"
    by (simp add: blank_def)
  with preservesD [OF well_on_tape [OF well_body] run] show ?thesis
    by (simp add: calls_of_def run on_tape_def) (simp add: blank_def rev_swap)
qed


text \<open>A thread that has had a part of the replies of a run makes the next call of that run.\<close>

lemma next_move_along:
  assumes run: "run_state (body d th) (blank (map snd (l @ (q, r) # l'))) = (x, s')"
    and all: "replies s' = []" "calls s' = rev (l @ (q, r) # l')"
  shows "next_move d th (map snd l) = Inl q"
proof -
  let ?rs = "map snd l"
  have calls: "calls_of d th (?rs @ [r] @ map snd l') = rev l' @ (q, r) # rev l"
    using run all by (simp add: calls_of_def)
  obtain y t where part: "run_state (body d th) (blank ?rs) = (y, t)" by fastforce
  show ?thesis
  proof (cases "waiting t")
    case None
    have "run_state (body d th) (blank (?rs @ r # map snd l')) =
        (y, t\<lparr>replies := replies t @ r # map snd l'\<rparr>)"
      using well_extend [OF well_body _ part None, of "r # map snd l'"] by (simp add: blank_def)
    with run all(1) show ?thesis by auto
  next
    case (Some q')
    then have move: "next_move d th ?rs = Inl q'"
      by (simp add: next_move_def part)
    obtain c where "calls_of d th ((?rs @ [r]) @ map snd l') = c @ (q', r) # calls_of d th ?rs"
      using calls_of_extend [of d th "?rs @ [r]" "map snd l'"] next_call [OF move] by metis
    with calls have "c @ (q', r) # calls_of d th ?rs = rev l' @ (q, r) # rev l"
      by simp
    moreover have "length (calls_of d th ?rs) = length (rev l)"
      using arg_cong [OF calls_of_replies [OF move], of length] by simp
    ultimately have "q' = q"
      by (auto simp: append_eq_append_conv)
    with move show ?thesis by simp
  qed
qed

lemma served_steps:
  assumes "served d s l' s'" and "\<And>l1 q r l2. l' = l1 @ (q, r) # l2 \<Longrightarrow> next_move d th (map snd (l @ l1)) = Inl q"
  shows "(step d)\<^sup>*\<^sup>* (s, xs @ (th, map snd l) # ys) (s', xs @ (th, map snd (l @ l')) # ys)"
  using assms
proof (induction l' arbitrary: s l)
  case (Cons p l')
  obtain q r where p: "p = (q, r)" by (cases p)
  from Cons.prems(1) obtain s1 where s1: "run_state (serve_call d q) s = (r, s1)" "served d s1 l' s'"
    by (auto simp: p)
  have "next_move d th (map snd l) = Inl q"
    using Cons.prems(2) [of "[]" q r l'] by (simp add: p)
  from step.call [OF this s1(1)]
  have one: "step d (s, xs @ (th, map snd l) # ys) (s1, xs @ (th, map snd (l @ [p])) # ys)"
    by (simp add: p)
  have "(step d)\<^sup>*\<^sup>* (s1, xs @ (th, map snd (l @ [p])) # ys) (s', xs @ (th, map snd ((l @ [p]) @ l')) # ys)"
  proof (rule Cons.IH [OF s1(2)])
    show "next_move d th (map snd ((l @ [p]) @ l1)) = Inl q'" if "l' = l1 @ (q', r') # l2" for l1 q' r' l2
      using Cons.prems(2) [of "p # l1" q' r' l2] that by simp
  qed
  with one show ?case
    by (simp add: converse_rtranclp_into_rtranclp)
qed simp

lemma alone:
  assumes "run_state (in_one_piece d th) s = (x, s')"
  shows "\<exists>rs. (step d)\<^sup>*\<^sup>* (s, xs @ (th, []) # ys) (s', xs @ (th, rs) # ys) \<and> next_move d th rs = Inr x"
proof -
  from sim_body [of d th] assms obtain l where l: "served d s l s'"
    and run: "run_state (body d th) \<lparr>replies = map snd l @ [], calls = [], waiting = None\<rparr> =
      (x, \<lparr>replies = [], calls = rev l @ [], waiting = None\<rparr>)"
    unfolding sim_def by meson
  have run': "run_state (body d th) (blank (map snd l)) = (x, \<lparr>replies = [], calls = rev l, waiting = None\<rparr>)"
    using run by (simp add: blank_def)
  have "next_move d th (map snd l1) = Inl q" if "l = l1 @ (q, r) # l2" for l1 q r l2
    by (rule next_move_along [of d th l1 q r l2 x "\<lparr>replies = [], calls = rev l, waiting = None\<rparr>"]) (use run' that in simp_all)
  then have "(step d)\<^sup>*\<^sup>* (s, xs @ (th, []) # ys) (s', xs @ (th, map snd l) # ys)"
    using served_steps [OF l, of th "[]" xs ys] by simp
  moreover have "next_move d th (map snd l) = Inr x"
    by (simp add: next_move_def run')
  ultimately show ?thesis
    by blast
qed


section \<open>Schedules\<close>

text \<open>The transition relation as a function of what is scheduled; what is not possible changes
  nothing.\<close>

datatype choice = Start_cycle | Arrival thread | Run nat

fun scheduled :: "'w deployment \<Rightarrow> choice \<Rightarrow> 'w sys \<times> pool \<Rightarrow> 'w sys \<times> pool" where
  "scheduled d Start_cycle (s, ts) =
     (if idle_monitor ts
      then (case run_state (serve_call d (C_GetByStatus None monitored_statuses None)) s of
              (r, s') \<Rightarrow> (s', ts @ spawn (un_mtxs r)))
      else (s, ts))"
| "scheduled d (Arrival th) (s, ts) = (if is_monitoring th then (s, ts) else (s, ts @ [(th, [])]))"
| "scheduled d (Run i) (s, ts) =
     (if i < length ts
      then (case ts ! i of
              (th, rs) \<Rightarrow>
                (case next_move d th rs of
                   Inl q \<Rightarrow>
                     (case run_state (serve_call d q) s of
                        (r, s') \<Rightarrow> (s', take i ts @ (th, rs @ [r]) # drop (Suc i) ts))
                 | Inr x \<Rightarrow> (s, take i ts @ drop (Suc i) ts)))
      else (s, ts))"

definition schedule :: "'w deployment \<Rightarrow> choice list \<Rightarrow> 'w sys \<times> pool \<Rightarrow> 'w sys \<times> pool" where
  "schedule d cs p = fold (scheduled d) cs p"

lemma scheduled_step: "(step d)\<^sup>=\<^sup>= p (scheduled d c p)"
proof -
  obtain s ts where p: "p = (s, ts)" by (cases p)
  show ?thesis
  proof (cases c)
    case Start_cycle
    then show ?thesis by (auto simp: p intro: step.cycle split: prod.split)
  next
    case (Arrival th)
    then show ?thesis by (auto simp: p intro: step.request)
  next
    case (Run i)
    show ?thesis
    proof (cases "i < length ts")
      case True
      obtain th rs where i: "ts ! i = (th, rs)" by (cases "ts ! i")
      have ts: "ts = take i ts @ (th, rs) # drop (Suc i) ts"
        using id_take_nth_drop [OF True] i by simp
      have "step d (s, ts) (s', take i ts @ (th, rs @ [r]) # drop (Suc i) ts)"
        if "next_move d th rs = Inl q" and "run_state (serve_call d q) s = (r, s')" for q r s'
        using step.call [OF that, of "take i ts" "drop (Suc i) ts"] ts by simp
      moreover have "step d (s, ts) (s, take i ts @ drop (Suc i) ts)" if "next_move d th rs = Inr x" for x
        using step.finish [OF that, of s "take i ts" "drop (Suc i) ts"] ts by simp
      ultimately show ?thesis
        using True i by (auto simp: p Run split: sum.split prod.split)
    qed (simp add: p Run)
  qed
qed

lemma schedule_steps: "(step d)\<^sup>*\<^sup>* p (schedule d cs p)"
proof (induction cs arbitrary: p)
  case (Cons c cs)
  have "(step d)\<^sup>*\<^sup>* p (scheduled d c p)"
    using scheduled_step [of d p c] by auto
  also have "(step d)\<^sup>*\<^sup>* (scheduled d c p) (schedule d (c # cs) p)"
    using Cons.IH by (simp add: schedule_def)
  finally show ?case .
qed (simp add: schedule_def)

lemma steps_scheduled: "(step d)\<^sup>*\<^sup>* p p' \<Longrightarrow> \<exists>cs. schedule d cs p = p'"
proof (induction rule: rtranclp_induct)
  case base
  show ?case by (rule exI [of _ "[]"]) (simp add: schedule_def)
next
  case (step p1 p2)
  then obtain cs where cs: "schedule d cs p = p1" by blast
  from step(2) have "\<exists>c. scheduled d c p1 = p2"
  proof (cases rule: step.cases)
    case (cycle ts s r s')
    then show ?thesis by (intro exI [of _ Start_cycle]) simp
  next
    case (request th s ts)
    then show ?thesis by (intro exI [of _ "Arrival th"]) simp
  next
    case (call th rs q s r s' xs ys)
    then show ?thesis by (intro exI [of _ "Run (length xs)"]) (simp add: nth_append)
  next
    case (finish th rs x s xs ys)
    then show ?thesis by (intro exI [of _ "Run (length xs)"]) (simp add: nth_append)
  qed
  then obtain c where "scheduled d c p1 = p2" ..
  with cs show ?case
    by (intro exI [of _ "cs @ [c]"]) (simp add: schedule_def)
qed


section \<open>How many calls a thread makes\<close>

definition costs :: "nat \<Rightarrow> (tape, 'a) state \<Rightarrow> bool" where
  "costs n m \<longleftrightarrow> (\<forall>s. length (calls (snd (run_state m s))) \<le> length (calls s) + n)"

named_theorems costs_intros

lemma costs_le: "costs a m \<Longrightarrow> a \<le> n \<Longrightarrow> costs n m"
  unfolding costs_def by (meson add_left_mono order_trans)

lemma costs_ret [costs_intros]: "costs 0 (ret x)"
  by (simp add: costs_def)

lemma costs_ask [costs_intros]: "costs 1 (ask q un)"
  by (simp add: costs_def ask_def split: list.split)

lemma costs_bind [costs_intros]:
  assumes "costs a m" and "\<And>x. costs b (f x)"
  shows "costs (a + b) (State_Monad.bind m f)"
  unfolding costs_def
proof
  fix s
  obtain x s1 where m: "run_state m s = (x, s1)" by fastforce
  obtain y s2 where f: "run_state (f x) s1 = (y, s2)" by fastforce
  have "length (calls s1) \<le> length (calls s) + a" and "length (calls s2) \<le> length (calls s1) + b"
    using assms(1) assms(2) [of x] m f by (auto simp: costs_def) (metis snd_conv)+
  with m f show "length (calls (snd (run_state (State_Monad.bind m f) s))) \<le> length (calls s) + (a + b)"
    by simp
qed

lemma costs_cases [costs_intros]:
  "costs a m \<Longrightarrow> (\<And>y. costs b (f y)) \<Longrightarrow> costs (max a b) (case x of None \<Rightarrow> m | Some y \<Rightarrow> f y)"
  "(\<And>e. costs a (h e)) \<Longrightarrow> (\<And>v. costs b (k v)) \<Longrightarrow>
     costs (max a b) (case z of Inl e \<Rightarrow> h e | Inr v \<Rightarrow> k v)"
  "(\<And>u v. costs a (l u v)) \<Longrightarrow> costs a (case p of (u, v) \<Rightarrow> l u v)"
  "costs a m' \<Longrightarrow> costs b n' \<Longrightarrow> costs (max a b) (if c then m' else n')"
  by (cases x; cases z; cases p; auto intro: costs_le [OF _ max.cobounded1] costs_le [OF _ max.cobounded2])+

lemma costs_and_then [costs_intros]:
  "costs a m \<Longrightarrow> (\<And>x. costs b (f x)) \<Longrightarrow> costs (a + max 0 b) (and_then m f)"
  unfolding and_then_def by (intro costs_intros)

lemma costs_checkHistory: "costs (length hs) (checkHistory (tape_client c) hs sc)"
proof (induction hs arbitrary: sc)
  case (Cons h hs)
  show ?case
    unfolding checkHistory.simps tape_client_fields tape_asks
    by (rule costs_le, (rule costs_intros Cons)+, simp)
qed (simp add: costs_ret)

text \<open>The phases of \<open>monitorTx\<close>, in the worst case.\<close>

lemma costs_phases:
  "costs 3 (reviewNonceIfNeeded G (tape_client c) sc m)"
  "costs 1 (checkRetries (tape_client c) m')"
  "costs 10 (obtainReceipt G (tape_client c) sc m)"
  "costs 3 (settleOutcome (tape_client c) p)"
  unfolding monitor_defs tape_client_fields tape_asks
  by (rule costs_le, (rule costs_intros)+, simp)+

lemma costs_monitorTx:
  "costs (length (map_keys (History m)) + 18) (monitorTx G tape_runtime (tape_client c) m)"
proof -
  have "costs (length (map_keys (History m)))
      (checkHistory (tape_client c) (range_by ks (map_keys (History m))) scan_start)" for ks
    using costs_checkHistory [of "range_by ks (map_keys (History m))"] by simp
  note history = this
  show ?thesis
    unfolding monitorTx_def tape_client_fields tape_asks
    by (rule costs_le, (rule costs_intros costs_phases history)+, simp)
qed

lemma costs_SendTx:
  "costs 18 (InteropEndpoints_SendTx G tape_runtime tape_pgx (tape_endpoints c addr) stx)"
  unfolding endpoint_defs tape_endpoints_fields tape_executor_fields tape_client_fields tape_asks
  by (rule costs_le, (rule costs_intros)+, simp)

text \<open>The bound; a request for the status makes as many calls as the row that it reads has hashes, so
  it has none that is known beforehand.\<close>

fun call_bound :: "thread \<Rightarrow> nat option" where
  "call_bound (Monitoring m) = Some (length (map_keys (History m)) + 18)"
| "call_bound (Serving_SendTx stx) = Some 18"
| "call_bound (Serving_GetTxStatus h) = None"

lemma costs_body:
  assumes "call_bound th = Some n"
  shows "costs n (body d th)"
  using assms
  by (cases th)
    (auto intro: costs_le [OF costs_bind [OF costs_monitorTx costs_ret]] costs_le [OF costs_bind [OF costs_SendTx costs_ret]])

text \<open>A thread that still waits has made fewer calls than that.\<close>

lemma calls_bounded:
  assumes "next_move d th rs = Inl q" and "call_bound th = Some n"
  shows "length rs < n"
proof -
  have "length (calls_of d th (rs @ [R_none])) \<le> n"
    using costs_body [OF assms(2), of d] unfolding costs_def calls_of_def
    by (metis add_0 calls_blank(1) list.size(3))
  moreover have "length (calls_of d th rs) = length rs"
    using arg_cong [OF calls_of_replies [OF assms(1)], of length] by simp
  ultimately show ?thesis
    by (simp add: next_call [OF assms(1)])
qed

definition within_bounds :: "pool \<Rightarrow> bool" where
  "within_bounds ts \<longleftrightarrow> (\<forall>th rs n. (th, rs) \<in> set ts \<longrightarrow> call_bound th = Some n \<longrightarrow> length rs \<le> n)"

lemma within_bounds_step: "step d p p' \<Longrightarrow> within_bounds (snd p) \<Longrightarrow> within_bounds (snd p')"
proof (induction rule: step.induct)
  case (cycle ts s r s')
  then show ?case
    by (auto simp: within_bounds_def spawn_def split: sum.splits)
next
  case (call th rs q s r s' xs ys)
  then show ?case
    using calls_bounded [OF call.hyps(1)] by (fastforce simp: within_bounds_def Suc_le_eq)
qed (auto simp: within_bounds_def)

lemma within_bounds_reached: "(step d)\<^sup>*\<^sup>* p p' \<Longrightarrow> within_bounds (snd p) \<Longrightarrow> within_bounds (snd p')"
  by (induction rule: rtranclp_induct) (simp_all add: within_bounds_step)

end
