(* ===== verification/Scenario.thy ===== *)
theory Scenario
  imports Nonces Scheduling
begin

text \<open>
  Two runs of the interleaved process, for the witnesses. In the first a network mines what it is
  sent, the table has one created row, a request arrives, a monitoring cycle starts, and its thread
  signs, records and sends the transaction and confirms the row. In the second a request commits
  the row of its certificate.
\<close>

section \<open>A network that mines\<close>

definition ref_receipt :: Receipt where
  "ref_receipt = \<lparr>rcpt_Status = ReceiptStatusSuccessful, rcpt_TxHash = 0, rcpt_BlockNumber = Some 8\<rparr>"

definition mining_etherman :: "unit IEtherman" where
  "mining_etherman = ref_etherman
     \<lparr>em_WaitTxToBeMined := (\<lambda>t d. ret (Inr True)), em_GetTxReceipt := (\<lambda>h. ret (Some ref_receipt, None))\<rparr>"

definition mining_deployment :: "unit deployment" where
  "mining_deployment = ref_deployment\<lparr>dp_etherman := mining_etherman\<rparr>"

abbreviation mining_logged :: "(unit \<times> event set) deployment" where
  "mining_logged \<equiv> log_deployment mining_deployment"

text \<open>The transaction that is read from the row, and the table that holds it.\<close>

definition mtx0 :: MonitoredTx where
  "mtx0 = scan_fields ref_geth ref_row (Some [1, 2])"

lemma mtx0_fields [simp]:
  "Owner mtx0 = ''interop''" "ID mtx0 = ''0x01''" "Status mtx0 = MonitoredTxStatusCreated"
  "NumRetries mtx0 = 1" "From mtx0 = 7" "Nonce mtx0 = 3" "Gas mtx0 = 21000" "GasOffset mtx0 = 100"
  by (simp_all add: mtx0_def scan_fields_def ref_row_def row_of_def sample_mtx_def)

lemma mtx0_History [simp]: "History mtx0 = Some [(5, True)]"
  by (simp add: mtx0_def scan_fields_def ref_row_def row_of_def sample_mtx_def MonitoredTx_HistoryStringSlice_def
      map_keys_def del: geth_okD) (simp add: geth_okD [OF geth_ok_ref_geth])

definition busy :: "(unit \<times> event set) sys" where
  "busy = (ref_sys ((), {}))\<lparr>committed := [ref_row]\<rparr>"

lemma cycle_run:
  "run_state (serve_call mining_logged (C_GetByStatus None monitored_statuses None)) busy =
     (R_mtxs (Inr [mtx0]), busy)"
proof -
  have "scanMtx ref_geth ref_row = Inr mtx0"
    by (simp add: scanMtx_def mtx0_def) (simp add: ref_row_def row_of_def sample_mtx_def)
  then show ?thesis
    by (simp add: replying_def PostgresStorage_GetByStatus_def pg_query_def on_world_def on_left_def
        busy_def log_driver_def ref_driver_def mining_deployment_def log_deployment_def
        ref_deployment_def ref_sys_def collect_rows_def monitored_statuses_def dbConn_def)
qed

text \<open>What the services answer.\<close>

lemma unit_world: "s\<lparr>world := ((), snd (world s))\<rparr> = s"
  by (cases s) (simp add: prod_eq_iff)

lemma mining_services [simp]:
  "run_state (em_CheckTxWasMined (cl_etherman (the_etm mining_logged)) h) s = ((False, None, None), s)"
  "run_state (em_SignTx (cl_etherman (the_etm mining_logged)) a t) s = (Inr t, s)"
  "run_state (em_GetTx (cl_etherman (the_etm mining_logged)) h) s = ((None, False, Some ref_not_found), s)"
  "run_state (em_SendTx (cl_etherman (the_etm mining_logged)) t) s =
     (None, s\<lparr>world := ((), insert (Sent (tx_Hash ref_geth t)) (snd (world s)))\<rparr>)"
  "run_state (em_WaitTxToBeMined (cl_etherman (the_etm mining_logged)) t n) s = (Inr True, s)"
  "run_state (em_GetTxReceipt (cl_etherman (the_etm mining_logged)) h) s =
     ((Some ref_receipt, None), s\<lparr>world := ((), insert (Mined h ref_receipt) (snd (world s)))\<rparr>)"
  "run_state (si_GetLastBlock (cl_state (the_etm mining_logged)) dt) s =
     (Inr \<lparr>sb_BlockNumber = 9, sb_BlockHash = 0, sb_ParentHash = 0, sb_ReceivedAt = 0\<rparr>,
      s\<lparr>world := ((), insert (Last_block 9) (snd (world s)))\<rparr>)"
  "run_state (rt_range (lift_runtime (dp_runtime mining_logged))) s = ([], s)"
  "run_state (st_Update (cl_storage (the_etm mining_logged)) m None) s =
     (None, s\<lparr>committed := apply_write (Update (row_of ref_geth [] 0 0 m)) (committed s)\<rparr>)"
  "cl_cfg (the_etm mining_logged) = cfg_EthTxManager DefaultValues"
  by (simp_all add: unit_world log_deployment_def mining_deployment_def ref_deployment_def
      mining_etherman_def ref_etherman_def lift_IEtherman_def log_IEtherman_def on_world_def on_left_def
      noting_def log_events_def mined_event_def receipt_event_def block_event_def StateInterface_of_def
      lift_runtime_def log_runtime_def ref_runtime_def PostgresStorage_Update_def pg_exec_def
      log_driver_def ref_driver_def try_write_def dbConn_def Round_us_def del: apply_write.simps)
lemma mining_geth [simp]: "dp_geth mining_deployment = ref_geth"
  by (simp add: mining_deployment_def)

text \<open>The hash of the transaction that is signed in that run.\<close>

definition sent_hash :: hash where
  "sent_hash = tx_Hash ref_geth (MonitoredTx_Tx ref_geth mtx0)"

lemma sent_hash_new: "sent_hash \<noteq> 5"
  by (simp add: sent_hash_def MonitoredTx_Tx_def ref_geth_def)

definition mtx1 :: MonitoredTx where
  "mtx1 = mtx0\<lparr>History := Some [(5, True), (sent_hash, True)], NumRetries := 2\<rparr>"

lemma mtx1_fields [simp]:
  "Owner mtx1 = ''interop''" "ID mtx1 = ''0x01''" "Status mtx1 = MonitoredTxStatusCreated"
  by (simp_all add: mtx1_def)

lemma adds_history:
  "MonitoredTx_AddHistory ref_geth (MonitoredTx_Tx ref_geth mtx0) mtx0 = Some (Inr mtx1)"
  using sent_hash_new
  by (simp add: MonitoredTx_AddHistory_def sent_hash_def [symmetric] map_found_def map_assign_def mtx1_def)

lemma below_limit: "\<not> (10 :: u64) \<le> 1"
  by (simp add: word_le_nat_alt)

section \<open>A transaction is sent and confirmed\<close>

lemma monitor_run:
  "\<exists>s'. run_state (in_one_piece mining_logged (Monitoring (fixNumRetries mtx0))) busy =
       (Exit MarkedConfirmed, s') \<and>
     map c_status (committed s') = [MonitoredTxStatusConfirmed] \<and> sent_of s' = {sent_hash}"
  by (simp add: monitorTx_def fixNumRetries_def map_keys_def scan_start_def monitor_defs and_then_def
      reviewIfSent_def signAndRecord_def sendIfUnknown_def waitMined_def finalUpdate_def status_defs
      Let_def adds_history below_limit ref_not_found_def ref_receipt_def Uint64_def DefaultValues_def
      del: the_etm_fields the_etm_cfg apply_write.simps)
    (simp add: busy_def ref_sys_def row_of_def ref_row_def sent_of_def sent_hash_def sample_mtx_def
      status_defs)

definition confirmed_run :: "(unit \<times> event set) sys \<Rightarrow> pool \<Rightarrow> bool" where
  "confirmed_run s ts \<longleftrightarrow>
     (step mining_logged)\<^sup>*\<^sup>* (busy, []) (s, ts) \<and>
     map c_status (committed s) = [MonitoredTxStatusConfirmed] \<and> sent_of s = {sent_hash}"

lemma confirming_thread:
  "\<exists>s rs. confirmed_run s [(Serving_SendTx ref_stx, []), (Monitoring (fixNumRetries mtx0), rs)] \<and>
     next_move mining_logged (Monitoring (fixNumRetries mtx0)) rs = Inr (Exit MarkedConfirmed)"
proof -
  let ?d = mining_logged and ?stx = "(Serving_SendTx ref_stx, [])" and ?m = "Monitoring (fixNumRetries mtx0)"
  from monitor_run obtain s where s: "run_state (in_one_piece ?d ?m) busy = (Exit MarkedConfirmed, s)"
    and st: "map c_status (committed s) = [MonitoredTxStatusConfirmed]" "sent_of s = {sent_hash}"
    by (elim exE conjE)
  have "step ?d (busy, []) (busy, [?stx])"
    using step.request [of "Serving_SendTx ref_stx" ?d busy "[]"] by simp
  moreover have "step ?d (busy, [?stx]) (busy, [?stx, (?m, [])])"
    using step.cycle [of "[?stx]", OF _ cycle_run] by (simp add: idle_monitor_def spawn_def un_mtxs_def)
  moreover obtain rs where "(step ?d)\<^sup>*\<^sup>* (busy, [?stx, (?m, [])]) (s, [?stx, (?m, rs)])"
    and end': "next_move ?d ?m rs = Inr (Exit MarkedConfirmed)"
    using alone [OF s, of "[?stx]" "[]"] by auto
  ultimately have "(step ?d)\<^sup>*\<^sup>* (busy, []) (s, [?stx, (?m, rs)])"
    by (meson converse_rtranclp_into_rtranclp)
  with st end' show ?thesis
    unfolding confirmed_run_def by (intro exI conjI)
qed

lemma confirmed_run: "\<exists>s ts. confirmed_run s ts"
  using confirming_thread by (elim exE conjE) (intro exI)

lemma busy_state [simp]:
  "committed busy = [ref_row]" "open_txs busy = Map.empty" "sent_of busy = {}"
  by (simp_all add: busy_def ref_sys_def sent_of_def)

lemma pkey_ref_row [simp]: "pkey [ref_row]"
  by (simp add: pkey_def keys_def)

section \<open>A certificate is accepted\<close>

lemma ref_signer: "SignedTx_Signer ref_geth ref_stx = Inr 5"
  by (simp add: SignedTx_Signer_def) (simp add: ref_geth_def ref_stx_def bytes_nat_def)

lemma ref_stx_fields:
  "RollupID (stx_Tx ref_stx) = 1" "NewStateRoot (tx_ZKP (stx_Tx ref_stx)) = 1"
  "NewLocalExitRoot (tx_ZKP (stx_Tx ref_stx)) = 2"
  by (simp_all add: ref_stx_def)

lemma ref_config:
  "cfg_FullNodeRPCs (dp_config ref_deployment) 1 = Some ''http://zkevm-node:8123''"
  "cfg_ProofSigners (dp_config ref_deployment) = Map.empty"
  by (simp_all add: ref_deployment_def DefaultValues_def)

lemma ref_services:
  "run_state (rt_count (lift_runtime (dp_runtime ref_deployment)) n r) s = ((), s)"
  "run_state (em_GetSequencerAddr (lift_IEtherman (dp_etherman ref_deployment)) ri) s = (Inr 5, s)"
  "run_state (em_BuildTrustedVerifyBatchesTxData (lift_IEtherman (dp_etherman ref_deployment)) l nb z ri) s =
     (Inr [1, 2], s)"
  "run_state (em_CallContract (lift_IEtherman (dp_etherman ref_deployment)) cm b) s = (([], None), s)"
  "run_state (em_PendingNonce (lift_IEtherman (dp_etherman ref_deployment)) a) s = (Inr 3, s)"
  "run_state (em_SuggestedGasPrice (lift_IEtherman (dp_etherman ref_deployment))) s = (Inr 10, s)"
  "run_state (em_EstimateGas (lift_IEtherman (dp_etherman ref_deployment)) a to v dat) s = (Inr 21000, s)"
  "run_state (zk_BatchByNumber (zk_NewClient (lift_creator (dp_creator ref_deployment)) u) num) s =
     (Inr (Some \<lparr>StateRoot = 1, LocalExitRoot = 2\<rparr>), s)"
  by (simp_all add: ref_deployment_def ref_runtime_def ref_etherman_def ref_creator_def lift_runtime_def
      lift_IEtherman_def lift_creator_def on_world_def)

lemma ref_db:
  "dp_driver ref_deployment = ref_driver"
  "run_state (on_world (pg_fault ref_driver)) s = (None, s)"
  "run_state (on_world (pg_cut ref_driver)) s = (None, s)"
  "run_state (on_world (rt_Now (dp_runtime ref_deployment))) s = (0, s)"
  "run_state (on_world (rt_range (dp_runtime ref_deployment))) s = ([], s)"
  by (simp_all add: ref_deployment_def ref_driver_def ref_runtime_def on_world_def)

lemma ref_sys_fields:
  "committed (ref_sys w) = []" "open_txs (ref_sys w) = Map.empty" "next_tx (ref_sys w) = 0"
  by (simp_all add: ref_sys_def)

lemma request_run:
  "\<exists>s. run_state (in_one_piece ref_deployment (Serving_SendTx ref_stx)) (ref_sys ()) =
       (Response (ResultHash (Tx_Hash ref_geth (stx_Tx ref_stx)), None), s) \<and> length (committed s) = 1"
  by (simp add: serve_SendTx_def endpoint_defs ref_stx_fields ref_signer ref_config ref_services ref_db
      DB_BeginStateTransaction_def PostgresStorage_Add_def PostgresStorage_GetBySenderAndStatus_def
      pg_exec_def pg_query_def try_write_def Tx_Commit_def try_commit_def close_tx_def keys_def dbConn_def
      and_then_def collect_rows_def ref_sys_fields)

lemma certificate_run:
  "\<exists>s r. (step ref_deployment)\<^sup>*\<^sup>* (ref_sys (), []) (s, []) \<and> committed s = [r]"
proof -
  let ?d = ref_deployment and ?th = "Serving_SendTx ref_stx"
  from request_run obtain x s where s: "run_state (in_one_piece ?d ?th) (ref_sys ()) = (x, s)"
    and l: "length (committed s) = 1"
    by blast
  have "step ?d (ref_sys (), []) (ref_sys (), [(?th, [])])"
    using step.request [of ?th ?d "ref_sys ()" "[]"] by simp
  moreover obtain rs where "(step ?d)\<^sup>*\<^sup>* (ref_sys (), [(?th, [])]) (s, [(?th, rs)])"
    and "next_move ?d ?th rs = Inr x"
    using alone [OF s, of "[]" "[]"] by auto
  moreover from this(2) have "step ?d (s, [(?th, rs)]) (s, [])"
    using step.finish [of ?d ?th rs x s "[]" "[]"] by simp
  ultimately have "(step ?d)\<^sup>*\<^sup>* (ref_sys (), []) (s, [])"
    by (meson converse_rtranclp_into_rtranclp rtranclp.rtrancl_into_rtrancl)
  with l show ?thesis
    by (auto simp: length_Suc_conv)
qed

end
