(* ===== verification/Spec2Isabelle.thy ===== *)
theory Spec2Isabelle
  imports Reference Evidence Decisions Nonces AtomicStore Startup Concurrency Scheduling Scenario
begin

text \<open>
  A verification of agglayer-go, the service that takes certificates (zero-knowledge proofs of
  rollup batches, signed), checks them and settles them on L1.

  THE PROGRAM. \<open>cmd/main.go\<close> reads the configuration (\<open>config/\<close>), makes the logger (\<open>log/\<close>), opens
  PostgreSQL and runs the migrations (\<open>db/\<close>), loads the signing key, connects to L1 (\<open>etherman/\<close>) and
  starts two things that then run side by side until an interrupt stops them: the RPC server, whose
  endpoints (\<open>rpc/rpc.go\<close>) call the executor (\<open>interop/executor.go\<close>), and the transaction manager
  (\<open>txmanager/\<close>). They share the table \<open>state.monitored_txs\<close> only: \<open>SendTx\<close> inserts a row with status
  \<open>created\<close> in a database transaction of its own, and the monitor reads the rows that are not
  finished, signs, records, sends and follows each of them until it is \<open>confirmed\<close> or \<open>failed\<close>.
  \<open>GetTxStatus\<close> reads a row. \<open>client/client.go\<close> is the Go client of the two endpoints.

  THE MODEL. Every operation with an effect is a state transformer of \<open>HOL-Library.State_Monad\<close>;
  errors are values (\<open>goerr + 'a\<close>, \<open>goerr option\<close>), a panic is a value of its own. Interfaces are
  records of methods over the state. The system state \<open>'w sys\<close> (Database) holds the committed rows,
  the pending writes of each open transaction and the world \<open>'w\<close>, which is everything outside the
  process; \<open>on_world\<close> lifts an operation of the world to it. Nothing is assumed of the answers of the
  world: network, clock, map order and the failures of the database connection are arbitrary.

    Theory         Source
    Prelude        machine types, Go errors, maps and slices, the state monad and its \<open>wp\<close> calculus
    Geth           the go-ethereum types and functions the code uses (parameters; \<open>geth_ok\<close>)
    HexText        \<open>rpc/types/hex.go\<close>, \<open>rpc/types/types.go\<close>
    AggTx          \<open>tx/tx.go\<close>
    ProofCodec     \<open>etherman/proof.go\<close>
    MonitoredTx    \<open>txmanager/types/monitoredtx.go\<close>
    Interfaces     \<open>txmanager/types/interfaces.go\<close>, \<open>types/interfaces.go\<close>
    Database       \<open>db/db.go\<close>, \<open>db/migrations/*.sql\<close>, the SQL statements, \<open>pgx.Tx\<close>
    Storage        \<open>txmanager/pgstorage.go\<close>
    AtomicStore    the abstract database that Storage and Database refine
    BigFloat       the part of \<open>math/big.Float\<close> that the gas price goes through
    Config, Load   \<open>config/config.go\<close>, \<open>config/default.go\<close>
    TxManager      \<open>txmanager/txmanager.go\<close>: \<open>Add\<close>, \<open>Result\<close>, nonce, gas, reviews
    Monitor        \<open>txmanager/txmanager.go\<close>: \<open>monitorTx\<close>, \<open>monitorTxs\<close>, \<open>Start\<close>
    Etherman       \<open>etherman/etherman.go\<close>, \<open>etherman/interfaces.go\<close>
    Executor, Rpc  \<open>interop/executor.go\<close>, \<open>rpc/rpc.go\<close>
    ClientApi      \<open>client/client.go\<close>
    Logger         \<open>log/log.go\<close>, \<open>version.go\<close>
    System         the services as \<open>cmd/main.go\<close> puts them together
    Startup        \<open>cmd/main.go\<close>, \<open>network/network.go\<close>, \<open>db/migrations.go\<close>
    Threads        the goroutines of monitor and endpoints as sequences of calls
    Interleaving   \<open>step\<close>: the process as its goroutines run it, on one shared state
    Reference      a concrete deployment, for the witnesses
    Scenario       two runs of the interleaved process, for the witnesses

  A definition has the name of its Go function with the receiver in front (\<open>Client_Add\<close>,
  \<open>PostgresStorage_Update\<close>). A long function is cut along its own comments into phases that are
  composed again in the definition of its name: \<open>monitorTx\<close> is \<open>checkHistory\<close>,
  \<open>reviewNonceIfNeeded\<close>, \<open>checkRetries\<close>, \<open>obtainReceipt\<close> (\<open>reviewIfSent\<close>, \<open>signAndRecord\<close>,
  \<open>sendIfUnknown\<close>, \<open>waitMined\<close>) and \<open>settleOutcome\<close>; its result says which \<open>return\<close> it took.

  THE PROOFS. Interfaces are locales; each is interpreted on the model's own services, for every
  driver, runtime, configuration and network.
    \<open>text_codec\<close>, \<open>hex_codec\<close> (HexText): a text form that is read back; \<open>u64_text\<close>, \<open>bytes_text\<close>.
    \<open>row_store\<close> (Storage): what the manager relies on of its storage, failures included; \<open>pg\<close>.
      Its part \<open>row_writer\<close> is what a single run of \<open>monitorTx\<close> relies on.
    \<open>tx_worker\<close>, \<open>tx_client\<close> (MonitorInv): a client whose network does not write the table; it
      reduces an invariant of the table to one update with an evolved copy (\<open>monitorTx_inv\<close>,
      \<open>monitorTxs_stable\<close>); \<open>etm\<close>.
    \<open>tracked_worker\<close>, \<open>tracked_client\<close> (Tracking), \<open>evidence_worker\<close>, \<open>evidence_client\<close> (Evidence)
      extend it by what was sent and by what the network reported; \<open>trk\<close> and \<open>ev\<close> interpret the
      clients on a deployment with a ghost log (SendLog), which nothing reads, and \<open>tape_tracked\<close> and
      \<open>tape_evidence\<close> (Tapes) the workers on the calls of a single goroutine.
    \<open>executor_env\<close> (ExecutorEnv): the checks touch no database; \<open>exe\<close>.
    \<open>status_service\<close> (ClientApi): a service that a client polls; \<open>srv\<close> (Polling).
    \<open>observed\<close> (Concurrency): a deployment with what has been sent and what has been reported; it
      shows that the invariants hold in every state that \<open>step\<close> reaches; \<open>logged\<close>, \<open>reported\<close>, \<open>unlogged\<close>.
  Server has the rules of the two endpoints, Service the activities of the process, run one after
  the other, and what holds along every sequence of them, Typing the form of the rows, Decisions and
  Nonces the single decisions of the manager.

  CONCURRENCY. The goroutines share the database and the network only, so a goroutine is known by the
  calls it makes. Threads runs the code of Monitor and Rpc, the same definitions, on a tape of
  replies: \<open>next_move\<close> is the next call of a goroutine that has had these replies, or its outcome.
  Tapes shows what a goroutine may call and what its calls do to the row it was read from, for
  every tape, by interpreting the locales above on the tape. Interleaving has the transition relation
  \<open>step\<close>: a cycle reads the table and starts a goroutine for each row when those of the cycle before
  have ended (\<open>wg.Wait\<close>), requests arrive at any time, and any goroutine makes its next call. Its
  invariant keeps, for each row that is being monitored, the row as it was read (\<open>thread_ok\<close>): the
  row in the table is what the updates of its own goroutine have made of it. Scheduling shows that a
  goroutine that is not interrupted does what its code does in one piece, that the runs of \<open>step\<close>
  are those of \<open>schedule\<close>, an executable scheduler, and how many calls a goroutine makes.

  What the theorems of this theory show, in every interleaving: every transaction sent was recorded
  first; a row is confirmed only with a successful receipt of its own history, reported in its
  block, with the state at that block; rows evolve along the status machine; new rows come from
  accepted certificates. And of the single operations: \<open>SendTx\<close> commits one row for a
  certificate that is registered and signed as configured, or nothing; \<open>GetTxStatus\<close>
  changes nothing; and a client that waits for the status \<open>done\<close> waits in vain. The
  other properties stand in the theories of their components, each after a text that starts with its
  number.

  BOUNDS AND LOOPS. No fuel is used. The loops that do not end by themselves (\<open>Start\<close>,
  the polling of the client, the wait for a signal) recurse over the list of what each
  \<open>select\<close> or receive sees, so a finite list is a finite run and a theorem for all
  lists is one for every run; \<open>Client_Start_returns\<close> says when the loop of the monitor
  ends. A goroutine of the monitor makes at most 18 calls and one per hash of its history, one that
  serves \<open>SendTx\<close> at most 18 (\<open>threads_end\<close>). Integers of Go are words of
  their width; \<open>*big.Int\<close> is \<open>int\<close>.

  ABSTRACTIONS. One call of an interface is one step; a statement of the database is atomic, and a
  goroutine sees the table of the moment of each statement (read committed).
  \<open>monitorTxs\<close> as a definition of its own runs the goroutines of a cycle one after the
  other, in an arbitrary order, for the theorems on single activities; those on interleavings rest
  on \<open>step\<close>. The race that the code does have, in the choice of nonces, is stated on
  interleaved \<open>Add\<close> calls in Nonces. Two open transactions that insert the same key are
  told apart at commit, where PostgreSQL makes the second insert wait for the first. The numeric
  columns hold the whole range of the 64-bit values that the code writes; the model does not have
  the refusal of a block number from 2^63 on, which the type \<open>BIGINT\<close> of
  \<open>block_num\<close> would make an error of the update. Deadlines are errors of the calls they
  interrupt. Log lines, sleeps and counters of the meter have no effect on the state that is
  modelled (a counter is an operation of the runtime).

  NOT MODELLED. The libraries behind the parameters: go-ethereum, pgx and PostgreSQL beyond the
  statements used, zkevm-node (contract bindings, \<open>DecodeBytes\<close>, \<open>WaitTxToBeMined\<close>,
  \<open>RevertReason\<close>, \<open>JSONRPCCall\<close>), viper, zap, sql-migrate, the HTTP and RPC servers. The command
  line parsing of \<open>main\<close>, the error values of \<open>etherman/errors.go\<close>, which nothing uses, generated
  mocks, tests, scripts and deployment files hold no logic of the service.
\<close>

section \<open>Every interleaving\<close>

text \<open>C1. Write-ahead: however the goroutines of the monitoring cycles and of the requests interleave
  their calls, and whatever the network, the clock and the connection to the database answer, every
  transaction hash ever handed to the network's \<open>SendTx\<close> is, at every moment, in the history of a
  committed row of the table.\<close>

theorem interleaved_sends_recorded:
  assumes "geth_ok (dp_geth d)" and "pkey (committed s)" and "open_txs s = Map.empty"
    and "sent_of s \<subseteq> recorded (dp_geth d) (committed s)"
    and "(step (log_deployment d))\<^sup>*\<^sup>* (s, []) (s', ts)"
  shows "sent_of s' \<subseteq> recorded (dp_geth d) (committed s')"
  using logged.inv_run [of d s s' ts] logged.recorded_now assms by fastforce

lemma interleaved_sends_recorded_witness:
  "\<exists>s ts. confirmed_run s ts \<and> sent_hash \<in> recorded ref_geth (committed s)"
proof -
  from confirmed_run obtain s ts where run: "confirmed_run s ts" by (elim exE)
  then have "sent_of s \<subseteq> recorded (dp_geth mining_deployment) (committed s)"
    using interleaved_sends_recorded [of mining_deployment busy s ts] by (simp add: confirmed_run_def)
  with run show ?thesis
    by (auto simp: confirmed_run_def)
qed

text \<open>C2. In every interleaving, a row has the status \<open>confirmed\<close> only if the network has reported a
  successful receipt for a hash of the row's own history, in the block that the row names, and has
  also reported a last block that is not below it (or the row is as it was at the start).\<close>

theorem interleaved_confirmed_with_receipt:
  assumes "geth_ok (dp_geth d)" and "pkey (committed s)" and "open_txs s = Map.empty"
    and "(step (log_deployment d))\<^sup>*\<^sup>* (s, []) (s', ts)"
    and "r \<in> set (committed s')" and "c_status r = MonitoredTxStatusConfirmed"
  shows "r \<in> set (committed s) \<or> backing (seen_of s') (row_hashes (dp_geth d) r) (c_block_num r)"
  using reported.inv_run [of d s s' ts] reported.confirmed_now assms by fastforce

lemma interleaved_confirmed_with_receipt_witness:
  "\<exists>s ts r. confirmed_run s ts \<and> committed s = [r] \<and> backing (seen_of s) (row_hashes ref_geth r) (c_block_num r)"
proof -
  from confirmed_run obtain s ts where run: "confirmed_run s ts" by (elim exE)
  then obtain r where r: "committed s = [r]" "c_status r = MonitoredTxStatusConfirmed"
    by (auto simp: confirmed_run_def)
  then have "r \<noteq> ref_row"
    by (auto simp: status_defs)
  with run r interleaved_confirmed_with_receipt [of mining_deployment busy s ts r]
  have "backing (seen_of s) (row_hashes ref_geth r) (c_block_num r)"
    by (simp add: confirmed_run_def)
  with run r(1) show ?thesis by (intro exI conjI)
qed

text \<open>C4. In every interleaving the table keeps its primary key, no row is removed, and each row
  evolves: its key, creation time and gas offset stay, its nonce and gas never decrease, no hash
  leaves its history, and its status follows the status machine; new rows are \<open>created\<close>, and no row
  becomes \<open>done\<close>.\<close>

theorem interleaved_table_grows:
  assumes "geth_ok (dp_geth d)" and "pkey (committed s)" and "open_txs s = Map.empty"
    and "(step d)\<^sup>*\<^sup>* (s, []) (s', ts)"
  shows "pkey (committed s') \<and> table_grows (dp_geth d) (committed s) (committed s')"
  using unlogged.inv_run [of d s s' ts] unlogged.grown_now assms by fastforce

lemma interleaved_table_grows_witness:
  "\<exists>s ts. confirmed_run s ts \<and> keys (committed s) = [row_key ref_row]"
proof -
  from confirmed_run obtain s ts where run: "confirmed_run s ts" by (elim exE)
  then have "table_grows ref_geth (committed busy) (committed s)"
    using interleaved_table_grows [of mining_logged busy s ts] by (simp add: confirmed_run_def)
  with run show ?thesis
    by (auto simp: confirmed_run_def table_grows_def keys_def)
qed

text \<open>C5. In every interleaving, a row that was not in the table at the start is what the monitor has
  made of the row of a certificate: its rollup has a full node in the configuration, its signer is
  the proof signer that the configuration names for the rollup, when it names one, and the
  transaction is the one \<open>Settle\<close> makes of it.\<close>

theorem interleaved_rows_certified:
  assumes "geth_ok (dp_geth d)" and "pkey (committed s)" and "open_txs s = Map.empty"
    and "(step d)\<^sup>*\<^sup>* (s, []) (s', ts)"
    and "r \<in> set (committed s')" and "row_key r \<notin> set (keys (committed s))"
  shows "\<exists>stx m ks cr u. rpc_registered (dp_config d) stx \<and>
    signed_as_configured (dp_geth d) (dp_config d) stx \<and>
    certificate_mtx (dp_geth d) (dp_config d) (dp_addr d) stx m \<and>
    row_evolves (dp_geth d) (row_of (dp_geth d) ks cr u m) r"
proof -
  have "\<exists>r0. new_row d r0 \<and> row_evolves (dp_geth d) r0 r"
    using unlogged.inv_run [of d s s' ts] unlogged.originated_now assms by fastforce
  then show ?thesis
    unfolding new_row_def certified_def accepted_def by blast
qed

lemma interleaved_rows_certified_witness:
  "\<exists>s r stx. (step ref_deployment)\<^sup>*\<^sup>* (ref_sys (), []) (s, []) \<and> committed s = [r] \<and>
     rpc_registered (dp_config ref_deployment) stx \<and>
     signed_as_configured ref_geth (dp_config ref_deployment) stx"
proof -
  from certificate_run obtain s r where
    run: "(step ref_deployment)\<^sup>*\<^sup>* (ref_sys (), []) (s, [])" "committed s = [r]"
    by (elim exE conjE)
  then obtain stx where "rpc_registered (dp_config ref_deployment) stx"
    and "signed_as_configured ref_geth (dp_config ref_deployment) stx"
    using interleaved_rows_certified [of ref_deployment "ref_sys ()" s "[]" r]
    by (auto simp: pkey_def keys_def ref_sys_fields)
  with run show ?thesis by (intro exI conjI)
qed

section \<open>Threads\<close>



text \<open>C7. A goroutine of the monitor makes at most 18 calls and one per hash of its history, and one
  that serves \<open>SendTx\<close> at most 18, whatever the others do and whatever it is answered; after that
  many it has ended. So \<open>wg.Wait\<close> waits for no goroutine whose calls return.\<close>

theorem threads_end:
  assumes "(step d)\<^sup>*\<^sup>* (s, []) (s', ts)" and "(th, rs) \<in> set ts" and "call_bound th = Some n"
  shows "length rs \<le> n \<and> (length rs = n \<longrightarrow> (\<exists>x. next_move d th rs = Inr x))"
proof -
  have "within_bounds ts"
    using within_bounds_reached [OF assms(1)] by (simp add: within_bounds_def)
  with assms(2,3) have "length rs \<le> n"
    by (simp add: within_bounds_def)
  then show ?thesis
    using calls_bounded [OF _ assms(3)] by (cases "next_move d th rs") fastforce+
qed

lemma threads_end_witness:
  "\<exists>s rs. confirmed_run s [(Serving_SendTx ref_stx, []), (Monitoring (fixNumRetries mtx0), rs)] \<and>
     length rs \<le> 19"
proof -
  from confirming_thread obtain s rs
    where run: "confirmed_run s [(Serving_SendTx ref_stx, []), (Monitoring (fixNumRetries mtx0), rs)]"
    by (elim exE conjE)
  then have "length rs \<le> 19"
    using threads_end [of mining_logged busy s _ "Monitoring (fixNumRetries mtx0)" rs 19]
    by (auto simp: confirmed_run_def fixNumRetries_def map_keys_def)
  with run show ?thesis by (intro exI conjI)
qed

section \<open>One activity after the other\<close>

text \<open>Write-ahead: whatever the service does, in any order (monitoring cycles, \<open>SendTx\<close> and
  \<open>GetTxStatus\<close> calls), and whatever the network, the clock and the connection to the database
  answer, every transaction hash ever handed to the network's \<open>SendTx\<close> is in the history of a
  committed row of the table.\<close>

theorem sends_recorded:
  assumes "geth_ok (dp_geth d)" and "log_recorded d s"
  shows "wp (perform_all (log_deployment d) as)
    (\<lambda>u s'. sent_of s' \<subseteq> recorded (dp_geth d) (committed s')) s"
  by (rule wp_mono [OF wp_perform_all_logged [OF assms]]) (simp add: log_recorded_def)

lemma sends_recorded_witness:
  "wp (perform_all (log_deployment ref_deployment) [Rpc_SendTx ref_stx, Monitor_cycle, Monitor_cycle])
    (\<lambda>u s'. sent_of s' \<subseteq> recorded ref_geth (committed s')) (ref_sys ((), {}))"
  using sends_recorded [of ref_deployment "ref_sys ((), {})"] by (simp del: perform_all.simps)

section \<open>Every confirmed row has a receipt\<close>

text \<open>Whatever the service does, in any order, a row has the status \<open>confirmed\<close> only if the network
  has reported a successful receipt for a hash of the row's own history, in the block that the row
  names, and has also reported a last block that is not below it.\<close>

theorem confirmed_with_receipt:
  assumes "geth_ok (dp_geth d)" and "log_backed d s"
  shows "wp (perform_all (log_deployment d) as)
    (\<lambda>u s'. backed (dp_geth d) (seen_of s') (committed s')) s"
  by (rule wp_mono [OF wp_perform_all_backed [OF assms]]) (simp add: log_backed_def)

lemma confirmed_with_receipt_witness:
  "wp (perform_all (log_deployment ref_deployment) [Rpc_SendTx ref_stx, Monitor_cycle, Monitor_cycle])
    (\<lambda>u s'. backed ref_geth (seen_of s') (committed s')) (ref_sys ((), {}))"
  by (rule wp_mono [OF confirmed_with_receipt [of ref_deployment "ref_sys ((), {})"]])
    (simp_all add: log_backed_def backed_def ref_sys_def wf_ref_sys [unfolded ref_sys_def])

section \<open>The endpoints\<close>

text \<open>C3. \<open>SendTx\<close> is atomic: it replies with the hash of the certificate and then exactly one new
  row was committed, \<open>created\<close>, under the owner \<open>interop\<close> and that hash, the rollup being
  registered and the signer the configured one; or it replies \<open>0x0\<close> with an error and the table is
  unchanged, unless the error is that of the commit. It leaves no transaction open.\<close>

theorem SendTx_atomic:
  assumes "wf_sys s"
  shows "wp (serve_SendTx d stx)
    (\<lambda>r s'. SendTx_outcome (dp_geth d) (dp_config d) (dp_addr d) stx (committed s) r (committed s') \<and>
       open_txs s' = open_txs s \<and> wf_sys s') s"
  unfolding serve_SendTx_def the_endpoints_def
  by (rule SendTx_rule [OF assms]) (use assms wf_sys_outcome in blast)

lemma SendTx_atomic_witness:
  "wp (serve_SendTx ref_deployment ref_stx)
    (\<lambda>r s'. SendTx_outcome ref_geth DefaultValues 7 ref_stx [] r (committed s')) (ref_sys ())"
  by (rule wp_mono [OF SendTx_atomic [OF wf_ref_sys]]) (simp add: ref_deployment_def ref_sys_def)

text \<open>C8. \<open>GetTxStatus\<close> changes no row and leaves no transaction open; its reply is the status of the
  row of owner \<open>interop\<close> under the hash, or \<open>0x0\<close> with an error.\<close>

theorem GetTxStatus_reads:
  assumes "wf_sys s"
  shows "wp (serve_GetTxStatus d h)
    (\<lambda>r s'. GetTxStatus_outcome (dp_geth d) h (committed s) r \<and> committed s' = committed s \<and>
       open_txs s' = open_txs s) s"
  unfolding serve_GetTxStatus_def the_endpoints_def
  by (rule GetTxStatus_rule [OF assms]) simp

lemma GetTxStatus_reads_witness:
  "wp (serve_GetTxStatus ref_deployment 6) (\<lambda>r s'. committed s' = []) (ref_sys ())"
  by (rule wp_mono [OF GetTxStatus_reads [OF wf_ref_sys]]) (simp add: ref_sys_def)

section \<open>The table over time\<close>

text \<open>Over any sequence of activities the table keeps its primary key, no row is removed, and each
  row evolves: its key, creation time and gas offset stay, its nonce and gas never decrease, no hash
  leaves its history, and its status follows the status machine; new rows are \<open>created\<close>, and no row
  becomes \<open>done\<close>.\<close>

theorem service_invariant:
  assumes "geth_ok (dp_geth d)" and "wf_sys s"
  shows "wp (perform_all d as)
    (\<lambda>u s'. wf_sys s' \<and> table_grows (dp_geth d) (committed s) (committed s')) s"
  by (rule wp_perform_all [OF assms]) simp

lemma service_invariant_witness:
  "wp (perform_all ref_deployment [Rpc_SendTx ref_stx, Monitor_cycle])
    (\<lambda>u s'. wf_sys s' \<and> live (committed s')) (ref_sys ())"
  by (rule wp_mono [OF service_invariant])
    (auto simp: table_grows_def intro: live_ref_sys)

text \<open>C15. A client that waits with \<open>WaitTxToBeMined\<close> is never told that its transaction was mined: it
  waits for the status \<open>done\<close>, which no part of the service writes. Whatever the service does
  between the polls, the call ends with an error or not at all.\<close>

theorem client_waits_in_vain:
  assumes "geth_ok (dp_geth d)" and "wf_sys s" and "live (committed s)"
  shows "wp (ApiClient_WaitTxToBeMined (http_call d N) c h evs) (\<lambda>r s'. r \<noteq> Some None) s"
  by (rule srv.wp_wait) (use assms in \<open>simp_all add: service_inv_def\<close>)

definition ref_network :: "unit network" where
  "ref_network = \<lparr>nw_meanwhile = ret [Monitor_cycle], nw_fault = ret None\<rparr>"

lemma client_waits_in_vain_witness:
  "wp (ApiClient_WaitTxToBeMined (http_call ref_deployment ref_network) (ApiClient_New ''http://agglayer'')
        6 [Tick, Tick, CtxDone]) (\<lambda>r s'. r \<noteq> Some None) (ref_sys ())"
  by (rule client_waits_in_vain) simp_all

end
